(* ===== verification/Mms_Prelude.thy ===== *)
theory Mms_Prelude
  imports Main "HOL-Library.Word" "HOL-Library.AList" "HOL-Library.Code_Target_Nat"
begin

text \<open>
  Shared vocabulary of the development: bytes and buffers, the outcome of a C++ routine that
  works on a raw buffer, big-endian integers, strings as byte sequences, and the contract of a
  wire format (the locales \<open>wire_codec\<close> and \<open>checked_codec\<close>).

  A buffer argument \<open>(uint8_t *data, size_t len)\<close> is the list of its \<open>len\<close> readable bytes.  A routine
  over such a buffer ends in one of three ways: it returns a non-negative count together with
  what it produced (\<open>Ok\<close>), it returns a negative code (\<open>Err\<close>), or it touches memory outside the
  buffer (\<open>Fault\<close>).  Every unguarded access of the source goes through a checked read, so that
  the absence of faults is a theorem and not a convention.

  The host is little-endian, as the server's target is: assembling an integer from its bytes in
  reverse order, \<open>ntohl\<close> and \<open>ntohs\<close> all read a big-endian integer.
\<close>

unbundle bit_operations_syntax

named_theorems outcome_simps "unfolding of the outcome combinators"
named_theorems wire_simps "evaluation of big-endian fields and string conversions"

type_synonym byte = "8 word"
type_synonym bytes = "8 word list"
type_synonym u16 = "16 word"
type_synonym u32 = "32 word"
type_synonym u64 = "64 word"

section \<open>Outcomes\<close>

datatype 'a outcome = Fault | Err int | Ok 'a

fun obind :: "'a outcome \<Rightarrow> ('a \<Rightarrow> 'b outcome) \<Rightarrow> 'b outcome" where
  "obind Fault f = Fault"
| "obind (Err e) f = Err e"
| "obind (Ok x) f = f x"

text \<open>\<open>or_code c m\<close> replaces whatever negative code \<open>m\<close> returned by \<open>c\<close>: the source's
  \<^verbatim>\<open>if (consumed < 0) return c;\<close>.\<close>

fun or_code :: "int \<Rightarrow> 'a outcome \<Rightarrow> 'a outcome" where
  "or_code c Fault = Fault"
| "or_code c (Err e) = Err c"
| "or_code c (Ok x) = Ok x"

text \<open>A \<open>nullptr\<close> result instead of a negative code.\<close>

fun or_null :: "'a outcome \<Rightarrow> 'a option outcome" where
  "or_null Fault = Fault"
| "or_null (Err e) = Ok None"
| "or_null (Ok x) = Ok (Some x)"

lemma obind_Ok_iff: "obind m f = Ok y \<longleftrightarrow> (\<exists>x. m = Ok x \<and> f x = Ok y)"
  by (cases m) auto

lemma obind_Fault_iff: "obind m f = Fault \<longleftrightarrow> m = Fault \<or> (\<exists>x. m = Ok x \<and> f x = Fault)"
  by (cases m) auto

lemma obind_cong [fundef_cong]:
  "m = m' \<Longrightarrow> (\<And>x. m' = Ok x \<Longrightarrow> f x = g x) \<Longrightarrow> obind m f = obind m' g"
  by (cases m) auto

lemma obind_assoc: "obind (obind m f) g = obind m (\<lambda>x. obind (f x) g)"
  by (cases m) auto

lemma or_code_Ok_iff [simp]: "or_code c m = Ok x \<longleftrightarrow> m = Ok x"
  by (cases m) auto

lemma or_code_Fault_iff [simp]: "or_code c m = Fault \<longleftrightarrow> m = Fault"
  by (cases m) auto

lemma or_null_Fault_iff [simp]: "or_null m = Fault \<longleftrightarrow> m = Fault"
  by (cases m) auto

lemmas outcome_iffs = obind_Ok_iff obind_Fault_iff

section \<open>Checked reads\<close>

definition rd8 :: "bytes \<Rightarrow> nat \<Rightarrow> byte outcome" where
  "rd8 d i = (if i < length d then Ok (d ! i) else Fault)"

definition rdn :: "bytes \<Rightarrow> nat \<Rightarrow> nat \<Rightarrow> bytes outcome" where
  "rdn d off n = (if off + n \<le> length d then Ok (take n (drop off d)) else Fault)"

lemma rd8_Ok [simp]: "i < length d \<Longrightarrow> rd8 d i = Ok (d ! i)"
  by (simp add: rd8_def)

lemma rd8_Fault_iff [simp]: "rd8 d i = Fault \<longleftrightarrow> length d \<le> i"
  by (auto simp: rd8_def)

lemma rd8_not_Err [simp]: "rd8 d i \<noteq> Err e"
  by (simp add: rd8_def)

lemma rdn_Ok [simp]: "off + n \<le> length d \<Longrightarrow> rdn d off n = Ok (take n (drop off d))"
  by (simp add: rdn_def)

lemma rdn_Fault_iff [simp]: "rdn d off n = Fault \<longleftrightarrow> length d < off + n"
  by (auto simp: rdn_def)

lemma rdn_not_Err [simp]: "rdn d off n \<noteq> Err e"
  by (simp add: rdn_def)

section \<open>Big-endian integers\<close>

text \<open>\<open>be k n\<close>: the \<open>k\<close> low bytes of \<open>n\<close>, most significant first (\<open>htons\<close>, \<open>htonl\<close>, \<open>htobe64\<close>);
  \<open>unbe\<close> reads such a field back.\<close>

fun be :: "nat \<Rightarrow> nat \<Rightarrow> bytes" where
  "be 0 n = []"
| "be (Suc k) n = be k (n div 256) @ [of_nat n]"

definition unbe :: "bytes \<Rightarrow> nat" where
  "unbe bs = foldl (\<lambda>a b. a * 256 + unat b) 0 bs"

lemma be_numeral [wire_simps]: "be (numeral k) n = be (pred_numeral k) (n div 256) @ [of_nat n]"
  by (simp only: numeral_eq_Suc [of k] be.simps)

lemma length_be [simp]: "length (be k n) = k"
  by (induction k n rule: be.induct) auto

lemma unbe_Nil [simp]: "unbe [] = 0"
  by (simp add: unbe_def)

lemma unbe_snoc [simp]: "unbe (bs @ [b]) = unbe bs * 256 + unat b"
  by (simp add: unbe_def)

lemma unbe_less: "unbe bs < 256 ^ length bs"
proof (induction bs rule: rev_induct)
  case Nil
  then show ?case by simp
next
  case (snoc b bs)
  have "unat b < 256" using unsigned_less [of b] by simp
  with snoc have "unbe bs * 256 + unat b < (256 ^ length bs) * 256" by linarith
  then show ?case by simp
qed

lemma unbe_be: "unbe (be k n) = n mod 256 ^ k"
proof (induction k n rule: be.induct)
  case (1 n)
  then show ?case by simp
next
  case (2 k n)
  have "unbe (be (Suc k) n) = (n div 256) mod 256 ^ k * 256 + n mod 256"
    using 2 by (simp add: unat_of_nat)
  also have "\<dots> = n mod (256 * 256 ^ k)"
    by (simp add: mod_mult2_eq)
  finally show ?case by simp
qed

lemma be_unbe [simp]: "be (length bs) (unbe bs) = bs"
proof (induction bs rule: rev_induct)
  case Nil
  then show ?case by simp
next
  case (snoc b bs)
  have ub: "unat b < 256" using unsigned_less [of b] by simp
  then have "(unbe bs * 256 + unat b) div 256 = unbe bs" by simp
  moreover have "(of_nat (unbe bs * 256 + unat b) :: byte) = b"
  proof -
    have "(unbe bs * 256 + unat b) mod 256 = unat b" using ub by simp
    then have "unat (of_nat (unbe bs * 256 + unat b) :: byte) = unat b"
      by (simp only: unat_of_nat) simp
    then show ?thesis by (simp only: word_unat_eq_iff)
  qed
  ultimately show ?case using snoc by simp
qed

lemma unbe_be_small [simp]: "n < 256 ^ k \<Longrightarrow> unbe (be k n) = n"
  by (simp add: unbe_be)

lemma be_inject: "n < 256 ^ k \<Longrightarrow> m < 256 ^ k \<Longrightarrow> be k n = be k m \<longleftrightarrow> n = m"
  by (metis unbe_be_small)

text \<open>Fields that hold a word of their own width.\<close>

lemma unbe_be_u16 [simp]: "unbe (be 2 (unat (w :: u16))) = unat w"
  using unsigned_less [of w] by (intro unbe_be_small) simp

lemma unbe_be_u32 [simp]: "unbe (be 4 (unat (w :: u32))) = unat w"
  using unsigned_less [of w] by (intro unbe_be_small) simp

lemma unbe_be_u64 [simp]: "unbe (be 8 (unat (w :: u64))) = unat w"
  using unsigned_less [of w] by (intro unbe_be_small) simp

section \<open>Strings\<close>

text \<open>A \<open>std::string\<close> is a \<open>string\<close>; its bytes are those of its characters.\<close>

definition bytes_of_str :: "string \<Rightarrow> bytes" where
  "bytes_of_str s = map (\<lambda>c. of_nat (of_char c)) s"

definition str_of_bytes :: "bytes \<Rightarrow> string" where
  "str_of_bytes bs = map (\<lambda>b. char_of (unat b)) bs"

lemma length_bytes_of_str [simp]: "length (bytes_of_str s) = length s"
  by (simp add: bytes_of_str_def)

lemma length_str_of_bytes [simp]: "length (str_of_bytes bs) = length bs"
  by (simp add: str_of_bytes_def)

lemma str_of_bytes_of_str [simp]: "str_of_bytes (bytes_of_str s) = s"
proof -
  have "char_of (unat (of_nat (of_char c) :: byte)) = c" for c
  proof -
    have "(of_char c :: nat) < 256" by simp
    then show ?thesis by (simp add: unat_of_nat)
  qed
  then show ?thesis by (simp add: bytes_of_str_def str_of_bytes_def comp_def)
qed

lemma bytes_of_str_of_bytes [simp]: "bytes_of_str (str_of_bytes bs) = bs"
proof -
  have "(of_nat (of_char (char_of (unat b) :: char)) :: byte) = b" for b :: byte
  proof -
    have "unat b < 256" using unsigned_less [of b] by simp
    then show ?thesis by simp
  qed
  then show ?thesis by (simp add: bytes_of_str_def str_of_bytes_def comp_def)
qed

lemma bytes_of_str_inject [simp]: "bytes_of_str s = bytes_of_str t \<longleftrightarrow> s = t"
  by (metis str_of_bytes_of_str)

section \<open>Sorted maps\<close>

text \<open>A \<open>std::map\<close> is a list sorted by its keys; \<open>insert\<close> leaves an existing key alone.\<close>

fun map_insert :: "'k::linorder \<Rightarrow> 'v \<Rightarrow> ('k \<times> 'v) list \<Rightarrow> ('k \<times> 'v) list" where
  "map_insert k p [] = [(k, p)]"
| "map_insert k p ((k', p') # m) =
     (if k < k' then (k, p) # (k', p') # m
      else if k = k' then (k', p') # m
      else (k', p') # map_insert k p m)"

lemma map_insert_keys: "set (map fst (map_insert k p m)) = insert k (set (map fst m))"
  by (induction k p m rule: map_insert.induct) auto

section \<open>The contract of a wire format\<close>

text \<open>
  A wire format encodes a value into a buffer and decodes it from the front of a buffer,
  reporting how many bytes it took.  The encoder is given the buffer it writes to (its length is
  the room it has) and returns the bytes of the prefix it filled.  \<open>sz\<close> is the number of bytes the
  format announces for a value, \<open>wf\<close> the values it can carry.
\<close>

locale wire_codec =
  fixes enc :: "'v \<Rightarrow> bytes \<Rightarrow> bytes outcome"
    and dec :: "bytes \<Rightarrow> ('v \<times> nat) outcome"
    and sz :: "'v \<Rightarrow> nat"
    and wf :: "'v \<Rightarrow> bool"
  assumes enc_fits: "wf v \<Longrightarrow> sz v \<le> length buf \<Longrightarrow> \<exists>bs. enc v buf = Ok bs \<and> length bs = sz v"
    and dec_enc: "wf v \<Longrightarrow> enc v buf = Ok bs \<Longrightarrow> dec (bs @ rest) = Ok (v, length bs)"
begin

lemma dec_enc_exact: "wf v \<Longrightarrow> enc v buf = Ok bs \<Longrightarrow> dec bs = Ok (v, length bs)"
  using dec_enc [of v buf bs "[]"] by simp

text \<open>Two values with a common prefix on the wire are equal: the format is prefix-free.\<close>

lemma prefix_free:
  assumes "wf v" "wf w" "enc v b1 = Ok bs" "enc w b2 = Ok cs" "bs @ r = cs @ s"
  shows "v = w \<and> bs = cs"
proof -
  have "dec (bs @ r) = Ok (v, length bs)" using assms(1,3) by (rule dec_enc)
  moreover have "dec (cs @ s) = Ok (w, length cs)" using assms(2,4) by (rule dec_enc)
  ultimately have "v = w" "length bs = length cs" using assms(5) by simp_all
  with assms(5) show ?thesis by simp
qed

lemma enc_inj: "wf v \<Longrightarrow> wf w \<Longrightarrow> enc v b1 = Ok bs \<Longrightarrow> enc w b2 = Ok bs \<Longrightarrow> v = w"
  using prefix_free [of v w b1 bs b2 bs "[]" "[]"] by simp

text \<open>A value written into enough room can be read back whatever follows it.\<close>

lemma round_trip:
  assumes "wf v" "sz v \<le> length buf"
  shows "\<exists>bs. enc v buf = Ok bs \<and> length bs = sz v \<and> (\<forall>rest. dec (bs @ rest) = Ok (v, sz v))"
proof -
  obtain bs where "enc v buf = Ok bs" "length bs = sz v" using enc_fits [OF assms] by blast
  then show ?thesis using dec_enc [OF assms(1)] by fastforce
qed

end

text \<open>A format whose encoder checks the room it has before every write.\<close>

locale checked_codec = wire_codec +
  assumes enc_short: "wf v \<Longrightarrow> length buf < sz v \<Longrightarrow> \<exists>e. enc v buf = Err e"
begin

lemma enc_never_faults: "wf v \<Longrightarrow> enc v buf \<noteq> Fault"
  using enc_fits [of v buf] enc_short [of v buf] by (cases "sz v \<le> length buf") auto

lemma enc_Ok_iff_room: "wf v \<Longrightarrow> (\<exists>bs. enc v buf = Ok bs) \<longleftrightarrow> sz v \<le> length buf"
  using enc_fits [of v buf] enc_short [of v buf] by (cases "sz v \<le> length buf") auto

end

end
