(* ===== verification/Amf0.thy ===== *)
theory Amf0
  imports Mms_Prelude
begin

text \<open>
  The AMF0 data model of \<open>src/server/rtmp/amf0\<close>: the marker types, one decoder and one encoder
  per class, the announced sizes, property lookup and update.  A \<open>double\<close> is its 64-bit pattern.
  The \<open>unordered_map\<close> of an object or an ECMA array is an association list with distinct keys
  in iteration order; \<open>properties_[key] = value\<close> is \<open>AList.update\<close>.
\<close>

section \<open>Markers and values\<close>

abbreviation (input) NUMBER_MARKER :: byte where "NUMBER_MARKER \<equiv> 0x00"
abbreviation (input) BOOLEAN_MARKER :: byte where "BOOLEAN_MARKER \<equiv> 0x01"
abbreviation (input) STRING_MARKER :: byte where "STRING_MARKER \<equiv> 0x02"
abbreviation (input) OBJECT_MARKER :: byte where "OBJECT_MARKER \<equiv> 0x03"
abbreviation (input) NULL_MARKER :: byte where "NULL_MARKER \<equiv> 0x05"
abbreviation (input) UNDEFINED_MARKER :: byte where "UNDEFINED_MARKER \<equiv> 0x06"
abbreviation (input) REFERENCE_MARKER :: byte where "REFERENCE_MARKER \<equiv> 0x07"
abbreviation (input) ECMA_ARRAY_MARKER :: byte where "ECMA_ARRAY_MARKER \<equiv> 0x08"
abbreviation (input) OBJECT_END_MARKER :: byte where "OBJECT_END_MARKER \<equiv> 0x09"
abbreviation (input) STRICT_ARRAY_MARKER :: byte where "STRICT_ARRAY_MARKER \<equiv> 0x0a"
abbreviation (input) DATE_MARKER :: byte where "DATE_MARKER \<equiv> 0x0B"

datatype amf0_data =
    Amf0Number u64
  | Amf0Boolean bool
  | Amf0String string
  | Amf0Object "(string \<times> amf0_data) list"
  | Amf0Null
  | Amf0Undefined
  | Amf0Reference u16
  | Amf0EcmaArray "(string \<times> amf0_data) list"
  | Amf0StrictArray "amf0_data list"
  | Amf0Date u64 u16

type_synonym properties = "(string \<times> amf0_data) list"

fun getType :: "amf0_data \<Rightarrow> byte" where
  "getType (Amf0Number _) = NUMBER_MARKER"
| "getType (Amf0Boolean _) = BOOLEAN_MARKER"
| "getType (Amf0String _) = STRING_MARKER"
| "getType (Amf0Object _) = OBJECT_MARKER"
| "getType Amf0Null = NULL_MARKER"
| "getType Amf0Undefined = UNDEFINED_MARKER"
| "getType (Amf0Reference _) = REFERENCE_MARKER"
| "getType (Amf0EcmaArray _) = ECMA_ARRAY_MARKER"
| "getType (Amf0StrictArray _) = STRICT_ARRAY_MARKER"
| "getType (Amf0Date _ _) = DATE_MARKER"

section \<open>Decoders of the scalar classes\<close>

definition Amf0Number_decode :: "bytes \<Rightarrow> (u64 \<times> nat) outcome" where
  "Amf0Number_decode data =
     (if length data < 1 then Err (-1)
      else obind (rd8 data 0) (\<lambda>marker.
        if marker \<noteq> NUMBER_MARKER then Err (-2)
        else if length data - 1 < 8 then Err (-3)
        else obind (rdn data 1 8) (\<lambda>d. Ok (of_nat (unbe d), 9))))"

definition Amf0Boolean_decode :: "bytes \<Rightarrow> (bool \<times> nat) outcome" where
  "Amf0Boolean_decode data =
     (if length data < 1 then Err (-1)
      else obind (rd8 data 0) (\<lambda>marker.
        if marker \<noteq> BOOLEAN_MARKER then Err (-2)
        else if length data - 1 < 1 then Err (-3)
        else obind (rd8 data 1) (\<lambda>b. Ok (0 < b, 2))))"

definition Amf0String_decode :: "bytes \<Rightarrow> (string \<times> nat) outcome" where
  "Amf0String_decode data =
     (if length data < 1 then Err (-1)
      else obind (rd8 data 0) (\<lambda>marker.
        if marker \<noteq> STRING_MARKER then Err (-2)
        else if length data - 1 < 2 then Err (-3)
        else obind (rdn data 1 2) (\<lambda>l.
          let string_len = unbe l in
          if length data - 3 < string_len then Err (-4)
          else obind (rdn data 3 string_len) (\<lambda>s. Ok (str_of_bytes s, 3 + string_len)))))"

definition Amf0Null_decode :: "bytes \<Rightarrow> (unit \<times> nat) outcome" where
  "Amf0Null_decode data =
     (if length data < 1 then Err (-1)
      else obind (rd8 data 0) (\<lambda>marker. if marker \<noteq> NULL_MARKER then Err (-2) else Ok ((), 1)))"

definition Amf0Undefined_decode :: "bytes \<Rightarrow> (unit \<times> nat) outcome" where
  "Amf0Undefined_decode data =
     (if length data < 1 then Err (-1)
      else obind (rd8 data 0) (\<lambda>marker. if marker \<noteq> UNDEFINED_MARKER then Err (-2) else Ok ((), 1)))"

definition Amf0Reference_decode :: "bytes \<Rightarrow> (u16 \<times> nat) outcome" where
  "Amf0Reference_decode data =
     (if length data < 1 then Err (-1)
      else obind (rd8 data 0) (\<lambda>marker.
        if marker \<noteq> REFERENCE_MARKER then Err (-2)
        else if length data - 1 < 2 then Err (-3)
        else obind (rdn data 1 2) (\<lambda>d. Ok (of_nat (unbe d), 3))))"

definition Amf0Date_decode :: "bytes \<Rightarrow> ((u64 \<times> u16) \<times> nat) outcome" where
  "Amf0Date_decode data =
     (if length data < 1 then Err (-1)
      else obind (rd8 data 0) (\<lambda>marker.
        if marker \<noteq> DATE_MARKER then Err (-2)
        else if length data - 1 < 8 then Err (-3)
        else obind (rdn data 1 8) (\<lambda>utc.
          if length data - 9 < 2 then Err (-4)
          else obind (rdn data 9 2) (\<lambda>tz.
            Ok ((of_nat (unbe utc), of_nat (unbe tz)), 11)))))"

definition Amf0ObjEnd_decode :: "bytes \<Rightarrow> nat outcome" where
  "Amf0ObjEnd_decode data =
     (if length data < 3 then Err (-1)
      else obind (rdn data 0 3) (\<lambda>d. if d \<noteq> [0x00, 0x00, OBJECT_END_MARKER] then Err (-2) else Ok 3))"

text \<open>The value object a decoder fills, as a value of the common base class.\<close>

definition as_value :: "('a \<Rightarrow> amf0_data) \<Rightarrow> ('a \<times> nat) outcome \<Rightarrow> (amf0_data \<times> nat) outcome" where
  "as_value c m = obind m (\<lambda>(v, n). Ok (c v, n))"

lemma as_value_cong [fundef_cong]: "m = m' \<Longrightarrow> as_value c m = as_value c m'"
  by simp

section \<open>Objects\<close>

function Amf0Object_decode :: "properties \<Rightarrow> bytes \<Rightarrow> (properties \<times> nat) outcome"
  and Amf0Object_loop :: "properties \<Rightarrow> bytes \<Rightarrow> nat \<Rightarrow> (properties \<times> nat) outcome"
  and Amf0Object_value :: "bytes \<Rightarrow> (amf0_data \<times> nat) outcome" where
  "Amf0Object_decode props data =
     (if length data < 1 then Err (-1)
      else obind (rd8 data 0) (\<lambda>marker.
        if marker \<noteq> OBJECT_MARKER then Err (-2)
        else Amf0Object_loop props (drop 1 data) 1))"
| "Amf0Object_loop props data pos =
     (if length data = 0 then Ok (props, pos)
      else case Amf0ObjEnd_decode data of
        Fault \<Rightarrow> Fault
      | Ok consumed \<Rightarrow> Ok (props, pos + consumed)
      | Err _ \<Rightarrow>
          (if length data < 2 then Err (-3)
           else obind (rdn data 0 2) (\<lambda>l.
             let key_len = unbe l in
             if length data - 2 < key_len then Err (-4)
             else obind (rdn data 2 key_len) (\<lambda>k.
               let key = str_of_bytes k; d = drop (2 + key_len) data in
               obind (or_code (-1) (Amf0Object_value d)) (\<lambda>(value, consumed).
                 Amf0Object_loop (AList.update key value props) (drop consumed d)
                   (pos + 2 + key_len + consumed))))))"
| "Amf0Object_value d =
     obind (rd8 d 0) (\<lambda>marker.
       if marker = NUMBER_MARKER then as_value Amf0Number (Amf0Number_decode d)
       else if marker = BOOLEAN_MARKER then as_value Amf0Boolean (Amf0Boolean_decode d)
       else if marker = STRING_MARKER then as_value Amf0String (Amf0String_decode d)
       else if marker = OBJECT_MARKER then as_value Amf0Object (Amf0Object_decode [] d)
       else if marker = NULL_MARKER then as_value (\<lambda>_. Amf0Null) (Amf0Null_decode d)
       else if marker = UNDEFINED_MARKER
         then as_value (\<lambda>_. Amf0Undefined) (Amf0Undefined_decode d)
       else Err (-1))"
  by pat_completeness auto
termination
  by (relation "measure (\<lambda>x. case x of Inl (_, data) \<Rightarrow> 2 * length data
        | Inr (Inl (_, data, _)) \<Rightarrow> 2 * length data | Inr (Inr d) \<Rightarrow> 2 * length d + 1)")
    auto

declare Amf0Object_decode.simps [simp del] Amf0Object_loop.simps [simp del]
  Amf0Object_value.simps [simp del]

section \<open>ECMA arrays\<close>

definition Amf0EcmaArray_value :: "byte \<Rightarrow> bytes \<Rightarrow> (amf0_data \<times> nat) outcome" where
  "Amf0EcmaArray_value marker d =
     (if marker = NUMBER_MARKER then or_code (-8) (as_value Amf0Number (Amf0Number_decode d))
      else if marker = BOOLEAN_MARKER then or_code (-8) (as_value Amf0Boolean (Amf0Boolean_decode d))
      else if marker = STRING_MARKER then or_code (-8) (as_value Amf0String (Amf0String_decode d))
      else if marker = NULL_MARKER then or_code (-8) (as_value (\<lambda>_. Amf0Null) (Amf0Null_decode d))
      else if marker = UNDEFINED_MARKER
        then or_code (-8) (as_value (\<lambda>_. Amf0Undefined) (Amf0Undefined_decode d))
      else Err (-7))"

fun Amf0EcmaArray_loop :: "nat \<Rightarrow> properties \<Rightarrow> bytes \<Rightarrow> nat \<Rightarrow> (properties \<times> bytes \<times> nat) outcome" where
  "Amf0EcmaArray_loop 0 props data pos = Ok (props, data, pos)"
| "Amf0EcmaArray_loop (Suc count) props data pos =
     (if length data < 2 then Err (-4)
      else obind (rdn data 0 2) (\<lambda>l.
        let key_len = unbe l in
        if length data - 2 < key_len then Err (-5)
        else obind (rdn data 2 key_len) (\<lambda>k.
          let key = str_of_bytes k; d = drop (2 + key_len) data in
          if length d < 1 then Err (-6)
          else obind (rd8 d 0) (\<lambda>marker.
            obind (Amf0EcmaArray_value marker d) (\<lambda>(value, consumed).
              Amf0EcmaArray_loop count (AList.update key value props) (drop consumed d)
                (pos + 2 + key_len + consumed))))))"

definition Amf0EcmaArray_decode :: "properties \<Rightarrow> bytes \<Rightarrow> (properties \<times> nat) outcome" where
  "Amf0EcmaArray_decode props data =
     (if length data < 1 then Err (-1)
      else obind (rd8 data 0) (\<lambda>marker.
        if marker \<noteq> ECMA_ARRAY_MARKER then Err (-2)
        else if length data - 1 < 4 then Err (-3)
        else obind (rdn data 1 4) (\<lambda>c.
          let count = nat (sint (of_nat (unbe c) :: u32)) in
          obind (Amf0EcmaArray_loop count props (drop 5 data) 5) (\<lambda>(props', rest, pos).
            obind (or_code (-8) (Amf0ObjEnd_decode rest)) (\<lambda>consumed.
              Ok (props', pos + consumed))))))"

section \<open>Strict arrays\<close>

text \<open>
  The element marker is consumed before the element's own decoder, which expects it again, and
  the loop counter is never advanced: the loop runs while there are bytes left.
\<close>

function Amf0StrictArray_loop ::
  "u32 \<Rightarrow> amf0_data list \<Rightarrow> bytes \<Rightarrow> nat \<Rightarrow> (amf0_data list \<times> nat) outcome" where
  "Amf0StrictArray_loop array_count datas data pos =
     (if \<not> (0 < array_count \<and> 0 < length data) then Ok (datas, pos)
      else obind (rd8 data 0) (\<lambda>marker.
        let d = drop 1 data in
        if marker \<notin> {NUMBER_MARKER, BOOLEAN_MARKER, STRING_MARKER, OBJECT_MARKER, NULL_MARKER,
            UNDEFINED_MARKER} then Err (-1)
        else obind (or_code (-5)
          (if marker = NUMBER_MARKER then as_value Amf0Number (Amf0Number_decode d)
           else if marker = BOOLEAN_MARKER then as_value Amf0Boolean (Amf0Boolean_decode d)
           else if marker = STRING_MARKER then as_value Amf0String (Amf0String_decode d)
           else if marker = OBJECT_MARKER then as_value Amf0Object (Amf0Object_decode [] d)
           else if marker = NULL_MARKER then as_value (\<lambda>_. Amf0Null) (Amf0Null_decode d)
           else as_value (\<lambda>_. Amf0Undefined) (Amf0Undefined_decode d)))
          (\<lambda>(value, consumed).
            Amf0StrictArray_loop array_count (datas @ [value]) (drop consumed d)
              (pos + 1 + consumed))))"
  by pat_completeness auto
termination
  by (relation "measure (\<lambda>(_, _, data, _). length data)") auto

declare Amf0StrictArray_loop.simps [simp del]

definition Amf0StrictArray_decode :: "amf0_data list \<Rightarrow> bytes \<Rightarrow> (amf0_data list \<times> nat) outcome" where
  "Amf0StrictArray_decode datas data =
     (if length data < 1 then Err (-1)
      else obind (rd8 data 0) (\<lambda>marker.
        if marker \<noteq> STRICT_ARRAY_MARKER then Err (-2)
        else if length data - 1 < 4 then Err (-3)
        else obind (rdn data 1 4) (\<lambda>c.
          Amf0StrictArray_loop (of_nat (unbe c)) datas (drop 5 data) 5)))"

section \<open>Encoders and sizes\<close>

definition Amf0Number_encode :: "u64 \<Rightarrow> bytes \<Rightarrow> bytes outcome" where
  "Amf0Number_encode v buf =
     (if length buf < 1 then Err (-1)
      else if length buf - 1 < 8 then Err (-2)
      else Ok (NUMBER_MARKER # be 8 (unat v)))"

definition Amf0Boolean_encode :: "bool \<Rightarrow> bytes \<Rightarrow> bytes outcome" where
  "Amf0Boolean_encode v buf =
     (if length buf < 1 then Err (-1)
      else if length buf - 1 < 1 then Err (-2)
      else Ok [BOOLEAN_MARKER, if v then 1 else 0])"

definition Amf0String_encode :: "string \<Rightarrow> bytes \<Rightarrow> bytes outcome" where
  "Amf0String_encode v buf =
     (if length buf < 1 then Err (-1)
      else if length buf - 1 < 2 then Err (-2)
      else if length buf - 3 < length v then Err (-3)
      else Ok (STRING_MARKER # be 2 (length v) @ bytes_of_str v))"

definition Amf0Null_encode :: "unit \<Rightarrow> bytes \<Rightarrow> bytes outcome" where
  "Amf0Null_encode v buf = (if length buf < 1 then Err (-1) else Ok [NULL_MARKER])"

definition Amf0Undefined_encode :: "unit \<Rightarrow> bytes \<Rightarrow> bytes outcome" where
  "Amf0Undefined_encode v buf = (if length buf < 1 then Err (-1) else Ok [UNDEFINED_MARKER])"

definition Amf0ObjEnd_encode :: "bytes \<Rightarrow> bytes outcome" where
  "Amf0ObjEnd_encode buf = (if length buf < 3 then Err (-1) else Ok [0x00, 0x00, OBJECT_END_MARKER])"

text \<open>
  The object encoder copies a key without checking the room that is left; a strict array
  leaves the four bytes of its count as the buffer had them; dates, references and ECMA arrays
  write nothing.
\<close>

fun Amf0_encode :: "amf0_data \<Rightarrow> bytes \<Rightarrow> bytes outcome"
  and Amf0Object_encode_props :: "properties \<Rightarrow> bytes \<Rightarrow> bytes outcome"
  and Amf0StrictArray_encode_datas :: "amf0_data list \<Rightarrow> bytes \<Rightarrow> bytes outcome" where
  "Amf0_encode (Amf0Number v) buf = Amf0Number_encode v buf"
| "Amf0_encode (Amf0Boolean v) buf = Amf0Boolean_encode v buf"
| "Amf0_encode (Amf0String v) buf = Amf0String_encode v buf"
| "Amf0_encode (Amf0Object props) buf =
     (if length buf < 1 then Err (-1)
      else obind (Amf0Object_encode_props props (drop 1 buf)) (\<lambda>bs.
        let b = drop (1 + length bs) buf in
        if length b < 3 then Err (-4)
        else obind (Amf0ObjEnd_encode b) (\<lambda>e. Ok (OBJECT_MARKER # bs @ e))))"
| "Amf0_encode Amf0Null buf = Amf0Null_encode () buf"
| "Amf0_encode Amf0Undefined buf = Amf0Undefined_encode () buf"
| "Amf0_encode (Amf0Reference _) buf = Ok []"
| "Amf0_encode (Amf0EcmaArray _) buf = Ok []"
| "Amf0_encode (Amf0StrictArray datas) buf =
     (if length buf < 1 then Err (-1)
      else if length buf - 1 < 4 then Err (-2)
      else obind (Amf0StrictArray_encode_datas datas (drop 5 buf)) (\<lambda>bs.
        Ok (STRICT_ARRAY_MARKER # take 4 (drop 1 buf) @ bs)))"
| "Amf0_encode (Amf0Date _ _) buf = Ok []"
| "Amf0Object_encode_props [] buf = Ok []"
| "Amf0Object_encode_props ((key, v) # props) buf =
     (if length buf < 2 then Err (-3)
      else if length buf - 2 < length key then Fault
      else let b = drop (2 + length key) buf in
        obind (or_code (-3) (Amf0_encode v b)) (\<lambda>bs.
          obind (Amf0Object_encode_props props (drop (length bs) b)) (\<lambda>cs.
            Ok (be 2 (length key) @ bytes_of_str key @ bs @ cs))))"
| "Amf0StrictArray_encode_datas [] buf = Ok []"
| "Amf0StrictArray_encode_datas (v # datas) buf =
     obind (or_code (-3) (Amf0_encode v buf)) (\<lambda>bs.
       obind (Amf0StrictArray_encode_datas datas (drop (length bs) buf)) (\<lambda>cs. Ok (bs @ cs)))"

fun Amf0_size :: "amf0_data \<Rightarrow> nat"
  and Amf0Object_size_props :: "properties \<Rightarrow> nat"
  and Amf0StrictArray_size_datas :: "amf0_data list \<Rightarrow> nat" where
  "Amf0_size (Amf0Number _) = 9"
| "Amf0_size (Amf0Boolean _) = 2"
| "Amf0_size (Amf0String v) = 1 + 2 + length v"
| "Amf0_size (Amf0Object props) = 1 + Amf0Object_size_props props + 3"
| "Amf0_size Amf0Null = 1"
| "Amf0_size Amf0Undefined = 1"
| "Amf0_size (Amf0Reference _) = 3"
| "Amf0_size (Amf0EcmaArray _) = 0"
| "Amf0_size (Amf0StrictArray datas) = 1 + 4 + Amf0StrictArray_size_datas datas"
| "Amf0_size (Amf0Date _ _) = 11"
| "Amf0Object_size_props [] = 0"
| "Amf0Object_size_props ((key, v) # props) =
     2 + length key + Amf0_size v + Amf0Object_size_props props"
| "Amf0StrictArray_size_datas [] = 0"
| "Amf0StrictArray_size_datas (v # datas) = Amf0_size v + Amf0StrictArray_size_datas datas"

section \<open>Property lookup and update\<close>

definition getProperty :: "byte \<Rightarrow> properties \<Rightarrow> string \<Rightarrow> amf0_data option" where
  "getProperty marker props key =
     (case map_of props key of
        None \<Rightarrow> None
      | Some v \<Rightarrow> if getType v \<noteq> marker then None else Some v)"

definition getProperty_Number :: "properties \<Rightarrow> string \<Rightarrow> u64 option" where
  "getProperty_Number props key =
     (case getProperty NUMBER_MARKER props key of Some (Amf0Number v) \<Rightarrow> Some v | _ \<Rightarrow> None)"

definition getProperty_String :: "properties \<Rightarrow> string \<Rightarrow> string option" where
  "getProperty_String props key =
     (case getProperty STRING_MARKER props key of Some (Amf0String v) \<Rightarrow> Some v | _ \<Rightarrow> None)"

definition getProperty_Boolean :: "properties \<Rightarrow> string \<Rightarrow> bool option" where
  "getProperty_Boolean props key =
     (case getProperty BOOLEAN_MARKER props key of Some (Amf0Boolean v) \<Rightarrow> Some v | _ \<Rightarrow> None)"

definition setItemValue :: "string \<Rightarrow> amf0_data \<Rightarrow> properties \<Rightarrow> properties" where
  "setItemValue k v props = AList.update k v props"

section \<open>Bounds of the decoders\<close>

lemmas amf0_scalar_decode_defs =
  Amf0Number_decode_def Amf0Boolean_decode_def Amf0String_decode_def Amf0Null_decode_def
  Amf0Undefined_decode_def Amf0Reference_decode_def Amf0Date_decode_def Amf0ObjEnd_decode_def

lemma amf0_scalar_decode_no_fault [simp]:
  "Amf0Number_decode data \<noteq> Fault" "Amf0Boolean_decode data \<noteq> Fault"
  "Amf0String_decode data \<noteq> Fault" "Amf0Null_decode data \<noteq> Fault"
  "Amf0Undefined_decode data \<noteq> Fault" "Amf0Reference_decode data \<noteq> Fault"
  "Amf0Date_decode data \<noteq> Fault" "Amf0ObjEnd_decode data \<noteq> Fault"
  by (auto simp: amf0_scalar_decode_defs obind_Fault_iff Let_def)

lemma as_value_Ok_iff: "as_value c m = Ok (v, n) \<longleftrightarrow> (\<exists>x. m = Ok (x, n) \<and> v = c x)"
  by (cases m) (auto simp: as_value_def)

lemma as_value_Fault_iff [simp]: "as_value c m = Fault \<longleftrightarrow> m = Fault"
  by (cases m) (auto simp: as_value_def)

lemma amf0_scalar_decode_consumed:
  "Amf0Number_decode data = Ok (v, n) \<Longrightarrow> 0 < n \<and> n \<le> length data"
  "Amf0Boolean_decode data = Ok (b, n) \<Longrightarrow> 0 < n \<and> n \<le> length data"
  "Amf0String_decode data = Ok (s, n) \<Longrightarrow> 0 < n \<and> n \<le> length data"
  "Amf0Null_decode data = Ok (u, n) \<Longrightarrow> 0 < n \<and> n \<le> length data"
  "Amf0Undefined_decode data = Ok (u, n) \<Longrightarrow> 0 < n \<and> n \<le> length data"
  "Amf0Reference_decode data = Ok (r, n) \<Longrightarrow> 0 < n \<and> n \<le> length data"
  "Amf0Date_decode data = Ok (d, n) \<Longrightarrow> 0 < n \<and> n \<le> length data"
  "Amf0ObjEnd_decode data = Ok n \<Longrightarrow> n = 3 \<and> 3 \<le> length data"
  by (auto simp: amf0_scalar_decode_defs obind_Ok_iff Let_def Suc_le_eq split: if_splits)

text \<open>One turn of the property loop, as an elimination rule.\<close>

lemma Amf0Object_loop_OkE:
  assumes "Amf0Object_loop props data pos = Ok r"
  obtains (stop) "data = []" "r = (props, pos)"
  | (obj_end) "Amf0ObjEnd_decode data = Ok 3" "3 \<le> length data" "r = (props, pos + 3)"
  | (more) key_len v consumed where
      "2 \<le> length data" "key_len = unbe (take 2 data)" "2 + key_len \<le> length data"
      "Amf0Object_value (drop (2 + key_len) data) = Ok (v, consumed)"
      "Amf0Object_loop (AList.update (str_of_bytes (take key_len (drop 2 data))) v props)
         (drop consumed (drop (2 + key_len) data)) (pos + 2 + key_len + consumed) = Ok r"
proof -
  note unf = Amf0Object_loop.simps [of props data pos]
  show thesis
  proof (cases "Amf0ObjEnd_decode data")
    case Fault
    then show thesis by simp
  next
    case (Ok n)
    with amf0_scalar_decode_consumed(8) [OF Ok] assms show thesis
      by (intro obj_end) (auto simp: unf split: if_splits)
  next
    case (Err e)
    show thesis
    proof (cases "data = []")
      case True
      with assms show thesis by (intro stop) (simp_all add: Amf0Object_loop.simps)
    next
      case False
      with Err assms obtain v consumed where
        "2 \<le> length data" "2 + unbe (take 2 data) \<le> length data"
        "Amf0Object_value (drop (2 + unbe (take 2 data)) data) = Ok (v, consumed)"
        "Amf0Object_loop (AList.update (str_of_bytes (take (unbe (take 2 data)) (drop 2 data))) v props)
           (drop consumed (drop (2 + unbe (take 2 data)) data))
           (pos + 2 + unbe (take 2 data) + consumed) = Ok r"
        by (auto simp: unf obind_Ok_iff Let_def not_less split: if_splits)
      then show thesis by (intro more [OF _ refl])
    qed
  qed
qed

lemma Amf0Object_decode_Ok_iff:
  "Amf0Object_decode props data = Ok r \<longleftrightarrow>
     data \<noteq> [] \<and> data ! 0 = OBJECT_MARKER \<and> Amf0Object_loop props (drop 1 data) 1 = Ok r"
  by (cases data) (auto simp: Amf0Object_decode.simps)

lemma Amf0Object_value_Ok_cases:
  assumes "Amf0Object_value d = Ok (v, n)"
  shows "(\<exists>x. Amf0Number_decode d = Ok (x, n) \<and> v = Amf0Number x)
       \<or> (\<exists>x. Amf0Boolean_decode d = Ok (x, n) \<and> v = Amf0Boolean x)
       \<or> (\<exists>x. Amf0String_decode d = Ok (x, n) \<and> v = Amf0String x)
       \<or> (\<exists>x. Amf0Object_decode [] d = Ok (x, n) \<and> v = Amf0Object x)
       \<or> (\<exists>x. Amf0Null_decode d = Ok (x, n) \<and> v = Amf0Null)
       \<or> (\<exists>x. Amf0Undefined_decode d = Ok (x, n) \<and> v = Amf0Undefined)"
  using assms
  by (auto simp: Amf0Object_value.simps obind_Ok_iff as_value_Ok_iff split: if_splits)

lemma Amf0Object_consumed:
  "(\<forall>props r. Amf0Object_decode props data = Ok r \<longrightarrow> 0 < snd r \<and> snd r \<le> length data)
   \<and> (\<forall>props pos r. Amf0Object_loop props data pos = Ok r \<longrightarrow>
        pos \<le> snd r \<and> snd r \<le> pos + length data)
   \<and> (\<forall>v n. Amf0Object_value data = Ok (v, n) \<longrightarrow> 0 < n \<and> n \<le> length data)"
proof (induction data rule: measure_induct_rule [of length])
  case (less data)
  have dec: "0 < snd r \<and> snd r \<le> length data" if "Amf0Object_decode props data = Ok r" for props r
  proof -
    from that have "data \<noteq> []" "Amf0Object_loop props (drop 1 data) 1 = Ok r"
      by (simp_all add: Amf0Object_decode_Ok_iff)
    moreover from this have "length (drop 1 data) < length data" by (cases data) simp_all
    ultimately have "1 \<le> snd r \<and> snd r \<le> 1 + length (drop 1 data)" using less by blast
    with \<open>data \<noteq> []\<close> show ?thesis by (cases data) simp_all
  qed
  have lp: "pos \<le> snd r \<and> snd r \<le> pos + length data"
    if "Amf0Object_loop props data pos = Ok r" for props pos r
    using that
  proof (cases rule: Amf0Object_loop_OkE)
    case (more key_len v consumed)
    let ?d = "drop (2 + key_len) data"
    from more(1) have sh: "length ?d < length data" by simp
    with more(1) have sh': "length (drop consumed ?d) < length data" by simp
    from less [OF sh] more(4) have "consumed \<le> length ?d" by blast
    moreover from less [OF sh'] more(5)
    have "pos + 2 + key_len + consumed \<le> snd r"
      "snd r \<le> pos + 2 + key_len + consumed + length (drop consumed ?d)" by blast+
    ultimately show ?thesis using more(3) by simp
  qed simp_all
  have "0 < n \<and> n \<le> length data" if "Amf0Object_value data = Ok (v, n)" for v n
    using Amf0Object_value_Ok_cases [OF that]
    by (elim disjE exE conjE) (auto dest!: amf0_scalar_decode_consumed dec)
  with dec lp show ?case by blast
qed

section \<open>The byte format the encoders implement\<close>

text \<open>
  The values an object on the wire can carry, and their AMF0 serialisation as a plain function.
\<close>

fun amf0_wf :: "amf0_data \<Rightarrow> bool" and amf0_wf_props :: "properties \<Rightarrow> bool" where
  "amf0_wf (Amf0Number _) = True"
| "amf0_wf (Amf0Boolean _) = True"
| "amf0_wf (Amf0String v) = (length v < 65536)"
| "amf0_wf (Amf0Object props) = amf0_wf_props props"
| "amf0_wf Amf0Null = True"
| "amf0_wf Amf0Undefined = True"
| "amf0_wf _ = False"
| "amf0_wf_props [] = True"
| "amf0_wf_props ((k, v) # props) =
     (length k < 65536 \<and> k \<notin> fst ` set props \<and> amf0_wf v \<and> amf0_wf_props props)"

fun amf0_bytes :: "amf0_data \<Rightarrow> bytes" and amf0_props_bytes :: "properties \<Rightarrow> bytes" where
  "amf0_bytes (Amf0Number v) = NUMBER_MARKER # be 8 (unat v)"
| "amf0_bytes (Amf0Boolean v) = [BOOLEAN_MARKER, if v then 1 else 0]"
| "amf0_bytes (Amf0String v) = STRING_MARKER # be 2 (length v) @ bytes_of_str v"
| "amf0_bytes (Amf0Object props) =
     OBJECT_MARKER # amf0_props_bytes props @ [0x00, 0x00, OBJECT_END_MARKER]"
| "amf0_bytes Amf0Null = [NULL_MARKER]"
| "amf0_bytes Amf0Undefined = [UNDEFINED_MARKER]"
| "amf0_bytes _ = []"
| "amf0_props_bytes [] = []"
| "amf0_props_bytes ((k, v) # props) =
     be 2 (length k) @ bytes_of_str k @ amf0_bytes v @ amf0_props_bytes props"

lemmas amf0_scalar_encode_defs =
  Amf0Number_encode_def Amf0Boolean_encode_def Amf0String_encode_def Amf0Null_encode_def
  Amf0Undefined_encode_def Amf0ObjEnd_encode_def

lemma length_amf0_bytes:
  "amf0_wf v \<Longrightarrow> length (amf0_bytes v) = Amf0_size v"
  "amf0_wf_props props \<Longrightarrow> length (amf0_props_bytes props) = Amf0Object_size_props props"
  by (induction v and props rule: amf0_bytes_amf0_props_bytes.induct) auto

lemma Amf0_encode_fits:
  "amf0_wf v \<Longrightarrow> Amf0_size v \<le> length buf \<Longrightarrow> Amf0_encode v buf = Ok (amf0_bytes v)"
  "amf0_wf_props props \<Longrightarrow> Amf0Object_size_props props \<le> length buf \<Longrightarrow>
     Amf0Object_encode_props props buf = Ok (amf0_props_bytes props)"
  by (induction v and props arbitrary: buf and buf rule: amf0_bytes_amf0_props_bytes.induct)
    (auto simp: amf0_scalar_encode_defs length_amf0_bytes Let_def)

lemma Amf0_encode_Ok:
  "amf0_wf v \<Longrightarrow> Amf0_encode v buf = Ok bs \<Longrightarrow> bs = amf0_bytes v \<and> Amf0_size v \<le> length buf"
  "amf0_wf_props props \<Longrightarrow> Amf0Object_encode_props props buf = Ok bs \<Longrightarrow>
     bs = amf0_props_bytes props \<and> Amf0Object_size_props props \<le> length buf"
  by (induction v and props arbitrary: buf bs and buf bs rule: amf0_bytes_amf0_props_bytes.induct)
    (fastforce simp: amf0_scalar_encode_defs length_amf0_bytes Let_def obind_Ok_iff Suc_le_eq
      split: if_splits)+

lemma amf0_bytes_marker:
  "amf0_wf v \<Longrightarrow> \<exists>tail. amf0_bytes v = getType v # tail \<and> getType v \<noteq> OBJECT_END_MARKER"
  by (cases v) auto

section \<open>Reading the format back\<close>

lemma rd8_Cons_0 [simp]: "rd8 (b # bs) 0 = Ok b"
  by simp

lemma amf0_scalar_decode_bytes:
  "Amf0Number_decode (amf0_bytes (Amf0Number v) @ rest) = Ok (v, 9)"
  "Amf0Boolean_decode (amf0_bytes (Amf0Boolean b) @ rest) = Ok (b, 2)"
  "length s < 65536 \<Longrightarrow> Amf0String_decode (amf0_bytes (Amf0String s) @ rest) = Ok (s, 3 + length s)"
  "Amf0Null_decode (amf0_bytes Amf0Null @ rest) = Ok ((), 1)"
  "Amf0Undefined_decode (amf0_bytes Amf0Undefined @ rest) = Ok ((), 1)"
  by (auto simp: amf0_scalar_decode_defs Let_def)

lemma Amf0ObjEnd_decode_end: "Amf0ObjEnd_decode (0 # 0 # OBJECT_END_MARKER # rest) = Ok 3"
  by (simp add: Amf0ObjEnd_decode_def)

lemma be2_not_end:
  assumes "n < 65536" "n = 0 \<Longrightarrow> length bs \<noteq> 0 \<and> bs ! 0 \<noteq> OBJECT_END_MARKER"
  shows "take 3 (be 2 n @ bs) \<noteq> [0, 0, OBJECT_END_MARKER]"
proof
  assume a: "take 3 (be 2 n @ bs) = [0, 0, OBJECT_END_MARKER]"
  have "take 2 (take 3 (be 2 n @ bs)) = be 2 n" by simp
  with a have "be 2 n = [0, 0]" by (simp del: take_take)
  then have "unbe (be 2 n) = 0" by (simp add: unbe_def)
  with assms(1) have n: "n = 0" by simp
  have "be 2 n @ bs = [0, 0] @ bs" using \<open>be 2 n = [0, 0]\<close> by simp
  with a assms(2) [OF n] show False by (cases bs) auto
qed

lemma Amf0ObjEnd_decode_key:
  assumes "n < 65536" "n = 0 \<Longrightarrow> length bs \<noteq> 0 \<and> bs ! 0 \<noteq> OBJECT_END_MARKER"
  shows "\<exists>e. Amf0ObjEnd_decode (be 2 n @ bs) = Err e"
  using be2_not_end [OF assms] by (auto simp: Amf0ObjEnd_decode_def rdn_def Suc_le_eq)

lemma AList_update_new: "k \<notin> fst ` set props \<Longrightarrow> AList.update k v props = props @ [(k, v)]"
  by (induction props) auto

lemma Amf0Object_loop_property:
  assumes "length k < 65536" "amf0_wf v"
    and "Amf0Object_value (amf0_bytes v @ rest) = Ok (v, Amf0_size v)"
  shows "Amf0Object_loop props (be 2 (length k) @ bytes_of_str k @ amf0_bytes v @ rest) pos =
    Amf0Object_loop (AList.update k v props) rest (pos + 2 + length k + Amf0_size v)"
proof -
  let ?data = "be 2 (length k) @ bytes_of_str k @ amf0_bytes v @ rest"
  obtain tail where tl: "amf0_bytes v = getType v # tail" "getType v \<noteq> OBJECT_END_MARKER"
    using amf0_bytes_marker [OF assms(2)] by blast
  obtain e where e: "Amf0ObjEnd_decode ?data = Err e"
    using Amf0ObjEnd_decode_key [OF assms(1), of "bytes_of_str k @ amf0_bytes v @ rest"] tl
    by (auto simp: bytes_of_str_def)
  have "unbe (take 2 ?data) = length k" using assms(1) by simp
  then show ?thesis
    using e assms length_amf0_bytes(1) [OF assms(2)]
    by (simp add: Amf0Object_loop.simps [of props ?data] Let_def)
qed

lemma Amf0Object_bytes:
  "amf0_wf v \<Longrightarrow> Amf0Object_value (amf0_bytes v @ rest1) = Ok (v, Amf0_size v)"
  "amf0_wf_props props \<Longrightarrow> fst ` set acc \<inter> fst ` set props = {} \<Longrightarrow>
     Amf0Object_loop acc (amf0_props_bytes props @ [0, 0, OBJECT_END_MARKER] @ rest2) pos
       = Ok (acc @ props, pos + Amf0Object_size_props props + 3)"
proof (induction v and props arbitrary: rest1 and acc rest2 pos
    rule: amf0_bytes_amf0_props_bytes.induct)
  case (4 props)
  then show ?case
    by (simp add: Amf0Object_value.simps Amf0Object_decode.simps as_value_def)
next
  case (9 k v props)
  then have ih: "Amf0Object_value (amf0_bytes v @ r) = Ok (v, Amf0_size v)" for r by simp
  have "fst ` set (acc @ [(k, v)]) \<inter> fst ` set props = {}" using 9 by auto
  with 9 have "Amf0Object_loop (acc @ [(k, v)])
      (amf0_props_bytes props @ [0, 0, OBJECT_END_MARKER] @ rest2) (pos + 2 + length k + Amf0_size v)
      = Ok ((acc @ [(k, v)]) @ props, pos + 2 + length k + Amf0_size v + Amf0Object_size_props props + 3)"
    by simp
  moreover have "AList.update k v acc = acc @ [(k, v)]"
    using 9 by (intro AList_update_new) auto
  ultimately show ?case
    using 9 Amf0Object_loop_property [of k v, OF _ _ ih, of acc] by simp
next
  case 8
  then show ?case by (simp add: Amf0Object_loop.simps Amf0ObjEnd_decode_end)
qed (auto simp: Amf0Object_value.simps as_value_def amf0_scalar_decode_bytes [simplified])

lemma Amf0Object_decode_bytes:
  "amf0_wf_props props \<Longrightarrow>
     Amf0Object_decode [] (amf0_bytes (Amf0Object props) @ rest) = Ok (props, Amf0_size (Amf0Object props))"
  using Amf0Object_bytes(2) [of props "[]" rest 1]
  by (simp add: Amf0Object_decode.simps)

section \<open>ECMA arrays: bounds and the format they read\<close>

lemma Amf0EcmaArray_value_no_fault [simp]: "Amf0EcmaArray_value marker d \<noteq> Fault"
  by (simp add: Amf0EcmaArray_value_def)

lemma Amf0EcmaArray_value_consumed:
  "Amf0EcmaArray_value marker d = Ok (v, n) \<Longrightarrow> 0 < n \<and> n \<le> length d"
  by (auto simp: Amf0EcmaArray_value_def as_value_Ok_iff split: if_splits
      dest: amf0_scalar_decode_consumed)

lemma Amf0EcmaArray_loop_no_fault [simp]: "Amf0EcmaArray_loop count props data pos \<noteq> Fault"
  by (induction count props data pos rule: Amf0EcmaArray_loop.induct)
    (auto simp: obind_Fault_iff Let_def)

lemma Amf0EcmaArray_loop_consumed:
  "Amf0EcmaArray_loop count props data pos = Ok (props', rest, pos') \<Longrightarrow>
     pos \<le> pos' \<and> pos' - pos \<le> length data \<and> rest = drop (pos' - pos) data"
proof (induction count props data pos rule: Amf0EcmaArray_loop.induct)
  case (1 props data pos)
  then show ?case by simp
next
  case (2 count props data pos)
  define kl where "kl = unbe (take 2 data)"
  define d where "d = drop (2 + kl) data"
  from "2.prems" obtain v n where len: "2 \<le> length data" "kl \<le> length data - 2" "d \<noteq> []"
    and val: "Amf0EcmaArray_value (d ! 0) d = Ok (v, n)"
    and lp: "Amf0EcmaArray_loop count (AList.update (str_of_bytes (take kl (drop 2 data))) v props)
        (drop n d) (pos + 2 + kl + n) = Ok (props', rest, pos')"
    by (auto simp: obind_Ok_iff Let_def kl_def d_def not_less split: if_splits)
  have n: "n \<le> length d" using Amf0EcmaArray_value_consumed [OF val] by simp
  have ih: "pos + 2 + kl + n \<le> pos' \<and> pos' - (pos + 2 + kl + n) \<le> length (drop n d)
      \<and> rest = drop (pos' - (pos + 2 + kl + n)) (drop n d)"
    using "2.IH" [of "take 2 data" kl "take kl (drop 2 data)" _ d "d ! 0" "(v, n)"] len lp val
    by (simp add: kl_def d_def)
  then have "rest = drop ((pos' - (pos + 2 + kl + n)) + n + (2 + kl)) data"
    by (simp add: d_def)
  moreover have "(pos' - (pos + 2 + kl + n)) + n + (2 + kl) = pos' - pos"
    using ih by linarith
  ultimately show ?case using ih n len by (simp add: d_def) linarith
qed

lemma Amf0EcmaArray_decode_no_fault [simp]: "Amf0EcmaArray_decode props data \<noteq> Fault"
  by (auto simp: Amf0EcmaArray_decode_def obind_Fault_iff Let_def)

text \<open>The scalar values an ECMA array is read with.\<close>

fun ecma_scalar :: "amf0_data \<Rightarrow> bool" where
  "ecma_scalar (Amf0Number _) = True"
| "ecma_scalar (Amf0Boolean _) = True"
| "ecma_scalar (Amf0String _) = True"
| "ecma_scalar Amf0Null = True"
| "ecma_scalar Amf0Undefined = True"
| "ecma_scalar _ = False"

definition ecma_wf :: "properties \<Rightarrow> bool" where
  "ecma_wf props \<longleftrightarrow> amf0_wf_props props \<and> list_all (ecma_scalar \<circ> snd) props \<and> length props < 2 ^ 31"

definition ecma_bytes :: "properties \<Rightarrow> bytes" where
  "ecma_bytes props =
     ECMA_ARRAY_MARKER # be 4 (length props) @ amf0_props_bytes props @ [0x00, 0x00, OBJECT_END_MARKER]"

lemma Amf0EcmaArray_value_bytes:
  "amf0_wf v \<Longrightarrow> ecma_scalar v \<Longrightarrow>
     Amf0EcmaArray_value (getType v) (amf0_bytes v @ rest) = Ok (v, Amf0_size v)"
  by (cases v)
    (auto simp: Amf0EcmaArray_value_def as_value_def amf0_scalar_decode_bytes [simplified])

lemma Amf0EcmaArray_loop_bytes:
  "amf0_wf_props props \<Longrightarrow> list_all (ecma_scalar \<circ> snd) props \<Longrightarrow>
     fst ` set acc \<inter> fst ` set props = {} \<Longrightarrow>
     Amf0EcmaArray_loop (length props) acc (amf0_props_bytes props @ rest) pos
       = Ok (acc @ props, rest, pos + Amf0Object_size_props props)"
proof (induction props arbitrary: acc pos)
  case Nil
  then show ?case by simp
next
  case (Cons p props)
  obtain k v where p: "p = (k, v)" by (cases p)
  obtain tail where tl: "amf0_bytes v = getType v # tail"
    using amf0_bytes_marker Cons.prems p by force
  have "AList.update k v acc = acc @ [(k, v)]"
    using Cons.prems p by (intro AList_update_new) auto
  moreover have "fst ` set (acc @ [(k, v)]) \<inter> fst ` set props = {}"
    using Cons.prems p by auto
  moreover have "Amf0EcmaArray_value (getType v) (amf0_bytes v @ r) = Ok (v, Amf0_size v)" for r
    using Cons.prems p by (intro Amf0EcmaArray_value_bytes) simp_all
  moreover have "length (amf0_bytes v) = Amf0_size v"
    using Cons.prems p by (intro length_amf0_bytes) simp
  moreover have "rd8 (amf0_bytes v @ r) 0 = Ok (getType v)" "amf0_bytes v \<noteq> []" for r
    using tl by simp_all
  ultimately show ?case
    using Cons.prems Cons.IH [of "acc @ [(k, v)]"] p by (simp add: Let_def)
qed

lemma ecma_count: "n < 2 ^ 31 \<Longrightarrow> nat (sint (of_nat (unbe (be 4 n)) :: u32)) = n"
proof -
  assume n: "n < 2 ^ 31"
  then have "unbe (be 4 n) = n" by simp
  moreover have "sint (of_nat n :: u32) = int n"
    using n by (simp add: sint_uint uint_nat unat_of_nat take_bit_eq_mod signed_take_bit_int_eq_self)
  ultimately show ?thesis by simp
qed

lemma Amf0EcmaArray_decode_bytes:
  assumes "ecma_wf props"
  shows "Amf0EcmaArray_decode [] (ecma_bytes props @ rest)
    = Ok (props, length (ecma_bytes props))"
proof -
  have w: "amf0_wf_props props" "list_all (ecma_scalar \<circ> snd) props" "length props < 2 ^ 31"
    using assms by (simp_all add: ecma_wf_def)
  then show ?thesis
    using Amf0EcmaArray_loop_bytes [OF w(1,2), of "[]" "[0, 0, OBJECT_END_MARKER] @ rest" 5]
      ecma_count [OF w(3)] length_amf0_bytes(2) [OF w(1)]
    by (simp add: Amf0EcmaArray_decode_def ecma_bytes_def Amf0ObjEnd_decode_end)
qed

section \<open>Truncated objects\<close>

lemma Amf0Object_decode_truncated:
  assumes "length key < 65536"
  shows "Amf0Object_decode props (OBJECT_MARKER # be 2 (length key) @ bytes_of_str key) = Fault"
proof -
  let ?data = "be 2 (length key) @ bytes_of_str key"
  have "\<exists>e. Amf0ObjEnd_decode ?data = Err e"
  proof (cases "key = []")
    case True
    then show ?thesis by (simp add: Amf0ObjEnd_decode_def bytes_of_str_def)
  next
    case False
    then show ?thesis using Amf0ObjEnd_decode_key [OF assms, of "bytes_of_str key"] by simp
  qed
  then have "Amf0Object_loop props ?data 1 = Fault"
    using assms
    by (auto simp: Amf0Object_loop.simps [of props ?data] Let_def Amf0Object_value.simps [of "[]"]
        obind_Fault_iff rd8_def)
  then show ?thesis by (simp add: Amf0Object_decode.simps)
qed

section \<open>The contracts the message layer relies on\<close>

interpretation amf0: wire_codec Amf0_encode Amf0Object_value Amf0_size amf0_wf
proof unfold_locales
  fix v and buf :: bytes
  assume "amf0_wf v" "Amf0_size v \<le> length buf"
  then show "\<exists>bs. Amf0_encode v buf = Ok bs \<and> length bs = Amf0_size v"
    by (simp add: Amf0_encode_fits length_amf0_bytes)
next
  fix v buf bs rest
  assume w: "amf0_wf v" and e: "Amf0_encode v buf = Ok bs"
  have "bs = amf0_bytes v" using Amf0_encode_Ok(1) [OF w e] by simp
  then show "Amf0Object_value (bs @ rest) = Ok (v, length bs)"
    using w by (simp add: Amf0Object_bytes length_amf0_bytes)
qed

interpretation amf0_number: checked_codec Amf0Number_encode Amf0Number_decode "\<lambda>_. 9" "\<lambda>_. True"
  by unfold_locales
    (auto simp: Amf0Number_encode_def amf0_scalar_decode_bytes [simplified] split: if_splits)

interpretation amf0_boolean: checked_codec Amf0Boolean_encode Amf0Boolean_decode "\<lambda>_. 2" "\<lambda>_. True"
  by unfold_locales
    (auto simp: Amf0Boolean_encode_def Amf0Boolean_decode_def split: if_splits)

interpretation amf0_string: checked_codec Amf0String_encode Amf0String_decode
  "\<lambda>s. 3 + length s" "\<lambda>s. length s < 65536"
  by unfold_locales
    (auto simp: Amf0String_encode_def amf0_scalar_decode_bytes [simplified] split: if_splits)

interpretation amf0_null: checked_codec Amf0Null_encode Amf0Null_decode "\<lambda>_. 1" "\<lambda>_. True"
  by unfold_locales
    (auto simp: Amf0Null_encode_def amf0_scalar_decode_bytes [simplified] Suc_le_eq split: if_splits)

interpretation amf0_undefined: checked_codec Amf0Undefined_encode Amf0Undefined_decode
  "\<lambda>_. 1" "\<lambda>_. True"
  by unfold_locales
    (auto simp: Amf0Undefined_encode_def amf0_scalar_decode_bytes [simplified] Suc_le_eq split: if_splits)

interpretation amf0_object: wire_codec "\<lambda>props. Amf0_encode (Amf0Object props)"
  "Amf0Object_decode []" "\<lambda>props. Amf0_size (Amf0Object props)" amf0_wf_props
proof unfold_locales
  fix props and buf :: bytes
  assume "amf0_wf_props props" "Amf0_size (Amf0Object props) \<le> length buf"
  then show "\<exists>bs. Amf0_encode (Amf0Object props) buf = Ok bs \<and> length bs = Amf0_size (Amf0Object props)"
    using amf0.enc_fits [of "Amf0Object props" buf] by simp
next
  fix props buf bs rest
  assume w: "amf0_wf_props props" and e: "Amf0_encode (Amf0Object props) buf = Ok bs"
  from w have wo: "amf0_wf (Amf0Object props)" by simp
  have "bs = amf0_bytes (Amf0Object props)" using Amf0_encode_Ok(1) [OF wo e] by simp
  then show "Amf0Object_decode [] (bs @ rest) = Ok (props, length bs)"
    using Amf0Object_decode_bytes [OF w, of rest] length_amf0_bytes(1) [OF wo] by simp
qed

section \<open>Properties\<close>

text \<open>Claim C7: Every AMF0 value an object on the wire can carry (numbers, booleans, strings below
  64 KiB, null, undefined and nested objects with distinct names) is encoded into exactly the
  number of bytes its size() announces whenever the buffer has that much room, and the decoder reads
  the same value back, consuming exactly those bytes, whatever follows them.\<close>

theorem amf0_value_round_trip:
  assumes "amf0_wf v" and "Amf0_size v \<le> length buf"
  shows "\<exists>bs. Amf0_encode v buf = Ok bs \<and> length bs = Amf0_size v
    \<and> (\<forall>rest. Amf0Object_value (bs @ rest) = Ok (v, Amf0_size v))"
  by (rule amf0.round_trip [OF assms])

theorem amf0_value_round_trip_witness:
  "\<exists>bs. Amf0_encode (Amf0Object [(''app'', Amf0String ''live''), (''n'', Amf0Object [(''x'', Amf0Null)])])
      (replicate 40 0) = Ok bs \<and> length bs = 27
    \<and> (\<forall>rest. Amf0Object_value (bs @ rest)
        = Ok (Amf0Object [(''app'', Amf0String ''live''), (''n'', Amf0Object [(''x'', Amf0Null)])], 27))"
  using amf0_value_round_trip [of "Amf0Object [(''app'', Amf0String ''live''),
    (''n'', Amf0Object [(''x'', Amf0Null)])]" "replicate 40 0"]
  by simp

text \<open>Claim C32: The decoders of objects, of their property loop and of property values never report
  more bytes consumed than the buffer holds, so the caller's \<open>len -= consumed\<close> cannot wrap.\<close>

theorem amf0_object_decode_bounded:
  "(\<forall>r. Amf0Object_decode props data = Ok r \<longrightarrow> 0 < snd r \<and> snd r \<le> length data)
   \<and> (\<forall>r. Amf0Object_loop props data pos = Ok r \<longrightarrow> pos \<le> snd r \<and> snd r \<le> pos + length data)
   \<and> (\<forall>v n. Amf0Object_value data = Ok (v, n) \<longrightarrow> 0 < n \<and> n \<le> length data)"
  using Amf0Object_consumed [of data] by blast

theorem amf0_object_decode_bounded_witness:
  "Amf0Object_decode [] [3, 0, 1, 97, 5, 0, 0, 9, 77] = Ok ([(''a'', Amf0Null)], 8)
   \<and> (8 :: nat) \<le> length [3, 0, 1, 97, 5, 0, 0, 9, 77 :: byte]"
proof -
  have e: "Amf0Object_decode [] [3, 0, 1, 97, 5, 0, 0, 9, 77] = Ok ([(''a'', Amf0Null)], 8)"
    by code_simp
  from amf0_object_decode_bounded [of "[]" "[3, 0, 1, 97, 5, 0, 0, 9, 77]" 0] e
  show ?thesis by fastforce
qed

text \<open>The decoders of the scalar classes and of ECMA arrays never touch memory outside
  the buffer they are given, whatever its bytes and however short it is.\<close>

theorem amf0_scalar_and_ecma_decode_memory_safe:
  "Amf0Number_decode data \<noteq> Fault \<and> Amf0Boolean_decode data \<noteq> Fault \<and> Amf0String_decode data \<noteq> Fault
   \<and> Amf0Null_decode data \<noteq> Fault \<and> Amf0Undefined_decode data \<noteq> Fault
   \<and> Amf0Reference_decode data \<noteq> Fault \<and> Amf0Date_decode data \<noteq> Fault
   \<and> Amf0EcmaArray_decode props data \<noteq> Fault"
  by simp

text \<open>An ECMA array of scalars with distinct names (the shape of the onMetaData payload),
  announced with its exact count and closed by an object end, is decoded to exactly those
  properties and consumed entirely, whatever follows it.\<close>

theorem amf0_ecma_array_decode_exact:
  assumes "ecma_wf props"
  shows "Amf0EcmaArray_decode [] (ecma_bytes props @ rest) = Ok (props, length (ecma_bytes props))"
  using assms by (rule Amf0EcmaArray_decode_bytes)

theorem amf0_ecma_array_decode_exact_witness:
  "Amf0EcmaArray_decode [] (ecma_bytes [(''width'', Amf0Number 0x4094000000000000)] @ [1, 2])
     = Ok ([(''width'', Amf0Number 0x4094000000000000)], 24)"
  using amf0_ecma_array_decode_exact [of "[(''width'', Amf0Number 0x4094000000000000)]" "[1, 2]"]
  by (simp add: ecma_wf_def ecma_bytes_def)

text \<open>An object payload that ends right after a property name makes the object decoder
  read one byte past the end of the buffer: the marker of the missing value is fetched before
  the remaining length is tested.\<close>

theorem amf0_object_decode_overread:
  assumes "length key < 65536"
  shows "Amf0Object_decode props (OBJECT_MARKER # be 2 (length key) @ bytes_of_str key) = Fault"
  using assms by (rule Amf0Object_decode_truncated)

theorem amf0_object_decode_overread_witness: "Amf0Object_decode [] [3, 0, 1, 97] = Fault"
  using amf0_object_decode_overread [of "''a''" "[]"] by (simp add: wire_simps bytes_of_str_def)

text \<open>The object encoder copies a property name without testing the room that is left:
  with room for the marker and the name's length field but not for the name it writes past the
  end of the buffer.\<close>

theorem amf0_object_encode_overflow:
  assumes "3 \<le> length buf" and "length buf < 3 + length key"
  shows "Amf0_encode (Amf0Object ((key, v) # props)) buf = Fault"
proof -
  have "2 \<le> length (drop 1 buf)" "length (drop 1 buf) - 2 < length key"
    using assms by simp_all
  then have "Amf0Object_encode_props ((key, v) # props) (drop 1 buf) = Fault"
    by simp
  moreover have "buf \<noteq> []" using assms(1) by auto
  ultimately show ?thesis by simp
qed

theorem amf0_object_encode_overflow_witness:
  "Amf0_encode (Amf0Object [(''code'', Amf0Null)]) (replicate 4 0) = Fault"
  using amf0_object_encode_overflow [of "replicate 4 0" "''code''" Amf0Null "[]"] by simp

text \<open>A strict array holding one number, as the AMF0 format writes it, is always rejected
  with code -5: the decoder consumes the element's marker and then asks the element's own decoder
  to find it again.\<close>

theorem amf0_strict_array_of_number_rejected:
  "Amf0StrictArray_decode [] (STRICT_ARRAY_MARKER # be 4 1 @ amf0_bytes (Amf0Number v)) = Err (-5)"
proof -
  have "\<exists>e. Amf0Number_decode (be 8 (unat v)) = Err e"
    by (auto simp: Amf0Number_decode_def rd8_def)
  then obtain e where "Amf0Number_decode (be 8 (unat v)) = Err e" ..
  then show ?thesis
    by (simp add: Amf0StrictArray_decode_def Let_def as_value_def
        Amf0StrictArray_loop.simps [of 1 "[]" "0 # be 8 (unat v)"])
qed

end
