(* ===== verification/Rtmp_Define.thy ===== *)
theory Rtmp_Define
  imports Mms_Prelude
begin

text \<open>
  The RTMP data types of \<open>src/server/rtmp/rtmp_protocol/rtmp_define.hpp\<close> (\<open>RtmpMessage\<close>,
  \<open>ChunkMessageHeader\<close>, \<open>RtmpChunk\<close>) and the fixed-layout control messages of
  \<open>src/server/rtmp/rtmp_message\<close>: set chunk size, abort, window acknowledgement size, set peer
  bandwidth, stream begin.  The locale \<open>control_message\<close> is the contract of such a message: it
  travels on chunk stream 2 and message stream 0, and its decoder inverts its encoder.

  \<open>int32_t\<close> fields are \<open>u32\<close> words read with \<open>sint\<close>.  \<open>payload_\<close> together with \<open>payload_size_\<close> is the
  list of the bytes filled so far, \<open>msg_room\<close> the size of the allocation behind it.
\<close>

section \<open>Messages and chunks\<close>

record rtmp_message =
  msg_room :: nat
  msg_payload :: bytes
  msg_csid :: byte
  msg_timestamp :: u32
  msg_type :: byte
  msg_stream_id :: u32

record chunk_message_header =
  hdr_timestamp :: u32
  hdr_length :: u32
  hdr_type :: byte
  hdr_stream_id :: u32

record rtmp_chunk =
  chunk_payload_size :: nat
  chunk_hdr :: chunk_message_header
  chunk_msg :: "rtmp_message option"

text \<open>A new message has an allocation and no bytes; its other fields are written before they
  are read.\<close>

definition RtmpMessage_new :: "nat \<Rightarrow> rtmp_message" where
  "RtmpMessage_new n = \<lparr>msg_room = n, msg_payload = [], msg_csid = 0, msg_timestamp = 0, msg_type = 0,
     msg_stream_id = 0\<rparr>"

definition zero_hdr :: chunk_message_header where
  "zero_hdr = \<lparr>hdr_timestamp = 0, hdr_length = 0, hdr_type = 0, hdr_stream_id = 0\<rparr>"

definition RtmpChunk_new :: rtmp_chunk where
  "RtmpChunk_new = \<lparr>chunk_payload_size = 0, chunk_hdr = zero_hdr, chunk_msg = None\<rparr>"

text \<open>\<^verbatim>\<open>*this = c\<close> moves the message out of \<open>c\<close>: the pair is the new \<open>*this\<close> and the new \<open>c\<close>.\<close>

definition RtmpChunk_assign :: "rtmp_chunk \<Rightarrow> rtmp_chunk \<Rightarrow> rtmp_chunk \<times> rtmp_chunk" where
  "RtmpChunk_assign this c =
     (this\<lparr>chunk_hdr := chunk_hdr c, chunk_msg := chunk_msg c\<rparr>, c\<lparr>chunk_msg := None\<rparr>)"

definition RtmpChunk_clear :: "rtmp_chunk \<Rightarrow> rtmp_chunk" where
  "RtmpChunk_clear c = c\<lparr>chunk_hdr := zero_hdr, chunk_msg := None\<rparr>"

section \<open>Constants\<close>

abbreviation (input) RTMP_FMT_TYPE0 :: nat where "RTMP_FMT_TYPE0 \<equiv> 0"
abbreviation (input) RTMP_FMT_TYPE1 :: nat where "RTMP_FMT_TYPE1 \<equiv> 1"
abbreviation (input) RTMP_FMT_TYPE2 :: nat where "RTMP_FMT_TYPE2 \<equiv> 2"
abbreviation (input) RTMP_FMT_TYPE3 :: nat where "RTMP_FMT_TYPE3 \<equiv> 3"

abbreviation (input) RTMP_CHUNK_ID_PROTOCOL_CONTROL_MESSAGE :: byte
  where "RTMP_CHUNK_ID_PROTOCOL_CONTROL_MESSAGE \<equiv> 2"
abbreviation (input) RTMP_MESSAGE_ID_PROTOCOL_CONTROL :: u32
  where "RTMP_MESSAGE_ID_PROTOCOL_CONTROL \<equiv> 0"

abbreviation (input) RTMP_MESSAGE_TYPE_SET_CHUNK_SIZE :: byte
  where "RTMP_MESSAGE_TYPE_SET_CHUNK_SIZE \<equiv> 1"
abbreviation (input) RTMP_MESSAGE_TYPE_ABORT_MESSAGE :: byte
  where "RTMP_MESSAGE_TYPE_ABORT_MESSAGE \<equiv> 2"
abbreviation (input) RTMP_MESSAGE_TYPE_ACKNOWLEDGEMENT :: byte
  where "RTMP_MESSAGE_TYPE_ACKNOWLEDGEMENT \<equiv> 3"
abbreviation (input) RTMP_MESSAGE_TYPE_USER_CONTROL :: byte
  where "RTMP_MESSAGE_TYPE_USER_CONTROL \<equiv> 4"
abbreviation (input) RTMP_MESSAGE_TYPE_WINDOW_ACK_SIZE :: byte
  where "RTMP_MESSAGE_TYPE_WINDOW_ACK_SIZE \<equiv> 5"
abbreviation (input) RTMP_MESSAGE_TYPE_SET_PEER_BANDWIDTH :: byte
  where "RTMP_MESSAGE_TYPE_SET_PEER_BANDWIDTH \<equiv> 6"
abbreviation (input) RTMP_MESSAGE_TYPE_AUDIO :: byte where "RTMP_MESSAGE_TYPE_AUDIO \<equiv> 8"
abbreviation (input) RTMP_MESSAGE_TYPE_VIDEO :: byte where "RTMP_MESSAGE_TYPE_VIDEO \<equiv> 9"
abbreviation (input) RTMP_MESSAGE_TYPE_AMF3_COMMAND :: byte
  where "RTMP_MESSAGE_TYPE_AMF3_COMMAND \<equiv> 17"
abbreviation (input) RTMP_MESSAGE_TYPE_AMF0_DATA :: byte where "RTMP_MESSAGE_TYPE_AMF0_DATA \<equiv> 18"
abbreviation (input) RTMP_MESSAGE_TYPE_AMF0_COMMAND :: byte
  where "RTMP_MESSAGE_TYPE_AMF0_COMMAND \<equiv> 20"

abbreviation (input) RTMP_USER_EVENT_STREAM_BEGIN :: u16 where "RTMP_USER_EVENT_STREAM_BEGIN \<equiv> 0"

section \<open>Control messages\<close>

text \<open>The header every message built by the server carries.\<close>

definition server_message :: "byte \<Rightarrow> bytes \<Rightarrow> rtmp_message" where
  "server_message ty p = \<lparr>msg_room = length p, msg_payload = p,
     msg_csid = RTMP_CHUNK_ID_PROTOCOL_CONTROL_MESSAGE, msg_timestamp = 0, msg_type = ty,
     msg_stream_id = RTMP_MESSAGE_ID_PROTOCOL_CONTROL\<rparr>"

definition RtmpSetChunkSizeMessage_decode :: "rtmp_message \<Rightarrow> (u32 \<times> nat) outcome" where
  "RtmpSetChunkSizeMessage_decode m =
     (if length (msg_payload m) < 4 then Err (-1)
      else obind (rdn (msg_payload m) 0 4) (\<lambda>d. Ok (of_nat (unbe d), 4)))"

definition RtmpSetChunkSizeMessage_encode :: "u32 \<Rightarrow> rtmp_message" where
  "RtmpSetChunkSizeMessage_encode chunk_size =
     server_message RTMP_MESSAGE_TYPE_SET_CHUNK_SIZE (be 4 (unat chunk_size))"

definition RtmpAbortMessage_decode :: "rtmp_message \<Rightarrow> (u32 \<times> nat) outcome" where
  "RtmpAbortMessage_decode m =
     (if length (msg_payload m) < 4 then Err (-1)
      else obind (rdn (msg_payload m) 0 4) (\<lambda>d. Ok (of_nat (unbe d), 4)))"

definition RtmpAbortMessage_encode :: "u32 \<Rightarrow> rtmp_message" where
  "RtmpAbortMessage_encode chunk_id =
     server_message RTMP_MESSAGE_TYPE_ABORT_MESSAGE (be 4 (unat chunk_id))"

definition RtmpWindowAckSizeMessage_decode :: "rtmp_message \<Rightarrow> (u32 \<times> nat) outcome" where
  "RtmpWindowAckSizeMessage_decode m =
     (if length (msg_payload m) < 4 then Err (-1)
      else obind (rdn (msg_payload m) 0 4) (\<lambda>d. Ok (of_nat (unbe d), 4)))"

definition RtmpWindowAckSizeMessage_encode :: "u32 \<Rightarrow> rtmp_message" where
  "RtmpWindowAckSizeMessage_encode ack_window_size =
     server_message RTMP_MESSAGE_TYPE_WINDOW_ACK_SIZE (be 4 (unat ack_window_size))"

definition RtmpSetPeerBandwidthMessage_decode :: "rtmp_message \<Rightarrow> ((u32 \<times> byte) \<times> nat) outcome" where
  "RtmpSetPeerBandwidthMessage_decode m =
     (if length (msg_payload m) < 5 then Err (-1)
      else obind (rdn (msg_payload m) 0 4) (\<lambda>d.
        obind (rd8 (msg_payload m) 4) (\<lambda>limit_type. Ok ((of_nat (unbe d), limit_type), 5))))"

definition RtmpSetPeerBandwidthMessage_encode :: "u32 \<times> byte \<Rightarrow> rtmp_message" where
  "RtmpSetPeerBandwidthMessage_encode = (\<lambda>(ack_window_size, limit_type).
     server_message RTMP_MESSAGE_TYPE_SET_PEER_BANDWIDTH
       (be 4 (unat ack_window_size) @ [limit_type]))"

definition RtmpStreamBeginMessage_encode :: "u32 \<Rightarrow> rtmp_message" where
  "RtmpStreamBeginMessage_encode stream_id =
     server_message RTMP_MESSAGE_TYPE_USER_CONTROL
       (be 2 (unat RTMP_USER_EVENT_STREAM_BEGIN) @ be 4 (unat stream_id))"

section \<open>The contract of a control message\<close>

locale control_message =
  fixes enc :: "'v \<Rightarrow> rtmp_message"
    and dec :: "rtmp_message \<Rightarrow> ('v \<times> nat) outcome"
    and n :: nat
  assumes enc_control: "enc v = server_message (msg_type (enc v)) (msg_payload (enc v))"
    and length_enc: "length (msg_payload (enc v)) = n"
    and dec_payload: "take n (msg_payload m) = msg_payload (enc v) \<Longrightarrow> dec m = Ok (v, n)"
    and dec_short: "length (msg_payload m) < n \<Longrightarrow> dec m = Err (-1)"
    and n_pos: "0 < n"
begin

lemma enc_header:
  "msg_csid (enc v) = RTMP_CHUNK_ID_PROTOCOL_CONTROL_MESSAGE" "msg_timestamp (enc v) = 0"
  "msg_room (enc v) = n"
  by (subst enc_control, simp add: server_message_def length_enc)+

lemma dec_enc: "dec (enc v) = Ok (v, n)"
  by (rule dec_payload) (simp add: length_enc)

lemma enc_inj: "enc v = enc w \<longleftrightarrow> v = w"
proof
  assume "enc v = enc w"
  then have "dec (enc v) = dec (enc w)" by (rule arg_cong)
  then show "v = w" unfolding dec_enc by simp
qed simp

end

text \<open>Three of them carry one 32-bit field.\<close>

lemma take_eq_imp_le: "take n xs = ys \<Longrightarrow> length ys = n \<Longrightarrow> n \<le> length xs"
  by auto

lemma u32_control_message:
  assumes enc: "\<And>v. enc v = server_message ty (be 4 (unat v))"
    and dec: "\<And>m. dec m = (if length (msg_payload m) < 4 then Err (-1)
        else obind (rdn (msg_payload m) 0 4) (\<lambda>d. Ok (of_nat (unbe d) :: u32, 4)))"
  shows "control_message enc dec 4"
proof
  fix m :: rtmp_message and v
  assume "take 4 (msg_payload m) = msg_payload (enc v)"
  then have a: "take 4 (msg_payload m) = be 4 (unat v)" by (simp add: enc server_message_def)
  moreover from a have "4 \<le> length (msg_payload m)" by (rule take_eq_imp_le) simp
  ultimately show "dec m = Ok (v, 4)" by (simp add: dec)
qed (auto simp: enc dec server_message_def)

interpretation set_chunk_size: control_message RtmpSetChunkSizeMessage_encode
  RtmpSetChunkSizeMessage_decode 4
  by (rule u32_control_message)
    (simp_all add: RtmpSetChunkSizeMessage_encode_def RtmpSetChunkSizeMessage_decode_def)

interpretation abort_message: control_message RtmpAbortMessage_encode RtmpAbortMessage_decode 4
  by (rule u32_control_message)
    (simp_all add: RtmpAbortMessage_encode_def RtmpAbortMessage_decode_def)

interpretation window_ack_size: control_message RtmpWindowAckSizeMessage_encode
  RtmpWindowAckSizeMessage_decode 4
  by (rule u32_control_message)
    (simp_all add: RtmpWindowAckSizeMessage_encode_def RtmpWindowAckSizeMessage_decode_def)

interpretation set_peer_bandwidth: control_message RtmpSetPeerBandwidthMessage_encode
  RtmpSetPeerBandwidthMessage_decode 5
proof
  fix m :: rtmp_message and v
  assume a: "take 5 (msg_payload m) = msg_payload (RtmpSetPeerBandwidthMessage_encode v)"
  obtain w l where v: "v = (w, l)" by (cases v)
  with a have t: "take 5 (msg_payload m) = be 4 (unat w) @ [l]"
    by (simp add: RtmpSetPeerBandwidthMessage_encode_def server_message_def)
  then have "5 \<le> length (msg_payload m)" by (rule take_eq_imp_le) simp
  moreover have "take 4 (msg_payload m) = be 4 (unat w)"
    using arg_cong [OF t, of "take 4"] by simp
  moreover have "msg_payload m ! 4 = l"
    using arg_cong [OF t, of "\<lambda>x. x ! 4"] by (simp add: nth_append)
  ultimately show "RtmpSetPeerBandwidthMessage_decode m = Ok (v, 5)"
    by (simp add: RtmpSetPeerBandwidthMessage_decode_def v)
qed (auto simp: RtmpSetPeerBandwidthMessage_encode_def RtmpSetPeerBandwidthMessage_decode_def
    server_message_def)

end
