(* ===== verification/Tcp_Socket.thy ===== *)
theory Tcp_Socket
  imports Mms_Prelude
begin

text \<open>
  \<open>TcpSocket\<close> of \<open>src/base/network/tcp_socket.cpp\<close>: the blocking-style \<open>send\<close> and \<open>recv\<close> that loop
  over the asio primitives until the whole buffer went through, and \<open>close\<close>.  The asio socket is the
  environment: the segments it will still deliver, and the sizes it will still accept, before it
  reports an error.  The protocol layers only rely on the stream contract proved here
  (\<open>stream_recv\<close>): the segmentation of the network is invisible to them.
\<close>

section \<open>The socket and its environment\<close>

record tcp_socket =
  segments :: "bytes list" \<comment> \<open>what the following async_receive calls deliver\<close>
  accepts :: "nat list" \<comment> \<open>how much the following async_send calls take at most\<close>
  sent :: bytes \<comment> \<open>bytes handed to the network\<close>
  in_bytes :: u64
  out_bytes :: u64
  has_handler :: bool
  closed :: bool
  close_events :: nat \<comment> \<open>calls of handler->onTcpSocketClose\<close>
  socket_open :: bool
  deleted :: bool \<comment> \<open>after delete this\<close>

fun async_receive :: "nat \<Rightarrow> bytes list \<Rightarrow> (bytes \<times> bytes list) option" where
  "async_receive n [] = None"
| "async_receive n (seg # segs) =
     Some (take n seg, if length seg \<le> n then segs else drop n seg # segs)"

fun async_send :: "bytes \<Rightarrow> nat list \<Rightarrow> (nat \<times> nat list) option" where
  "async_send d [] = None"
| "async_send d (a # as) = Some (min a (length d), as)"

section \<open>The operations\<close>

function TcpSocket_recv_loop :: "nat \<Rightarrow> bytes \<Rightarrow> bytes list \<Rightarrow> bytes option \<times> bytes list" where
  "TcpSocket_recv_loop len got segs =
     (if length got < len then
        (case async_receive (len - length got) segs of
           None \<Rightarrow> (None, segs)
         | Some (s, segs') \<Rightarrow> TcpSocket_recv_loop len (got @ s) segs')
      else (Some got, segs))"
  by pat_completeness auto
termination
proof (relation "measure (\<lambda>(len, got, segs). length segs + (len - length got))")
  fix len got segs p s segs'
  assume lt: "length (got :: bytes) < len"
    and rcv: "async_receive (len - length got) segs = Some p" and p: "(s, segs') = p"
  then obtain seg rest where segs: "segs = seg # rest" by (cases segs) auto
  with lt rcv p show "((len, got @ s, segs'), len, got, segs)
      \<in> measure (\<lambda>(len, got, segs). length segs + (len - length got))"
    by (cases "length seg \<le> len - length got") auto
qed simp

declare TcpSocket_recv_loop.simps [simp del]

definition TcpSocket_recv :: "nat \<Rightarrow> tcp_socket \<Rightarrow> bytes option \<times> tcp_socket" where
  "TcpSocket_recv len s =
     (case TcpSocket_recv_loop len [] (segments s) of
        (None, segs) \<Rightarrow> (None, s\<lparr>segments := segs\<rparr>)
      | (Some d, segs) \<Rightarrow> (Some d, s\<lparr>segments := segs, in_bytes := in_bytes s + of_nat len\<rparr>))"

definition TcpSocket_recvSome :: "nat \<Rightarrow> tcp_socket \<Rightarrow> bytes option \<times> tcp_socket" where
  "TcpSocket_recvSome len s =
     (case async_receive len (segments s) of
        None \<Rightarrow> (None, s)
      | Some (d, segs) \<Rightarrow> (Some d, s\<lparr>segments := segs, in_bytes := in_bytes s + of_nat (length d)\<rparr>))"

fun TcpSocket_send_loop :: "bytes \<Rightarrow> nat list \<Rightarrow> bytes \<Rightarrow> bool \<times> nat list \<times> bytes" where
  "TcpSocket_send_loop d [] out = (if d = [] then (True, [], out) else (False, [], out))"
| "TcpSocket_send_loop d (a # as) out =
     (if d = [] then (True, a # as, out)
      else case async_send d (a # as) of
        None \<Rightarrow> (False, a # as, out)
      | Some (n, as') \<Rightarrow> TcpSocket_send_loop (drop n d) as (out @ take n d))"

definition TcpSocket_send :: "bytes \<Rightarrow> tcp_socket \<Rightarrow> bool \<times> tcp_socket" where
  "TcpSocket_send d s =
     (case TcpSocket_send_loop d (accepts s) (sent s) of
        (False, as, out) \<Rightarrow> (False, s\<lparr>accepts := as, sent := out\<rparr>)
      | (True, as, out) \<Rightarrow>
          (True, s\<lparr>accepts := as, sent := out, out_bytes := out_bytes s + of_nat (length d)\<rparr>))"

text \<open>\<open>close\<close> ends in \<^verbatim>\<open>delete this\<close>.  The notified handler may close the socket again: it is a
  parameter, with the socket it works on.\<close>

definition TcpSocket_close ::
  "(tcp_socket \<Rightarrow> tcp_socket outcome) \<Rightarrow> tcp_socket \<Rightarrow> tcp_socket outcome" where
  "TcpSocket_close onTcpSocketClose s =
     (if deleted s then Fault
      else if closed s then Ok s
      else
        let s1 = s\<lparr>closed := True\<rparr> in
        obind (if has_handler s1 then onTcpSocketClose (s1\<lparr>close_events := close_events s1 + 1\<rparr>)
               else Ok s1) (\<lambda>s2.
          if deleted s2 then Fault else Ok (s2\<lparr>socket_open := False, deleted := True\<rparr>)))"

section \<open>The stream contract\<close>

text \<open>Reading \<open>n\<close> bytes from a byte stream: all of them or none.\<close>

definition stream_recv :: "nat \<Rightarrow> bytes \<Rightarrow> (bytes \<times> bytes) option" where
  "stream_recv n s = (if n \<le> length s then Some (take n s, drop n s) else None)"

lemma stream_recv_append [simp]: "length xs = n \<Longrightarrow> stream_recv n (xs @ ys) = Some (xs, ys)"
  by (auto simp: stream_recv_def)

lemma stream_recv_Some_iff:
  "stream_recv n s = Some (d, r) \<longleftrightarrow> s = d @ r \<and> length d = n"
  by (auto simp: stream_recv_def append_eq_conv_conj)

lemma stream_recv_shorter: "stream_recv n s = Some (d, r) \<Longrightarrow> length r = length s - n \<and> n \<le> length s"
  by (auto simp: stream_recv_Some_iff)

lemma concat_async_receive:
  "async_receive n segs = Some (d, segs') \<Longrightarrow>
     length d \<le> n \<and> d @ concat segs' = concat segs"
  by (cases segs) (auto split: if_splits)

lemma TcpSocket_recv_loop_concat:
  "length got \<le> len \<Longrightarrow>
   (case TcpSocket_recv_loop len got segs of
      (Some d, segs') \<Rightarrow> length d = len \<and> d @ concat segs' = got @ concat segs
    | (None, segs') \<Rightarrow> length got + length (concat segs) < len)"
proof (induction len got segs rule: TcpSocket_recv_loop.induct)
  case (1 len got segs)
  note unf = TcpSocket_recv_loop.simps [of len got segs]
  show ?case
  proof (cases "length got < len")
    case False
    with "1.prems" show ?thesis by (simp add: unf)
  next
    case lt: True
    show ?thesis
    proof (cases "async_receive (len - length got) segs")
      case None
      then have "segs = []" by (cases segs) auto
      with lt show ?thesis by (simp add: TcpSocket_recv_loop.simps [of len got "[]"])
    next
      case (Some p)
      obtain s segs' where p: "p = (s, segs')" by (cases p)
      with Some have c: "length s \<le> len - length got" "s @ concat segs' = concat segs"
        using concat_async_receive by fastforce+
      have "length (got @ s) \<le> len" using c(1) lt by simp
      from "1.IH" [OF lt Some p [symmetric] this] show ?thesis
        using lt Some p
        by (auto simp: unf c(2) [symmetric] split: prod.splits option.splits)
    qed
  qed
qed

text \<open>The whole receive as one read from the concatenated segments.\<close>

lemma TcpSocket_recv_stream:
  "map_option (\<lambda>d. (d, concat (segments (snd (TcpSocket_recv n s))))) (fst (TcpSocket_recv n s))
     = stream_recv n (concat (segments s))"
proof -
  obtain r segs where l: "TcpSocket_recv_loop n [] (segments s) = (r, segs)" by fastforce
  note spec = TcpSocket_recv_loop_concat [of "[]" n "segments s", unfolded l]
  show ?thesis
  proof (cases r)
    case None
    with spec l show ?thesis by (simp add: TcpSocket_recv_def stream_recv_def)
  next
    case (Some d)
    with spec have "stream_recv n (concat (segments s)) = Some (d, concat segs)"
      by (simp add: stream_recv_Some_iff)
    with Some l show ?thesis by (simp add: TcpSocket_recv_def)
  qed
qed

lemma TcpSocket_send_loop_spec:
  "TcpSocket_send_loop d as out = (ok, as', out') \<Longrightarrow>
     \<exists>p q. d = p @ q \<and> out' = out @ p \<and> (ok \<longleftrightarrow> q = [])"
proof (induction d as out arbitrary: ok as' out' rule: TcpSocket_send_loop.induct)
  case (1 d out)
  then show ?case by (auto split: if_splits)
next
  case (2 d a as out)
  show ?case
  proof (cases "d = []")
    case True
    with "2.prems" show ?thesis by simp
  next
    case False
    let ?n = "min a (length d)"
    from False "2.prems" have
      "TcpSocket_send_loop (drop ?n d) as (out @ take ?n d) = (ok, as', out')" by simp
    from "2.IH" [OF False _ refl this] obtain p q where
      pq: "drop ?n d = p @ q" "out' = (out @ take ?n d) @ p" "ok \<longleftrightarrow> q = []" by fastforce
    have "d = (take ?n d @ p) @ q" using append_take_drop_id [of ?n d] pq(1) by simp
    moreover have "out' = out @ (take ?n d @ p)" using pq(2) by simp
    ultimately show ?thesis using pq(3) by blast
  qed
qed

lemma TcpSocket_recv_keeps: "sent (snd (TcpSocket_recv n s)) = sent s"
  by (simp add: TcpSocket_recv_def split: prod.splits option.splits)

lemma TcpSocket_send_keeps: "segments (snd (TcpSocket_send d s)) = segments s"
  by (simp add: TcpSocket_send_def split: prod.splits bool.splits)

lemma TcpSocket_send_spec:
  "\<exists>p q. d = p @ q \<and> sent (snd (TcpSocket_send d s)) = sent s @ p
      \<and> (fst (TcpSocket_send d s) \<longleftrightarrow> q = [])
      \<and> out_bytes (snd (TcpSocket_send d s))
          = out_bytes s + (if fst (TcpSocket_send d s) then of_nat (length d) else 0)"
proof -
  obtain ok as' out' where l: "TcpSocket_send_loop d (accepts s) (sent s) = (ok, as', out')"
    by (cases "TcpSocket_send_loop d (accepts s) (sent s)") auto
  from TcpSocket_send_loop_spec [OF l] obtain p q where
    pq: "d = p @ q" "out' = sent s @ p" "ok \<longleftrightarrow> q = []" by blast
  have "fst (TcpSocket_send d s) = ok" "sent (snd (TcpSocket_send d s)) = out'"
    "out_bytes (snd (TcpSocket_send d s)) = out_bytes s + (if ok then of_nat (length d) else 0)"
    using l by (cases ok; simp add: TcpSocket_send_def)+
  with pq show ?thesis by auto
qed

section \<open>Properties\<close>

text \<open>TcpSocket::recv returns exactly the next len bytes of the connection, or fails when
  the connection ends first, independently of how the network cut the stream into segments.\<close>

theorem tcp_recv_independent_of_segmentation:
  "map_option (\<lambda>d. (d, concat (segments (snd (TcpSocket_recv n s))))) (fst (TcpSocket_recv n s))
     = (if n \<le> length (concat (segments s))
        then Some (take n (concat (segments s)), drop n (concat (segments s))) else None)"
  using TcpSocket_recv_stream [of n s] by (simp add: stream_recv_def)

text \<open>TcpSocket::send hands a prefix of the buffer to the network, and the whole buffer
  exactly when it reports success; only then are the bytes counted.\<close>

theorem tcp_send_all_or_prefix:
  "\<exists>p q. d = p @ q \<and> sent (snd (TcpSocket_send d s)) = sent s @ p
      \<and> (fst (TcpSocket_send d s) \<longleftrightarrow> q = [])
      \<and> out_bytes (snd (TcpSocket_send d s))
          = out_bytes s + (if fst (TcpSocket_send d s) then of_nat (length d) else 0)"
  by (rule TcpSocket_send_spec)

text \<open>TcpSocket::close on a live socket notifies its handler once even when the handler
  closes the socket again from the notification, and leaves the socket deleted: any later close
  of the same object is a use after free.\<close>

theorem tcp_close_notifies_once:
  assumes "\<not> deleted s" "\<not> closed s" "has_handler s"
  shows "\<exists>s'. TcpSocket_close (TcpSocket_close h) s = Ok s'
      \<and> close_events s' = close_events s + 1 \<and> \<not> socket_open s' \<and> deleted s'
      \<and> TcpSocket_close h s' = Fault"
  using assms by (simp add: TcpSocket_close_def)

theorem tcp_close_notifies_once_witness:
  "\<exists>s'. TcpSocket_close (TcpSocket_close Ok)
        \<lparr>segments = [], accepts = [], sent = [], in_bytes = 0, out_bytes = 0, has_handler = True,
         closed = False, close_events = 0, socket_open = True, deleted = False\<rparr> = Ok s'
      \<and> close_events s' = 1 \<and> \<not> socket_open s' \<and> deleted s' \<and> TcpSocket_close Ok s' = Fault"
  using tcp_close_notifies_once [of "\<lparr>segments = [], accepts = [], sent = [], in_bytes = 0,
     out_bytes = 0, has_handler = True, closed = False, close_events = 0, socket_open = True,
     deleted = False\<rparr>" Ok] by simp

end
