(* ===== verification/Rtmp_Chunk_Recv.thy ===== *)
theory Rtmp_Chunk_Recv
  imports Rtmp_Define Tcp_Socket
begin

text \<open>
  The receiving half of \<open>RtmpChunkProtocol\<close>
  (\<open>src/server/rtmp/rtmp_protocol/rtmp_chunk_protocol.cpp\<close>): \<open>cycleRecvRtmpMessage\<close>, which
  reassembles RTMP messages from the chunks of a byte stream, with its chunk-level handlers
  \<open>handleSetChunkSize\<close> and \<open>handleAbort\<close>.

  The connection is the byte stream it will still deliver (\<open>Tcp_Socket\<close> justifies this reading of
  \<open>conn_->recv\<close>).  \<open>Err c\<close> is the return of code \<open>c\<close> from the receive loop, \<open>Fault\<close> a write outside the
  allocation of the message being assembled (or an allocation of negative size).  The message
  handler is a parameter with a state of its own: it returns whether the loop goes on.
\<close>

section \<open>State\<close>

record chunk_recv =
  in_chunk_size :: u32
  recv_chunk_streams :: "nat \<rightharpoonup> rtmp_chunk"
  recv_chunk_cache :: "nat \<rightharpoonup> rtmp_chunk"

definition chunk_recv_init :: chunk_recv where
  "chunk_recv_init = \<lparr>in_chunk_size = 128, recv_chunk_streams = Map.empty,
     recv_chunk_cache = (\<lambda>cid. if cid < 256 then Some RtmpChunk_new else None)\<rparr>"

section \<open>One chunk\<close>

text \<open>A receive whose failure returns \<open>code\<close> from the loop.\<close>

definition recv_or :: "int \<Rightarrow> nat \<Rightarrow> bytes \<Rightarrow> (bytes \<times> bytes) outcome" where
  "recv_or code n s = (case stream_recv n s of None \<Rightarrow> Err code | Some p \<Rightarrow> Ok p)"

text \<open>The second byte of the two-byte form is only added when reading it failed; the stream has
  then ended and \<open>d\<close> still holds the first byte.\<close>

definition recv_basic_header :: "bytes \<Rightarrow> (nat \<times> nat \<times> bytes) outcome" where
  "recv_basic_header s =
     obind (recv_or (-1) 1 s) (\<lambda>(b, s).
       let d = b ! 0; cid = unat (d AND 0x3f); fmt = unat (drop_bit 6 d AND 0x03) in
       if cid = 0 then
         (case stream_recv 1 s of
            None \<Rightarrow> Ok (fmt, cid + 64 + unat d, [])
          | Some (_, s) \<Rightarrow> Ok (fmt, cid, s))
       else if cid = 1 then
         obind (recv_or (-2) 2 s) (\<lambda>(buf, s).
           Ok (fmt, 64 + unat (buf ! 0) + unat (buf ! 1) * 256, s))
       else Ok (fmt, cid, s))"

text \<open>Three bytes of the wire stored into the low bytes of a 32-bit field.\<close>

definition set_low3 :: "u32 \<Rightarrow> bytes \<Rightarrow> u32" where
  "set_low3 w t = (w AND 0xff000000) OR of_nat (unbe t)"

definition recv_message_header_type0 :: "rtmp_chunk \<Rightarrow> bytes \<Rightarrow> (rtmp_chunk \<times> bytes) outcome" where
  "recv_message_header_type0 chunk s =
     obind (recv_or (-3) 3 s) (\<lambda>(t, s).
       let timestamp = set_low3 (hdr_timestamp (chunk_hdr chunk)) t in
       obind (recv_or (-4) 3 s) (\<lambda>(l, s).
         obind (recv_or (-5) 1 s) (\<lambda>(ty, s).
           obind (recv_or (-6) 4 s) (\<lambda>(i, s).
             let hdr = \<lparr>hdr_timestamp = timestamp, hdr_length = set_low3 0 l, hdr_type = ty ! 0,
                        hdr_stream_id = of_nat (unbe i)\<rparr> in
             if timestamp = 0x00ffffff then
               obind (recv_or (-7) 4 s) (\<lambda>(e, s).
                 Ok (chunk\<lparr>chunk_hdr := hdr\<lparr>hdr_timestamp := of_nat (unbe e)\<rparr>\<rparr>, s))
             else Ok (chunk\<lparr>chunk_hdr := hdr\<rparr>, s)))))"

definition recv_message_header ::
  "nat \<Rightarrow> rtmp_chunk option \<Rightarrow> rtmp_chunk \<Rightarrow> bytes \<Rightarrow> (rtmp_chunk \<times> rtmp_chunk option \<times> bytes) outcome" where
  "recv_message_header fmt prev_chunk chunk s =
     (if fmt = RTMP_FMT_TYPE0 then
        obind (recv_message_header_type0 chunk s) (\<lambda>(chunk, s). Ok (chunk, prev_chunk, s))
      else if fmt = RTMP_FMT_TYPE1 then
        (case prev_chunk of
           None \<Rightarrow> Err (-8)
         | Some p \<Rightarrow>
             let (chunk, p) = RtmpChunk_assign chunk p in
             obind (recv_or (-9) 3 s) (\<lambda>(t, s).
               obind (recv_or (-10) 3 s) (\<lambda>(l, s).
                 obind (recv_or (-11) 1 s) (\<lambda>(ty, s).
                   Ok (chunk\<lparr>chunk_hdr := (chunk_hdr chunk)
                         \<lparr>hdr_timestamp := hdr_timestamp (chunk_hdr p) + of_nat (unbe t),
                          hdr_length := set_low3 (hdr_length (chunk_hdr chunk)) l,
                          hdr_type := ty ! 0\<rparr>\<rparr>, Some p, s)))))
      else if fmt = RTMP_FMT_TYPE2 then
        (case prev_chunk of
           None \<Rightarrow> Err (-12)
         | Some p \<Rightarrow>
             let (chunk, p) = RtmpChunk_assign chunk p in
             obind (recv_or (-13) 3 s) (\<lambda>(t, s).
               Ok (chunk\<lparr>chunk_hdr := (chunk_hdr chunk)
                     \<lparr>hdr_timestamp := hdr_timestamp (chunk_hdr p) + of_nat (unbe t)\<rparr>\<rparr>, Some p, s)))
      else
        (case prev_chunk of
           None \<Rightarrow> Err (-14)
         | Some p \<Rightarrow> let (chunk, p) = RtmpChunk_assign chunk p in Ok (chunk, Some p, s)))"

text \<open>
  The payload of one chunk.  \<open>conn_->recv\<close> takes a \<open>size_t\<close>: a negative size asks for almost
  \<open>2\<^sup>64\<close> bytes.  Whatever arrives is written behind the bytes the message already has.
\<close>

definition this_chunk_payload_size :: "u32 \<Rightarrow> u32 \<Rightarrow> rtmp_message \<Rightarrow> int" where
  "this_chunk_payload_size in_size len m =
     min (sint in_size) (sint len - int (length (msg_payload m)))"

definition recv_payload :: "u32 \<Rightarrow> u32 \<Rightarrow> rtmp_message \<Rightarrow> bytes \<Rightarrow> (rtmp_message \<times> bytes) outcome" where
  "recv_payload in_size len m s =
     (let n = this_chunk_payload_size in_size len m mod 2 ^ 64;
          room = msg_room m - length (msg_payload m) in
      if int room < min n (int (length s)) then Fault
      else if int (length s) < n then Err (-15)
      else obind (recv_or (-15) (nat n) s) (\<lambda>(d, s). Ok (m\<lparr>msg_payload := msg_payload m @ d\<rparr>, s)))"

section \<open>A complete message\<close>

definition handleSetChunkSize :: "rtmp_message \<Rightarrow> chunk_recv \<Rightarrow> chunk_recv option" where
  "handleSetChunkSize m st =
     (case RtmpSetChunkSizeMessage_decode m of
        Ok (chunk_size, _) \<Rightarrow> Some (st\<lparr>in_chunk_size := chunk_size\<rparr>)
      | _ \<Rightarrow> None)"

definition handleAbort :: "rtmp_message \<Rightarrow> chunk_recv \<Rightarrow> chunk_recv option" where
  "handleAbort m st =
     (case RtmpAbortMessage_decode m of
        Ok (chunk_id, _) \<Rightarrow>
          Some (st\<lparr>recv_chunk_streams := (recv_chunk_streams st)(unat chunk_id := None)\<rparr>)
      | _ \<Rightarrow> None)"

text \<open>\<^verbatim>\<open>chunk->rtmp_message_.reset()\<close> on the chunk of stream \<open>cid\<close>, if it is still there.\<close>

definition reset_message :: "nat \<Rightarrow> chunk_recv \<Rightarrow> chunk_recv" where
  "reset_message cid st =
     st\<lparr>recv_chunk_streams := (recv_chunk_streams st)
          (cid := map_option (\<lambda>c. c\<lparr>chunk_msg := None\<rparr>) (recv_chunk_streams st cid))\<rparr>"

definition fill_message :: "nat \<Rightarrow> chunk_message_header \<Rightarrow> rtmp_message \<Rightarrow> rtmp_message" where
  "fill_message cid hdr m =
     m\<lparr>msg_csid := of_nat cid, msg_timestamp := hdr_timestamp hdr, msg_type := hdr_type hdr,
       msg_stream_id := hdr_stream_id hdr\<rparr>"

definition recv_complete ::
  "nat \<Rightarrow> rtmp_message \<Rightarrow> chunk_recv \<Rightarrow> (chunk_recv \<times> rtmp_message option) outcome" where
  "recv_complete cid m st =
     (if msg_type m = RTMP_MESSAGE_TYPE_SET_CHUNK_SIZE then
        (case handleSetChunkSize m st of
           None \<Rightarrow> Err (-16)
         | Some st \<Rightarrow> Ok (reset_message cid st, None))
      else if msg_type m = RTMP_MESSAGE_TYPE_ABORT_MESSAGE then
        (case handleAbort m st of
           None \<Rightarrow> Err (-17)
         | Some st \<Rightarrow> Ok (reset_message cid st, None))
      else Ok (reset_message cid st, Some m))"

text \<open>The part of the loop behind the chunk header: the chunk becomes the stream's current one, its
  payload is read, and a complete message is dispatched.\<close>

definition recv_assemble ::
  "nat \<Rightarrow> rtmp_chunk \<Rightarrow> chunk_recv \<Rightarrow> bytes \<Rightarrow> (chunk_recv \<times> rtmp_message option \<times> bytes) outcome" where
  "recv_assemble cid chunk st s =
     (let len = hdr_length (chunk_hdr chunk) in
      if 2 * 1024 * 1024 \<le> sint len then Err (-14)
      else if chunk_msg chunk = None \<and> sint len < 0 then Fault
      else
        let m = (case chunk_msg chunk of Some m \<Rightarrow> m | None \<Rightarrow> RtmpMessage_new (nat (sint len))) in
        obind (recv_payload (in_chunk_size st) len m s) (\<lambda>(m, s).
          if int (length (msg_payload m)) = sint len then
            let m = fill_message cid (chunk_hdr chunk) m;
                st = st\<lparr>recv_chunk_streams :=
                  (recv_chunk_streams st)(cid \<mapsto> chunk\<lparr>chunk_msg := Some m\<rparr>)\<rparr> in
            obind (recv_complete cid m st) (\<lambda>(st, d). Ok (st, d, s))
          else
            Ok (st\<lparr>recv_chunk_streams :=
                  (recv_chunk_streams st)(cid \<mapsto> chunk\<lparr>chunk_msg := Some m\<rparr>)\<rparr>, None, s)))"

text \<open>One turn of the receive loop: the new state, the message for the handler if one is
  complete, and the rest of the stream.\<close>

definition recv_chunk :: "chunk_recv \<Rightarrow> bytes \<Rightarrow> (chunk_recv \<times> rtmp_message option \<times> bytes) outcome" where
  "recv_chunk st s =
     obind (recv_basic_header s) (\<lambda>(fmt, cid, s).
       let prev_chunk = recv_chunk_streams st cid;
           chunk = (case recv_chunk_cache st cid of Some c \<Rightarrow> c | None \<Rightarrow> RtmpChunk_new);
           cache = (recv_chunk_cache st)(cid := None) in
       obind (recv_message_header fmt prev_chunk chunk s) (\<lambda>(chunk, prev_chunk, s).
         recv_assemble cid chunk
           (st\<lparr>recv_chunk_cache :=
             (case prev_chunk of None \<Rightarrow> cache | Some p \<Rightarrow> cache(cid \<mapsto> RtmpChunk_clear p))\<rparr>) s))"

section \<open>The loop\<close>

datatype recv_end = Crashed | Returned int

lemma recv_or_Ok_iff: "recv_or c n s = Ok (d, r) \<longleftrightarrow> s = d @ r \<and> length d = n"
  by (auto simp: recv_or_def stream_recv_Some_iff split: option.splits)

lemma recv_or_not_Fault [simp]: "recv_or c n s \<noteq> Fault"
  by (simp add: recv_or_def split: option.splits)

lemma recv_or_append [simp]: "length d = n \<Longrightarrow> recv_or c n (d @ r) = Ok (d, r)"
  by (simp add: recv_or_Ok_iff)

lemma recv_basic_header_shorter:
  "recv_basic_header s = Ok (fmt, cid, r) \<Longrightarrow> length r < length s"
  by (auto simp: recv_basic_header_def obind_Ok_iff recv_or_Ok_iff Let_def stream_recv_Some_iff
      split: if_splits option.splits)

lemma recv_message_header_type0_shorter:
  "recv_message_header_type0 chunk s = Ok (c, r) \<Longrightarrow> length r \<le> length s"
  by (auto simp: recv_message_header_type0_def obind_Ok_iff recv_or_Ok_iff Let_def split: if_splits)

lemma recv_message_header_shorter:
  "recv_message_header fmt prev chunk s = Ok (c, p, r) \<Longrightarrow> length r \<le> length s"
  by (auto simp: recv_message_header_def obind_Ok_iff recv_or_Ok_iff Let_def RtmpChunk_assign_def
      dest!: recv_message_header_type0_shorter split: if_splits option.splits)

lemma recv_payload_shorter: "recv_payload i len m s = Ok (m', r) \<Longrightarrow> length r \<le> length s"
  by (auto simp: recv_payload_def obind_Ok_iff recv_or_Ok_iff Let_def split: if_splits)

lemma recv_assemble_shorter: "recv_assemble cid c st s = Ok (st', d, r) \<Longrightarrow> length r \<le> length s"
  by (auto simp: recv_assemble_def obind_Ok_iff Let_def split: if_splits dest!: recv_payload_shorter)

lemma recv_chunk_shorter: "recv_chunk st s = Ok (st', d, r) \<Longrightarrow> length r < length s"
  by (auto simp: recv_chunk_def obind_Ok_iff Let_def
      dest!: recv_basic_header_shorter recv_message_header_shorter recv_assemble_shorter)

function cycleRecvRtmpMessage ::
  "('h \<Rightarrow> rtmp_message \<Rightarrow> bool \<times> 'h) \<Rightarrow> 'h \<Rightarrow> chunk_recv \<Rightarrow> bytes \<Rightarrow> recv_end \<times> 'h" where
  "cycleRecvRtmpMessage recv_handler h st s =
     (case recv_chunk st s of
        Fault \<Rightarrow> (Crashed, h)
      | Err c \<Rightarrow> (Returned c, h)
      | Ok (st, None, s) \<Rightarrow> cycleRecvRtmpMessage recv_handler h st s
      | Ok (st, Some m, s) \<Rightarrow>
          (case recv_handler h m of
             (False, h) \<Rightarrow> (Returned (-18), h)
           | (True, h) \<Rightarrow> cycleRecvRtmpMessage recv_handler h st s))"
  by pat_completeness auto
termination
  by (relation "measure (\<lambda>(_, _, _, s). length s)") (auto dest: recv_chunk_shorter)

declare cycleRecvRtmpMessage.simps [simp del]

section \<open>Fields of the chunk header\<close>

lemma unbe3_less: "length t = 3 \<Longrightarrow> unbe t < 2 ^ 24"
  using unbe_less [of t] by simp

lemmas unbe3_less_numeral [simp] = unbe3_less [simplified]

lemma and_high_byte: "unat (w :: u32) < 2 ^ 24 \<Longrightarrow> w AND 0xff000000 = 0"
proof -
  assume a: "unat w < 2 ^ 24"
  have "w = take_bit 24 w"
    by (metis a take_bit_nat_eq_self_iff unsigned_take_bit_eq word_unat_eq_iff)
  then have "w AND 0xff000000 = take_bit 24 w AND 0xff000000" by simp
  also have "\<dots> = w AND take_bit 24 0xff000000"
    by (simp only: take_bit_eq_mask ac_simps)
  also have "take_bit 24 (0xff000000 :: u32) = 0" by (simp add: take_bit_eq_mod)
  finally show ?thesis by simp
qed

lemma set_low3_small: "unat w < 2 ^ 24 \<Longrightarrow> set_low3 w t = of_nat (unbe t)"
  by (simp add: set_low3_def and_high_byte)

lemma unat_unbe3: "length t = 3 \<Longrightarrow> unat (of_nat (unbe t) :: u32) = unbe t"
proof -
  assume "length t = 3"
  from unbe3_less [OF this] have "unbe t < 2 ^ 32" by (rule less_trans) simp
  then have "unbe t mod 2 ^ 32 = unbe t" by (rule mod_less)
  then show ?thesis by (simp add: unat_of_nat)
qed

lemma sint_small_u32: "unat (w :: u32) < 2 ^ 31 \<Longrightarrow> sint w = int (unat w)"
proof -
  assume "unat w < 2 ^ 31"
  then have "int (unat w) < int (2 ^ 31)" by (simp only: of_nat_less_iff)
  then have "uint w < 2 ^ 31" by (simp add: uint_nat [symmetric])
  moreover have "- (2 ^ 31) \<le> uint w" by (rule order_trans [of _ 0]) simp_all
  ultimately have "signed_take_bit 31 (uint w) = uint w"
    by (intro signed_take_bit_int_eq_self)
  then have "sint w = uint w" by (simp add: sint_uint)
  then show ?thesis by (simp add: uint_nat [symmetric])
qed

lemma sint_of_nat_u32: "n < 2 ^ 31 \<Longrightarrow> sint (of_nat n :: u32) = int n"
proof -
  assume n: "n < 2 ^ 31"
  then have "n < 2 ^ 32" by (rule less_trans) simp
  then have "n mod 2 ^ 32 = n" by (rule mod_less)
  then have u: "unat (of_nat n :: u32) = n" by (simp add: unat_of_nat)
  have "sint (of_nat n :: u32) = int (unat (of_nat n :: u32))"
    by (rule sint_small_u32) (unfold u, rule n)
  then show ?thesis unfolding u .
qed

section \<open>Invariant and memory safety\<close>

text \<open>
  The invariant of the receiver: cached chunks are blank; the length field of a chunk stream is a
  24-bit number; a message under assembly has an allocation of exactly its announced length and
  is not complete yet; the chunk size is not negative.
\<close>

definition chunk_ok :: "rtmp_chunk \<Rightarrow> bool" where
  "chunk_ok c \<longleftrightarrow> unat (hdr_length (chunk_hdr c)) < 2 ^ 24 \<and>
     (case chunk_msg c of
        None \<Rightarrow> True
      | Some m \<Rightarrow> msg_room m = unat (hdr_length (chunk_hdr c)) \<and> length (msg_payload m) < msg_room m)"

definition chunk_blank :: "rtmp_chunk \<Rightarrow> bool" where
  "chunk_blank c \<longleftrightarrow> chunk_hdr c = zero_hdr \<and> chunk_msg c = None"

definition recv_wf :: "chunk_recv \<Rightarrow> bool" where
  "recv_wf st \<longleftrightarrow> 0 \<le> sint (in_chunk_size st)
     \<and> (\<forall>cid c. recv_chunk_streams st cid = Some c \<longrightarrow> chunk_ok c)
     \<and> (\<forall>cid c. recv_chunk_cache st cid = Some c \<longrightarrow> chunk_blank c)"

text \<open>A type-1 chunk, which carries a new message length, on a stream whose message is not
  complete.\<close>

definition relengths_message :: "chunk_recv \<Rightarrow> bytes \<Rightarrow> bool" where
  "relengths_message st s =
     (case recv_basic_header s of
        Ok (fmt, cid, _) \<Rightarrow> fmt = RTMP_FMT_TYPE1 \<and>
          (case recv_chunk_streams st cid of None \<Rightarrow> False | Some c \<Rightarrow> chunk_msg c \<noteq> None)
      | _ \<Rightarrow> False)"

lemma chunk_blank_new [simp]: "chunk_blank RtmpChunk_new" "chunk_blank (RtmpChunk_clear c)"
  by (simp_all add: chunk_blank_def RtmpChunk_new_def RtmpChunk_clear_def)

lemma recv_wf_init: "recv_wf chunk_recv_init"
  by (simp add: recv_wf_def chunk_recv_init_def)

lemma recv_basic_header_not_Fault [simp]: "recv_basic_header s \<noteq> Fault"
  by (auto simp: recv_basic_header_def obind_Fault_iff Let_def split: option.splits)

lemma recv_message_header_not_Fault [simp]: "recv_message_header fmt prev chunk s \<noteq> Fault"
  by (auto simp: recv_message_header_def recv_message_header_type0_def obind_Fault_iff Let_def
      RtmpChunk_assign_def split: option.splits)

lemma recv_message_header_type0_ok:
  assumes "chunk_blank chunk" "recv_message_header_type0 chunk s = Ok (c, r)"
  shows "chunk_ok c \<and> chunk_msg c = None"
  using assms
  by (auto simp: recv_message_header_type0_def obind_Ok_iff recv_or_Ok_iff Let_def chunk_ok_def
      chunk_blank_def set_low3_small unat_unbe3 split: if_splits)

lemma recv_message_header_ok:
  assumes hdr: "recv_message_header fmt prev chunk s = Ok (c, p, r)" and blank: "chunk_blank chunk"
    and prev: "\<And>q. prev = Some q \<Longrightarrow> chunk_ok q"
    and mid: "\<And>q. fmt = RTMP_FMT_TYPE1 \<Longrightarrow> prev = Some q \<Longrightarrow> chunk_msg q = None"
  shows "chunk_ok c"
proof (cases "fmt = 0")
  case True
  with hdr recv_message_header_type0_ok [OF blank] show ?thesis
    by (auto simp: recv_message_header_def obind_Ok_iff)
next
  case False
  with hdr obtain q where q: "prev = Some q"
    by (auto simp: recv_message_header_def split: option.splits if_splits)
  with False hdr prev [OF q] mid [OF _ q] show ?thesis
    by (auto simp: recv_message_header_def obind_Ok_iff recv_or_Ok_iff Let_def chunk_ok_def
        RtmpChunk_assign_def set_low3_small unat_unbe3 split: if_splits option.splits)
qed


lemma this_chunk_payload_size_ok:
  assumes "0 \<le> sint i" "unat len < 2 ^ 24" "msg_room m = unat len" "length (msg_payload m) \<le> msg_room m"
  shows "0 \<le> this_chunk_payload_size i len m"
    "this_chunk_payload_size i len m \<le> int (msg_room m - length (msg_payload m))"
proof -
  have "sint len = int (msg_room m)" unfolding assms(3) using assms(2) by (intro sint_small_u32) simp
  then show "0 \<le> this_chunk_payload_size i len m"
    "this_chunk_payload_size i len m \<le> int (msg_room m - length (msg_payload m))"
    using assms(1,4) by (auto simp: this_chunk_payload_size_def)
qed

lemma recv_payload_ok:
  assumes "0 \<le> sint i" "unat len < 2 ^ 24" "msg_room m = unat len" "length (msg_payload m) \<le> msg_room m"
  shows "recv_payload i len m s =
      obind (recv_or (-15) (nat (this_chunk_payload_size i len m)) s)
        (\<lambda>(d, s). Ok (m\<lparr>msg_payload := msg_payload m @ d\<rparr>, s))"
    and "recv_payload i len m s = Ok (m', r) \<Longrightarrow>
      msg_room m' = msg_room m \<and> length (msg_payload m') \<le> msg_room m"
proof -
  note t = this_chunk_payload_size_ok [OF assms]
  have "int (msg_room m - length (msg_payload m)) < 2 ^ 24" using assms(2,3) by simp
  with t(2) have "this_chunk_payload_size i len m < 2 ^ 24" by linarith
  then have "this_chunk_payload_size i len m < 2 ^ 64" by (rule less_trans) simp
  with t(1) have md: "this_chunk_payload_size i len m mod 2 ^ 64 = this_chunk_payload_size i len m"
    by simp
  with t(2) show e: "recv_payload i len m s =
      obind (recv_or (-15) (nat (this_chunk_payload_size i len m)) s)
        (\<lambda>(d, s). Ok (m\<lparr>msg_payload := msg_payload m @ d\<rparr>, s))"
    unfolding recv_payload_def Let_def md by (auto simp: recv_or_def stream_recv_def)
  assume "recv_payload i len m s = Ok (m', r)"
  with t(2) assms(4) show "msg_room m' = msg_room m \<and> length (msg_payload m') \<le> msg_room m"
    unfolding e by (auto simp: obind_Ok_iff recv_or_Ok_iff)
qed


text \<open>Everything of the invariant but the sign of the chunk size.\<close>

definition streams_ok :: "chunk_recv \<Rightarrow> bool" where
  "streams_ok st \<longleftrightarrow> (\<forall>cid c. recv_chunk_streams st cid = Some c \<longrightarrow> chunk_ok c)
     \<and> (\<forall>cid c. recv_chunk_cache st cid = Some c \<longrightarrow> chunk_blank c)"

lemma recv_wf_streams: "recv_wf st \<longleftrightarrow> 0 \<le> sint (in_chunk_size st) \<and> streams_ok st"
  by (auto simp: recv_wf_def streams_ok_def)

lemma streams_ok_upd:
  "streams_ok st \<Longrightarrow> chunk_ok c \<Longrightarrow>
     streams_ok (st\<lparr>recv_chunk_streams := (recv_chunk_streams st)(cid \<mapsto> c)\<rparr>)"
  by (auto simp: streams_ok_def)

lemma chunk_ok_reset: "unat (hdr_length (chunk_hdr c)) < 2 ^ 24 \<Longrightarrow> chunk_ok (c\<lparr>chunk_msg := None\<rparr>)"
  by (simp add: chunk_ok_def)

lemma recv_complete_streams_ok:
  assumes "recv_complete cid m (st\<lparr>recv_chunk_streams := (recv_chunk_streams st)(cid \<mapsto> c)\<rparr>) = Ok (st', d)"
    and "streams_ok st" "unat (hdr_length (chunk_hdr c)) < 2 ^ 24"
  shows "streams_ok st'"
  using assms(1,2) chunk_ok_reset [OF assms(3)]
  by (auto simp: recv_complete_def handleSetChunkSize_def handleAbort_def reset_message_def
      streams_ok_def split: if_splits option.splits outcome.splits)

lemma recv_complete_not_Fault [simp]: "recv_complete cid m st \<noteq> Fault"
  by (auto simp: recv_complete_def split: option.splits)

lemma recv_assemble_safe:
  assumes ok: "streams_ok st" "chunk_ok c" and pos: "0 \<le> sint (in_chunk_size st)"
  shows "recv_assemble cid c st s \<noteq> Fault"
    and "recv_assemble cid c st s = Ok (st', d, r) \<Longrightarrow> streams_ok st'"
proof -
  let ?len = "hdr_length (chunk_hdr c)"
  define m where "m = (case chunk_msg c of Some m \<Rightarrow> m | None \<Rightarrow> RtmpMessage_new (nat (sint ?len)))"
  have len: "unat ?len < 2 ^ 24" using ok(2) by (simp add: chunk_ok_def)
  then have "unat ?len < 2 ^ 31" by (rule less_trans) simp
  then have sl: "sint ?len = int (unat ?len)" by (rule sint_small_u32)
  have m: "msg_room m = unat ?len" "length (msg_payload m) \<le> msg_room m"
    using ok(2) sl by (auto simp: m_def chunk_ok_def RtmpMessage_new_def split: option.splits)
  note pay = recv_payload_ok [OF pos len m]
  show "recv_assemble cid c st s \<noteq> Fault"
    unfolding recv_assemble_def Let_def m_def [symmetric] pay(1)
    by (auto simp: obind_Fault_iff obind_Ok_iff sl)
  assume "recv_assemble cid c st s = Ok (st', d, r)"
  then obtain m' r' where p: "recv_payload (in_chunk_size st) ?len m s = Ok (m', r')"
    and rest: "(if int (length (msg_payload m')) = sint ?len then
        obind (recv_complete cid (fill_message cid (chunk_hdr c) m') (st\<lparr>recv_chunk_streams :=
            (recv_chunk_streams st)(cid \<mapsto> c\<lparr>chunk_msg := Some (fill_message cid (chunk_hdr c) m')\<rparr>)\<rparr>))
          (\<lambda>(st, d). Ok (st, d, r'))
      else Ok (st\<lparr>recv_chunk_streams := (recv_chunk_streams st)(cid \<mapsto> c\<lparr>chunk_msg := Some m'\<rparr>)\<rparr>, None, r'))
      = Ok (st', d, r)"
    unfolding recv_assemble_def Let_def m_def [symmetric]
    by (auto simp: obind_Ok_iff split: if_splits)
  from pay(2) [OF p] have m': "msg_room m' = unat ?len" "length (msg_payload m') \<le> unat ?len"
    using m by auto
  show "streams_ok st'"
  proof (cases "int (length (msg_payload m')) = sint ?len")
    case True
    with rest len ok(1) show ?thesis
      by (auto simp: obind_Ok_iff elim!: recv_complete_streams_ok)
  next
    case False
    with m'(2) have "length (msg_payload m') < unat ?len"
      unfolding sl of_nat_eq_iff by simp
    with m' len have "chunk_ok (c\<lparr>chunk_msg := Some m'\<rparr>)" by (simp add: chunk_ok_def)
    with False rest ok(1) show ?thesis by (auto intro: streams_ok_upd)
  qed
qed

lemma recv_chunk_safe:
  assumes wf: "recv_wf st" and "\<not> relengths_message st s"
  shows "recv_chunk st s \<noteq> Fault"
    and "recv_chunk st s = Ok (st', d, r) \<Longrightarrow> streams_ok st'"
proof -
  have wf': "0 \<le> sint (in_chunk_size st)" "streams_ok st" using wf by (simp_all add: recv_wf_streams)
  have step: "recv_assemble cid c (st\<lparr>recv_chunk_cache := cache\<rparr>) t \<noteq> Fault \<and>
      (\<forall>st' d r. recv_assemble cid c (st\<lparr>recv_chunk_cache := cache\<rparr>) t = Ok (st', d, r) \<longrightarrow> streams_ok st')"
    if bh: "recv_basic_header s = Ok (fmt, cid, u)"
      and mh: "recv_message_header fmt (recv_chunk_streams st cid)
        (case recv_chunk_cache st cid of Some c \<Rightarrow> c | None \<Rightarrow> RtmpChunk_new) u = Ok (c, p, t)"
      and cache: "cache = (case p of None \<Rightarrow> (recv_chunk_cache st)(cid := None)
        | Some p \<Rightarrow> ((recv_chunk_cache st)(cid := None))(cid \<mapsto> RtmpChunk_clear p))"
    for fmt cid u c p t cache
  proof -
    have "chunk_ok c"
      using mh
    proof (rule recv_message_header_ok)
      show "chunk_blank (case recv_chunk_cache st cid of None \<Rightarrow> RtmpChunk_new | Some c \<Rightarrow> c)"
        using wf'(2) by (auto simp: streams_ok_def split: option.splits)
    qed (use assms(2) wf'(2) bh in \<open>auto simp: relengths_message_def streams_ok_def\<close>)
    moreover have "streams_ok (st\<lparr>recv_chunk_cache := cache\<rparr>)"
      using wf'(2) by (auto simp: streams_ok_def cache split: option.splits if_splits)
    ultimately show ?thesis using recv_assemble_safe [of "st\<lparr>recv_chunk_cache := cache\<rparr>" c] wf'(1) by auto
  qed
  show "recv_chunk st s \<noteq> Fault"
    using step by (auto simp: recv_chunk_def obind_Fault_iff Let_def)
  show "recv_chunk st s = Ok (st', d, r) \<Longrightarrow> streams_ok st'"
    using step by (fastforce simp: recv_chunk_def obind_Ok_iff Let_def)
qed

section \<open>Reassembly\<close>

text \<open>The bytes of one chunk header, and a payload cut into chunks of \<open>c\<close> bytes, the first behind the
  header \<open>h0\<close> and the others behind \<open>h3\<close>.\<close>

definition basic_header :: "nat \<Rightarrow> byte \<Rightarrow> byte" where
  "basic_header fmt csid = push_bit 6 (of_nat fmt AND 0x03) OR (csid AND 0x3f)"

function chunked :: "nat \<Rightarrow> bytes \<Rightarrow> bytes \<Rightarrow> bytes \<Rightarrow> bytes" where
  "chunked c h0 h3 p =
     (if c = 0 \<or> p = [] then [] else h0 @ take c p @ chunked c h3 h3 (drop c p))"
  by pat_completeness auto
termination
  by (relation "measure (\<lambda>(_, _, _, p). length p)") auto

declare chunked.simps [simp del]

lemma chunked_one: "0 < c \<Longrightarrow> length p \<le> c \<Longrightarrow> chunked c h0 h3 p = (if p = [] then [] else h0 @ p)"
  by (simp add: chunked.simps [of c h0 h3 p] chunked.simps [of c h3 h3 "[]"])

lemma mask6: "(0x3f :: byte) = mask 6"
  by (simp add: mask_eq_exp_minus_1)

lemma mask2: "(0x03 :: byte) = mask 2"
  by (simp add: mask_eq_exp_minus_1)

lemma and_mask6_small: "unat (csid :: byte) < 64 \<Longrightarrow> csid AND 0x3f = csid"
  unfolding mask6 take_bit_eq_mask [symmetric]
  by (simp add: word_unat_eq_iff unsigned_take_bit_eq take_bit_nat_eq_self)

lemma and_mask2_small: "fmt < 4 \<Longrightarrow> (of_nat fmt AND 0x03 :: byte) = of_nat fmt"
  unfolding mask2 take_bit_eq_mask [symmetric]
  by (simp add: word_unat_eq_iff unsigned_take_bit_eq take_bit_nat_eq_self unat_of_nat)

lemma basic_header_low: "basic_header fmt csid AND 0x3f = csid AND 0x3f"
  unfolding mask6 basic_header_def by (intro bit_word_eqI) (auto simp: bit_simps)

lemma basic_header_high: "drop_bit 6 (basic_header fmt csid) AND 0x03 = of_nat fmt AND 0x03"
  unfolding mask6 mask2 basic_header_def by (intro bit_word_eqI) (auto simp: bit_simps)

lemma recv_basic_header_one_byte:
  assumes "2 \<le> unat csid" "unat csid < 64" "fmt < 4"
  shows "recv_basic_header (basic_header fmt csid # s) = Ok (fmt, unat csid, s)"
proof -
  have "basic_header fmt csid AND 0x3f = csid"
    unfolding basic_header_low using assms(2) by (rule and_mask6_small)
  moreover have "drop_bit 6 (basic_header fmt csid) AND 0x03 = of_nat fmt"
    unfolding basic_header_high using assms(3) by (rule and_mask2_small)
  moreover have "unat (of_nat fmt :: byte) = fmt" using assms(3) by (simp add: unat_of_nat)
  ultimately show ?thesis
    using assms by (simp add: recv_basic_header_def recv_or_def stream_recv_def)
qed

text \<open>What happens when a message is complete: the handler gets it and decides.\<close>

definition deliver ::
  "('h \<Rightarrow> rtmp_message \<Rightarrow> bool \<times> 'h) \<Rightarrow> 'h \<Rightarrow> rtmp_message \<Rightarrow> chunk_recv \<Rightarrow> bytes \<Rightarrow> recv_end \<times> 'h" where
  "deliver f h m st s =
     (case f h m of (False, h) \<Rightarrow> (Returned (-18), h) | (True, h) \<Rightarrow> cycleRecvRtmpMessage f h st s)"

lemma cycle_None:
  "recv_chunk st s = Ok (st', None, s') \<Longrightarrow>
     cycleRecvRtmpMessage f h st s = cycleRecvRtmpMessage f h st' s'"
  by (subst cycleRecvRtmpMessage.simps) simp

lemma cycle_Some:
  "recv_chunk st s = Ok (st', Some m, s') \<Longrightarrow> cycleRecvRtmpMessage f h st s = deliver f h m st' s'"
  by (subst cycleRecvRtmpMessage.simps) (simp add: deliver_def)

definition chunk_message :: "rtmp_chunk \<Rightarrow> rtmp_message" where
  "chunk_message c =
     (case chunk_msg c of Some m \<Rightarrow> m | None \<Rightarrow> RtmpMessage_new (unat (hdr_length (chunk_hdr c))))"

lemma recv_assemble_any:
  fixes cid :: nat
  assumes ok: "chunk_ok c" and pos: "0 < sint (in_chunk_size st)"
    and big: "unat (hdr_length (chunk_hdr c)) < 2 * 1024 * 1024"
    and p: "length (msg_payload (chunk_message c)) + length p = unat (hdr_length (chunk_hdr c))"
    and k: "k = nat (sint (in_chunk_size st))"
  defines "m \<equiv> (chunk_message c)\<lparr>msg_payload := msg_payload (chunk_message c) @ take k p\<rparr>"
  defines "M \<equiv> fill_message cid (chunk_hdr c) m"
  shows "recv_assemble cid c st (take k p @ s) =
    (if length p \<le> k
     then obind (recv_complete cid M (st\<lparr>recv_chunk_streams :=
            (recv_chunk_streams st)(cid \<mapsto> c\<lparr>chunk_msg := Some M\<rparr>)\<rparr>)) (\<lambda>(st, d). Ok (st, d, s))
     else Ok (st\<lparr>recv_chunk_streams := (recv_chunk_streams st)(cid \<mapsto> c\<lparr>chunk_msg := Some m\<rparr>)\<rparr>, None, s))"
proof -
  let ?len = "hdr_length (chunk_hdr c)"
  have sl: "sint ?len = int (unat ?len)" using big by (intro sint_small_u32) simp
  have cm: "(case chunk_msg c of Some m \<Rightarrow> m | None \<Rightarrow> RtmpMessage_new (nat (sint ?len))) = chunk_message c"
    unfolding sl nat_int chunk_message_def ..
  have room: "msg_room (chunk_message c) = unat ?len"
    "length (msg_payload (chunk_message c)) \<le> msg_room (chunk_message c)"
    using ok by (auto simp: chunk_message_def chunk_ok_def RtmpMessage_new_def split: option.splits)
  have n: "nat (this_chunk_payload_size (in_chunk_size st) ?len (chunk_message c)) = min k (length p)"
    unfolding this_chunk_payload_size_def sl p [symmetric] k using pos by simp
  have "recv_payload (in_chunk_size st) ?len (chunk_message c) (take k p @ s) = Ok (m, s)"
    using recv_payload_ok(1) [OF _ _ room, of "in_chunk_size st" "take k p @ s"] pos big
    by (simp add: n m_def)
  moreover have "int (length (msg_payload m)) = sint ?len \<longleftrightarrow> length p \<le> k"
    unfolding sl p [symmetric] of_nat_eq_iff by (auto simp: m_def)
  moreover have "\<not> 2 * 1024 * 1024 \<le> sint ?len" "\<not> sint ?len < 0"
    unfolding sl using big by linarith+
  ultimately show ?thesis
    unfolding recv_assemble_def Let_def cm by (auto simp: M_def)
qed


lemma recv_assemble_part:
  fixes cid :: nat
  assumes ok: "chunk_ok c" and pos: "0 < sint (in_chunk_size st)"
    and big: "unat (hdr_length (chunk_hdr c)) < 2 * 1024 * 1024"
    and p: "length (msg_payload (chunk_message c)) + length p = unat (hdr_length (chunk_hdr c))"
    and k: "k = nat (sint (in_chunk_size st))"
    and ty: "hdr_type (chunk_hdr c) \<notin> {RTMP_MESSAGE_TYPE_SET_CHUNK_SIZE, RTMP_MESSAGE_TYPE_ABORT_MESSAGE}"
  defines "m \<equiv> (chunk_message c)\<lparr>msg_payload := msg_payload (chunk_message c) @ take k p\<rparr>"
  defines "M \<equiv> fill_message cid (chunk_hdr c) m"
  shows "recv_assemble cid c st (take k p @ s) =
    (if length p \<le> k
     then Ok (reset_message cid (st\<lparr>recv_chunk_streams :=
            (recv_chunk_streams st)(cid \<mapsto> c\<lparr>chunk_msg := Some M\<rparr>)\<rparr>), Some M, s)
     else Ok (st\<lparr>recv_chunk_streams := (recv_chunk_streams st)(cid \<mapsto> c\<lparr>chunk_msg := Some m\<rparr>)\<rparr>, None, s))"
proof -
  have "msg_type M = hdr_type (chunk_hdr c)" by (simp add: M_def fill_message_def)
  then show ?thesis
    using recv_assemble_any [OF ok pos big p k, of cid s] ty
    unfolding m_def [symmetric] M_def [symmetric] by (auto simp: recv_complete_def)
qed

lemma recv_chunk_type3:
  assumes wf: "recv_wf st" and csid: "2 \<le> unat csid" "unat csid < 64"
    and c: "recv_chunk_streams st (unat csid) = Some c"
  obtains c' cache where
    "recv_chunk st (basic_header 3 csid # s) = recv_assemble (unat csid) c' (st\<lparr>recv_chunk_cache := cache\<rparr>) s"
    "chunk_hdr c' = chunk_hdr c" "chunk_msg c' = chunk_msg c" "recv_wf (st\<lparr>recv_chunk_cache := cache\<rparr>)"
proof -
  let ?c = "case recv_chunk_cache st (unat csid) of Some c \<Rightarrow> c | None \<Rightarrow> RtmpChunk_new"
  let ?c' = "?c\<lparr>chunk_hdr := chunk_hdr c, chunk_msg := chunk_msg c\<rparr>"
  let ?cache = "((recv_chunk_cache st)(unat csid := None))
      (unat csid \<mapsto> RtmpChunk_clear (c\<lparr>chunk_msg := None\<rparr>))"
  show thesis
  proof (rule that [of ?c' ?cache])
    show "recv_chunk st (basic_header 3 csid # s)
        = recv_assemble (unat csid) ?c' (st\<lparr>recv_chunk_cache := ?cache\<rparr>) s"
      using recv_basic_header_one_byte [OF csid, of 3 s] c
      by (simp add: recv_chunk_def recv_message_header_def RtmpChunk_assign_def)
    show "recv_wf (st\<lparr>recv_chunk_cache := ?cache\<rparr>)" using wf by (auto simp: recv_wf_def)
  qed simp_all
qed

lemma reset_message_upd_wf:
  assumes "recv_wf st" "unat (hdr_length (chunk_hdr c)) < 2 ^ 24"
  shows "recv_wf (reset_message cid (st\<lparr>recv_chunk_streams := (recv_chunk_streams st)(cid \<mapsto> c)\<rparr>))"
  using assms(1) chunk_ok_reset [OF assms(2)] by (auto simp: reset_message_def recv_wf_def)

lemma cycle_chunked:
  assumes "recv_wf st" "0 < sint (in_chunk_size st)" "k = nat (sint (in_chunk_size st))"
    and csid: "2 \<le> unat csid" "unat csid < 64"
    and c: "recv_chunk_streams st (unat csid) = Some c" "chunk_msg c = Some m" "p \<noteq> []"
    and len: "length (msg_payload m) + length p = unat (hdr_length (chunk_hdr c))"
      "unat (hdr_length (chunk_hdr c)) < 2 * 1024 * 1024"
    and ty: "hdr_type (chunk_hdr c) \<notin> {RTMP_MESSAGE_TYPE_SET_CHUNK_SIZE, RTMP_MESSAGE_TYPE_ABORT_MESSAGE}"
  shows "\<exists>st'. recv_wf st' \<and> in_chunk_size st' = in_chunk_size st \<and>
    cycleRecvRtmpMessage f h st (chunked k [basic_header 3 csid] [basic_header 3 csid] p @ s) =
      deliver f h (fill_message (unat csid) (chunk_hdr c) (m\<lparr>msg_payload := msg_payload m @ p\<rparr>)) st' s"
  using assms
proof (induction p arbitrary: st c m rule: measure_induct_rule [of length])
  case (less p)
  let ?h3 = "[basic_header 3 csid]"
  have k0: "0 < k" using less.prems(2,3) by simp
  let ?rest = "chunked k ?h3 ?h3 (drop k p) @ s"
  have ch: "chunked k ?h3 ?h3 p @ s = basic_header 3 csid # take k p @ ?rest"
    using k0 less.prems(8) by (subst chunked.simps) simp
  obtain c' cache where c': "recv_chunk st (basic_header 3 csid # take k p @ ?rest)
      = recv_assemble (unat csid) c' (st\<lparr>recv_chunk_cache := cache\<rparr>) (take k p @ ?rest)"
    "chunk_hdr c' = chunk_hdr c" "chunk_msg c' = chunk_msg c" "recv_wf (st\<lparr>recv_chunk_cache := cache\<rparr>)"
    by (rule recv_chunk_type3 [OF less.prems(1,4,5,6)])
  let ?st = "st\<lparr>recv_chunk_cache := cache\<rparr>"
  have cm: "chunk_message c' = m" using c'(3) less.prems(7) by (simp add: chunk_message_def)
  have "chunk_ok c" using less.prems(1,6) by (auto simp: recv_wf_def)
  then have ok: "chunk_ok c'" unfolding chunk_ok_def c'(2) c'(3) .
  note part = recv_assemble_part [OF ok, of ?st p k "unat csid" ?rest, unfolded cm c'(2)]
  let ?m = "m\<lparr>msg_payload := msg_payload m @ take k p\<rparr>"
  show ?case
  proof (cases "length p \<le> k")
    case True
    let ?M = "fill_message (unat csid) (chunk_hdr c) ?m"
    let ?st' = "reset_message (unat csid) (?st\<lparr>recv_chunk_streams :=
        (recv_chunk_streams ?st)(unat csid \<mapsto> c'\<lparr>chunk_msg := Some ?M\<rparr>)\<rparr>)"
    have "recv_chunk st (chunked k ?h3 ?h3 p @ s) = Ok (?st', Some ?M, s)"
      unfolding ch c'(1) using part True less.prems by (simp add: chunked.simps)
    then have "cycleRecvRtmpMessage f h st (chunked k ?h3 ?h3 p @ s) = deliver f h ?M ?st' s"
      by (rule cycle_Some)
    moreover have "recv_wf ?st'"
      using c'(4) by (rule reset_message_upd_wf) (use less.prems(10) c'(2) in simp)
    ultimately show ?thesis using True by (intro exI [of _ ?st']) (simp add: reset_message_def)
  next
    case False
    let ?c = "c'\<lparr>chunk_msg := Some ?m\<rparr>"
    let ?st' = "?st\<lparr>recv_chunk_streams := (recv_chunk_streams ?st)(unat csid \<mapsto> ?c)\<rparr>"
    have "recv_chunk st (chunked k ?h3 ?h3 p @ s) = Ok (?st', None, ?rest)"
      unfolding ch c'(1) using part False less.prems by simp
    then have "cycleRecvRtmpMessage f h st (chunked k ?h3 ?h3 p @ s)
        = cycleRecvRtmpMessage f h ?st' ?rest" by (rule cycle_None)
    moreover have "\<exists>st'. recv_wf st' \<and> in_chunk_size st' = in_chunk_size ?st' \<and>
        cycleRecvRtmpMessage f h ?st' ?rest = deliver f h (fill_message (unat csid) (chunk_hdr ?c)
          (?m\<lparr>msg_payload := msg_payload ?m @ drop k p\<rparr>)) st' s"
    proof (rule less.IH)
      have "chunk_ok ?c"
        using ok c'(2,3) less.prems(7,9,10) False by (simp add: chunk_ok_def)
      then show "recv_wf ?st'" using c'(4) by (auto simp: recv_wf_def)
    qed (use k0 False less.prems c'(2) in auto)
    ultimately show ?thesis by (simp add: c'(2))
  qed
qed


text \<open>A whole message: a type-0 header and the payload in chunks.\<close>

definition type0_header :: "rtmp_message \<Rightarrow> bytes" where
  "type0_header m =
     basic_header 0 (msg_csid m) # be 3 (unat (msg_timestamp m)) @ be 3 (length (msg_payload m))
       @ [msg_type m] @ be 4 (unat (msg_stream_id m))"

definition message_wire :: "nat \<Rightarrow> rtmp_message \<Rightarrow> bytes" where
  "message_wire k m = chunked k (type0_header m) [basic_header 3 (msg_csid m)] (msg_payload m)"

text \<open>The messages the chunk layer carries faithfully, and those of them that reach the handler.\<close>

definition frame_ok :: "rtmp_message \<Rightarrow> bool" where
  "frame_ok m \<longleftrightarrow> 2 \<le> unat (msg_csid m) \<and> unat (msg_csid m) < 64 \<and> unat (msg_timestamp m) < 0xffffff
     \<and> msg_payload m \<noteq> [] \<and> length (msg_payload m) < 2 * 1024 * 1024
     \<and> msg_room m = length (msg_payload m)"

definition message_ok :: "rtmp_message \<Rightarrow> bool" where
  "message_ok m \<longleftrightarrow> frame_ok m
     \<and> msg_type m \<notin> {RTMP_MESSAGE_TYPE_SET_CHUNK_SIZE, RTMP_MESSAGE_TYPE_ABORT_MESSAGE}"

definition message_header :: "rtmp_message \<Rightarrow> chunk_message_header" where
  "message_header m = \<lparr>hdr_timestamp = msg_timestamp m, hdr_length = of_nat (length (msg_payload m)),
     hdr_type = msg_type m, hdr_stream_id = msg_stream_id m\<rparr>"

lemma recv_chunk_type0:
  assumes wf: "recv_wf st" and m: "frame_ok m"
  obtains c cache where
    "recv_chunk st (type0_header m @ s) = recv_assemble (unat (msg_csid m)) c (st\<lparr>recv_chunk_cache := cache\<rparr>) s"
    "chunk_hdr c = message_header m" "chunk_msg c = None" "recv_wf (st\<lparr>recv_chunk_cache := cache\<rparr>)"
proof -
  let ?cid = "unat (msg_csid m)"
  let ?c = "case recv_chunk_cache st ?cid of Some c \<Rightarrow> c | None \<Rightarrow> RtmpChunk_new"
  let ?cache = "case recv_chunk_streams st ?cid of None \<Rightarrow> (recv_chunk_cache st)(?cid := None)
      | Some p \<Rightarrow> ((recv_chunk_cache st)(?cid := None))(?cid \<mapsto> RtmpChunk_clear p)"
  let ?c' = "?c\<lparr>chunk_hdr := message_header m\<rparr>"
  have blank: "chunk_blank ?c" using wf by (auto simp: recv_wf_def split: option.splits)
  have ts: "unat (msg_timestamp m) < 256 ^ 3" "length (msg_payload m) < 256 ^ 3"
    using m by (simp_all add: frame_ok_def)
  have ne: "msg_timestamp m \<noteq> 0xffffff" using m by (auto simp: frame_ok_def)
  have h0: "recv_message_header_type0 ?c (be 3 (unat (msg_timestamp m)) @ be 3 (length (msg_payload m))
      @ [msg_type m] @ be 4 (unat (msg_stream_id m)) @ s) = Ok (?c', s)"
    using blank ts ne
    by (simp add: recv_message_header_type0_def set_low3_small chunk_blank_def zero_hdr_def message_header_def
        recv_or_append [of "[_]" "Suc 0", simplified] del: append_Cons)
  have bh: "recv_basic_header (type0_header m @ s) = Ok (0, ?cid, be 3 (unat (msg_timestamp m))
      @ be 3 (length (msg_payload m)) @ [msg_type m] @ be 4 (unat (msg_stream_id m)) @ s)"
    using m recv_basic_header_one_byte [of "msg_csid m" 0] by (simp add: type0_header_def frame_ok_def)
  show thesis
  proof (rule that [of ?c' ?cache])
    show "recv_chunk st (type0_header m @ s)
        = recv_assemble ?cid ?c' (st\<lparr>recv_chunk_cache := ?cache\<rparr>) s"
      unfolding recv_chunk_def bh by (simp add: recv_message_header_def h0 [simplified] Let_def)
    show "chunk_msg ?c' = None" using blank by (simp add: chunk_blank_def)
    show "recv_wf (st\<lparr>recv_chunk_cache := ?cache\<rparr>)"
      using wf by (auto simp: recv_wf_def split: option.splits if_splits)
  qed simp
qed

lemma unat_of_nat_length_small:
  "length xs < 2 * 1024 * 1024 \<Longrightarrow> unat (of_nat (length xs) :: u32) = length xs"
proof -
  assume "length xs < 2 * 1024 * 1024"
  then have "length xs < 2 ^ 32" by simp
  then have "length xs mod 2 ^ 32 = length xs" by (rule mod_less)
  then show ?thesis by (simp add: unat_of_nat)
qed

lemma fill_message_header:
  "frame_ok m \<Longrightarrow> m' = (RtmpMessage_new (length (msg_payload m)))\<lparr>msg_payload := msg_payload m\<rparr> \<Longrightarrow>
     fill_message (unat (msg_csid m)) (message_header m) m' = m"
  by (simp add: fill_message_def message_header_def RtmpMessage_new_def frame_ok_def)

lemma cycle_message:
  assumes wf: "recv_wf st" and m: "message_ok m"
    and k: "0 < sint (in_chunk_size st)" "k = nat (sint (in_chunk_size st))"
  shows "\<exists>st'. recv_wf st' \<and> in_chunk_size st' = in_chunk_size st \<and>
    cycleRecvRtmpMessage f h st (message_wire k m @ s) = deliver f h m st' s"
proof -
  let ?cid = "unat (msg_csid m)" and ?p = "msg_payload m" and ?h3 = "[basic_header 3 (msg_csid m)]"
  let ?rest = "chunked k ?h3 ?h3 (drop k ?p) @ s"
  have mok: "2 \<le> ?cid" "?cid < 64" "?p \<noteq> []" "length ?p < 2 * 1024 * 1024"
    "msg_type m \<notin> {RTMP_MESSAGE_TYPE_SET_CHUNK_SIZE, RTMP_MESSAGE_TYPE_ABORT_MESSAGE}"
    using m by (auto simp: message_ok_def frame_ok_def)
  have fm: "frame_ok m" using m by (simp add: message_ok_def)
  have k0: "0 < k" using k by simp
  have w: "message_wire k m @ s = type0_header m @ take k ?p @ ?rest"
    unfolding message_wire_def using k0 mok(3) by (subst chunked.simps) simp
  obtain c cache where c: "recv_chunk st (type0_header m @ take k ?p @ ?rest)
      = recv_assemble ?cid c (st\<lparr>recv_chunk_cache := cache\<rparr>) (take k ?p @ ?rest)"
    "chunk_hdr c = message_header m" "chunk_msg c = None" "recv_wf (st\<lparr>recv_chunk_cache := cache\<rparr>)"
    by (rule recv_chunk_type0 [OF wf fm])
  let ?st = "st\<lparr>recv_chunk_cache := cache\<rparr>"
  have len: "unat (hdr_length (chunk_hdr c)) = length ?p"
    unfolding c(2) message_header_def using unat_of_nat_length_small [OF mok(4)] by simp
  have cm: "chunk_message c = RtmpMessage_new (length ?p)"
    using c(3) len by (simp add: chunk_message_def)
  have ok: "chunk_ok c" unfolding chunk_ok_def len c(3) using mok(4) by simp
  let ?m = "(RtmpMessage_new (length ?p))\<lparr>msg_payload := take k ?p\<rparr>"
  have part: "recv_assemble ?cid c ?st (take k ?p @ ?rest) =
    (if length ?p \<le> k
     then Ok (reset_message ?cid (?st\<lparr>recv_chunk_streams := (recv_chunk_streams ?st)
           (?cid \<mapsto> c\<lparr>chunk_msg := Some (fill_message ?cid (message_header m) ?m)\<rparr>)\<rparr>),
           Some (fill_message ?cid (message_header m) ?m), ?rest)
     else Ok (?st\<lparr>recv_chunk_streams :=
           (recv_chunk_streams ?st)(?cid \<mapsto> c\<lparr>chunk_msg := Some ?m\<rparr>)\<rparr>, None, ?rest))"
    using recv_assemble_part [OF ok, of ?st ?p k ?cid ?rest] k mok(4,5) len
    by (simp add: cm c(2) RtmpMessage_new_def message_header_def)
  show ?thesis
  proof (cases "length ?p \<le> k")
    case True
    let ?st' = "reset_message ?cid (?st\<lparr>recv_chunk_streams :=
        (recv_chunk_streams ?st)(?cid \<mapsto> c\<lparr>chunk_msg := Some m\<rparr>)\<rparr>)"
    have "fill_message ?cid (message_header m) ?m = m" using True by (intro fill_message_header [OF fm]) simp
    then have "recv_chunk st (message_wire k m @ s) = Ok (?st', Some m, s)"
      unfolding w c(1) part using True by (simp add: chunked.simps)
    then have "cycleRecvRtmpMessage f h st (message_wire k m @ s) = deliver f h m ?st' s"
      by (rule cycle_Some)
    moreover have "recv_wf ?st'" using c(4) by (rule reset_message_upd_wf) (use len mok(4) in simp)
    ultimately show ?thesis by (intro exI [of _ ?st']) (simp add: reset_message_def)
  next
    case False
    let ?c = "c\<lparr>chunk_msg := Some ?m\<rparr>"
    let ?st' = "?st\<lparr>recv_chunk_streams := (recv_chunk_streams ?st)(?cid \<mapsto> ?c)\<rparr>"
    have "cycleRecvRtmpMessage f h st (message_wire k m @ s) = cycleRecvRtmpMessage f h ?st' ?rest"
      unfolding w using c(1) part False by (intro cycle_None) simp
    moreover have "\<exists>st'. recv_wf st' \<and> in_chunk_size st' = in_chunk_size ?st' \<and>
        cycleRecvRtmpMessage f h ?st' ?rest = deliver f h (fill_message ?cid (chunk_hdr ?c)
          (?m\<lparr>msg_payload := msg_payload ?m @ drop k ?p\<rparr>)) st' s"
    proof (rule cycle_chunked)
      have "chunk_ok ?c"
        using len mok(4) False by (simp add: chunk_ok_def RtmpMessage_new_def)
      then show "recv_wf ?st'" using c(4) by (auto simp: recv_wf_def)
    qed (use k mok False len c(2) in \<open>auto simp: message_header_def\<close>)
    moreover have "fill_message ?cid (chunk_hdr ?c) (?m\<lparr>msg_payload := msg_payload ?m @ drop k ?p\<rparr>) = m"
      by (simp add: c(2) fill_message_header [OF fm refl])
    ultimately show ?thesis by simp
  qed
qed

text \<open>A SET_CHUNK_SIZE message that fits into one chunk changes the chunk size and reaches nobody.\<close>

lemma cycle_set_chunk_size:
  assumes wf: "recv_wf st" and k: "4 \<le> sint (in_chunk_size st)" and n: "0 \<le> sint n"
    and four: "4 \<le> k"
  shows "\<exists>st'. recv_wf st' \<and> in_chunk_size st' = n \<and>
    cycleRecvRtmpMessage f h st (message_wire k (RtmpSetChunkSizeMessage_encode n) @ s)
      = cycleRecvRtmpMessage f h st' s"
proof -
  let ?m = "RtmpSetChunkSizeMessage_encode n"
  let ?p = "msg_payload ?m"
  have fm: "frame_ok ?m" and lp: "length ?p = 4" "?p \<noteq> []" and mt: "msg_type ?m = RTMP_MESSAGE_TYPE_SET_CHUNK_SIZE"
    by (auto simp: frame_ok_def RtmpSetChunkSizeMessage_encode_def server_message_def
        simp flip: length_greater_0_conv)
  have w: "message_wire k ?m @ s = type0_header ?m @ take (nat (sint (in_chunk_size st))) ?p @ s"
    using four k lp by (simp add: message_wire_def chunked_one)
  obtain c cache where c: "recv_chunk st (type0_header ?m @ take (nat (sint (in_chunk_size st))) ?p @ s)
      = recv_assemble (unat (msg_csid ?m)) c (st\<lparr>recv_chunk_cache := cache\<rparr>)
          (take (nat (sint (in_chunk_size st))) ?p @ s)"
    "chunk_hdr c = message_header ?m" "chunk_msg c = None" "recv_wf (st\<lparr>recv_chunk_cache := cache\<rparr>)"
    by (rule recv_chunk_type0 [OF wf fm])
  let ?cid = "unat (msg_csid ?m)" and ?st = "st\<lparr>recv_chunk_cache := cache\<rparr>"
  have len: "unat (hdr_length (chunk_hdr c)) = 4" unfolding c(2) message_header_def lp(1) by simp
  have cm: "chunk_message c = RtmpMessage_new (length ?p)" using c(3) len lp(1) by (simp add: chunk_message_def)
  have ok: "chunk_ok c" unfolding chunk_ok_def len c(3) by simp
  have t: "take (nat (sint (in_chunk_size st))) ?p = ?p" using k lp(1) by simp
  let ?st1 = "?st\<lparr>recv_chunk_streams := (recv_chunk_streams ?st)(?cid \<mapsto> c\<lparr>chunk_msg := Some ?m\<rparr>)\<rparr>"
  have M: "fill_message ?cid (chunk_hdr c) ((chunk_message c)\<lparr>msg_payload := msg_payload (chunk_message c)
      @ take (nat (sint (in_chunk_size st))) ?p\<rparr>) = ?m"
    unfolding c(2) cm t by (intro fill_message_header [OF fm]) (simp add: RtmpMessage_new_def)
  have "recv_assemble ?cid c ?st (take (nat (sint (in_chunk_size st))) ?p @ s)
      = obind (recv_complete ?cid ?m ?st1) (\<lambda>(st, d). Ok (st, d, s))"
    by (subst recv_assemble_any [OF ok, where k = "nat (sint (in_chunk_size st))"], unfold M)
      (use k len lp(1) in \<open>auto simp: cm RtmpMessage_new_def\<close>)
  also have "\<dots> = Ok (reset_message ?cid (?st1\<lparr>in_chunk_size := n\<rparr>), None, s)"
    using set_chunk_size.dec_enc [of n] mt by (simp add: recv_complete_def handleSetChunkSize_def)
  finally have "recv_chunk st (message_wire k ?m @ s) = Ok (reset_message ?cid (?st1\<lparr>in_chunk_size := n\<rparr>), None, s)"
    unfolding w c(1) .
  then have "cycleRecvRtmpMessage f h st (message_wire k ?m @ s)
      = cycleRecvRtmpMessage f h (reset_message ?cid (?st1\<lparr>in_chunk_size := n\<rparr>)) s"
    by (rule cycle_None)
  moreover have "recv_wf (reset_message ?cid (?st1\<lparr>in_chunk_size := n\<rparr>))"
    using c(4) n chunk_ok_reset [of c] len by (auto simp: recv_wf_def reset_message_def)
  ultimately show ?thesis
    by (intro exI [of _ "reset_message ?cid (?st1\<lparr>in_chunk_size := n\<rparr>)"]) (simp add: reset_message_def)
qed

text \<open>Messages that fit into one chunk look the same for every chunk size.\<close>

lemma message_wire_one_chunk:
  "length (msg_payload m) \<le> k \<Longrightarrow> length (msg_payload m) \<le> k' \<Longrightarrow> 0 < k \<Longrightarrow> 0 < k' \<Longrightarrow>
     message_wire k m = message_wire k' m"
  by (simp add: message_wire_def chunked_one)

text \<open>The handler that keeps what it is given.\<close>

definition collect :: "rtmp_message list \<Rightarrow> rtmp_message \<Rightarrow> bool \<times> rtmp_message list" where
  "collect ms m = (True, ms @ [m])"

lemma cycle_messages:
  assumes "recv_wf st" "\<forall>m \<in> set ms. message_ok m"
    and "0 < sint (in_chunk_size st)" "k = nat (sint (in_chunk_size st))"
  shows "\<exists>st'. recv_wf st' \<and> in_chunk_size st' = in_chunk_size st \<and>
    cycleRecvRtmpMessage collect acc st (concat (map (message_wire k) ms) @ s)
      = cycleRecvRtmpMessage collect (acc @ ms) st' s"
  using assms
proof (induction ms arbitrary: acc st)
  case Nil
  then show ?case by auto
next
  case (Cons m ms)
  let ?w = "concat (map (message_wire k) ms) @ s"
  obtain st1 where st1: "recv_wf st1" "in_chunk_size st1 = in_chunk_size st"
    "cycleRecvRtmpMessage collect acc st (message_wire k m @ ?w) = deliver collect acc m st1 ?w"
    using cycle_message [of st m k collect acc ?w] Cons.prems by auto
  moreover have "deliver collect acc m st1 ?w = cycleRecvRtmpMessage collect (acc @ [m]) st1 ?w"
    by (simp add: deliver_def collect_def)
  ultimately show ?case
    using Cons.IH [of st1 "acc @ [m]"] Cons.prems by auto
qed

lemma cycle_end: "cycleRecvRtmpMessage f h st [] = (Returned (-1), h)"
  by (subst cycleRecvRtmpMessage.simps)
    (simp add: recv_chunk_def recv_basic_header_def recv_or_def stream_recv_def)


section \<open>Properties\<close>

text \<open>A peer that never sends a new message length inside a message and never sets a negative
  chunk size.\<close>

function polite :: "chunk_recv \<Rightarrow> bytes \<Rightarrow> bool" where
  "polite st s = (\<not> relengths_message st s \<and>
     (case recv_chunk st s of
        Ok (st', _, s') \<Rightarrow> 0 \<le> sint (in_chunk_size st') \<and> polite st' s'
      | _ \<Rightarrow> True))"
  by pat_completeness auto
termination
  by (relation "measure (\<lambda>(_, s). length s)") (auto dest: recv_chunk_shorter)

declare polite.simps [simp del]

lemma polite_cycle:
  "recv_wf st \<Longrightarrow> polite st s \<Longrightarrow> fst (cycleRecvRtmpMessage f h st s) \<noteq> Crashed"
proof (induction s arbitrary: st h rule: measure_induct_rule [of length])
  case (less s)
  note unf = cycleRecvRtmpMessage.simps [of f h st s]
  have nr: "\<not> relengths_message st s" using less.prems(2) polite.simps [of st s] by simp
  show ?case
  proof (cases "recv_chunk st s")
    case Fault
    then show ?thesis using recv_chunk_safe(1) [OF less.prems(1) nr] by simp
  next
    case (Err c)
    then show ?thesis by (simp add: unf)
  next
    case (Ok x)
    obtain st' d r where x: "x = (st', d, r)" by (cases x)
    from Ok x have st': "streams_ok st'" using recv_chunk_safe(2) [OF less.prems(1) nr] by blast
    from less.prems(2) Ok x have "0 \<le> sint (in_chunk_size st')" "polite st' r"
      using polite.simps [of st s] by simp_all
    with st' have IH: "fst (cycleRecvRtmpMessage f h' st' r) \<noteq> Crashed" for h'
      using less.IH [of r st'] recv_chunk_shorter [of st s st' d r] Ok x
      by (simp add: recv_wf_streams)
    then show ?thesis using Ok x by (auto simp: unf split: option.splits prod.splits bool.splits)
  qed
qed

text \<open>Claim C3: Whatever bytes the peer sends, the receive loop never writes outside the message
  buffer it allocated, provided the peer never sends a type-1 chunk in the middle of a message
  and never sets a negative chunk size.\<close>

theorem chunk_recv_memory_safe:
  "polite chunk_recv_init s \<Longrightarrow> fst (cycleRecvRtmpMessage f h chunk_recv_init s) \<noteq> Crashed"
  by (rule polite_cycle [OF recv_wf_init])

text \<open>A SET_CHUNK_SIZE message for chunk size \<open>n\<close>, and a one-message exchange under chunk size 1.\<close>

definition set_chunk_size_bytes :: "bytes \<Rightarrow> bytes" where
  "set_chunk_size_bytes n = [0x02, 0, 0, 0, 0, 0, 4, 1, 0, 0, 0, 0] @ n"

theorem chunk_recv_memory_safe_witness:
  "fst (cycleRecvRtmpMessage collect [] chunk_recv_init
     (set_chunk_size_bytes [0, 0, 0, 1] @ [0x03, 0, 0, 0, 0, 0, 2, 8, 0, 0, 0, 0, 7, 0xc3, 8]))
   \<noteq> Crashed"
  by (rule chunk_recv_memory_safe) code_simp


text \<open>Chunks of different chunk streams do not disturb each other: whatever a chunk on stream
  \<open>cid\<close> does, the message under assembly on another stream is untouched, unless the chunk completes
  an abort message, which drops that stream.\<close>

theorem chunk_streams_isolated:
  assumes "recv_basic_header s = Ok (fmt, cid, u)" "recv_chunk st s = Ok (st', d, r)" "other \<noteq> cid"
  shows "recv_chunk_streams st' other = recv_chunk_streams st other
    \<or> recv_chunk_streams st' other = None \<and> d = None"
  using assms
  by (auto simp: recv_chunk_def obind_Ok_iff Let_def recv_assemble_def recv_complete_def
      handleSetChunkSize_def handleAbort_def reset_message_def
      split: if_splits option.splits outcome.splits)

theorem chunk_streams_isolated_witness:
  "(\<exists>st' d r. recv_chunk chunk_recv_init [0x03, 0, 0, 0, 0, 0, 1, 8, 0, 0, 0, 0, 7] = Ok (st', d, r)
     \<and> (recv_chunk_streams st' 4 = recv_chunk_streams chunk_recv_init 4
        \<or> recv_chunk_streams st' 4 = None \<and> d = None))"
proof -
  have b: "recv_basic_header [0x03, 0, 0, 0, 0, 0, 1, 8, 0, 0, 0, 0, 7]
      = Ok (0, 3, [0, 0, 0, 0, 0, 1, 8, 0, 0, 0, 0, 7])" by code_simp
  have "case recv_chunk chunk_recv_init [0x03, 0, 0, 0, 0, 0, 1, 8, 0, 0, 0, 0, 7] of
      Ok _ \<Rightarrow> True | _ \<Rightarrow> False" by code_simp
  then obtain st' d r where
    "recv_chunk chunk_recv_init [0x03, 0, 0, 0, 0, 0, 1, 8, 0, 0, 0, 0, 7] = Ok (st', d, r)"
    by (cases "recv_chunk chunk_recv_init [0x03, 0, 0, 0, 0, 0, 1, 8, 0, 0, 0, 0, 7]") auto
  then show ?thesis using chunk_streams_isolated [OF b, of chunk_recv_init st' d r 4] by auto
qed

text \<open>The two-byte form of the chunk stream id is not decoded: whatever the second byte says,
  the chunk is filed under stream 0, so all streams 64..319 of a peer share one assembly slot.\<close>

theorem two_byte_chunk_ids_collapse:
  assumes "d AND 0x3f = 0"
  shows "recv_basic_header (d # e # s) = Ok (unat (drop_bit 6 d AND 0x03), 0, s)"
  using assms by (simp add: recv_basic_header_def recv_or_def stream_recv_def)

theorem two_byte_chunk_ids_collapse_witness:
  "recv_basic_header [0x00, 36, 5] = Ok (0, 0, [5]) \<and> recv_basic_header [0x00, 37, 5] = Ok (0, 0, [5])"
  using two_byte_chunk_ids_collapse [of 0 36 "[5]"] two_byte_chunk_ids_collapse [of 0 37 "[5]"] by simp

end
