(* ===== verification/Rtmp_Chunk_Send.thy ===== *)
theory Rtmp_Chunk_Send
  imports Rtmp_Chunk_Recv
begin

text \<open>
  The sending half of \<open>RtmpChunkProtocol\<close>
  (\<open>src/server/rtmp/rtmp_protocol/rtmp_chunk_protocol.cpp\<close> and \<open>.hpp\<close>): \<open>_sendRtmpMessage\<close>, which
  cuts a message into chunks and writes them to the connection, and the queue of messages with
  the \<open>sending_\<close> flag that serialises the writers of one connection.

  \<open>_sendRtmpMessage\<close> is a \<open>partial_function\<close>: with an output chunk size of 0 its loop never ends
  (\<open>None\<close>); it is proved to return for every positive chunk size.
\<close>

section \<open>Sending one message\<close>

text \<open>A sequence of \<open>conn_->send\<close> calls, each followed by \<^verbatim>\<open>return false\<close> on failure.\<close>

fun conn_send :: "bytes list \<Rightarrow> tcp_socket \<Rightarrow> bool \<times> tcp_socket" where
  "conn_send [] s = (True, s)"
| "conn_send (b # bs) s =
     (case TcpSocket_send b s of (False, s) \<Rightarrow> (False, s) | (True, s) \<Rightarrow> conn_send bs s)"

text \<open>The format chosen from the previous chunk of the stream, which the code then overrides.\<close>

definition select_fmt :: "rtmp_message option \<Rightarrow> rtmp_message \<Rightarrow> bool \<Rightarrow> nat \<Rightarrow> nat" where
  "select_fmt prev m first_pkt fmt =
     (let fmt = (case prev of
          None \<Rightarrow> fmt
        | Some p \<Rightarrow>
            if msg_stream_id m = msg_stream_id p then
              if sint (msg_timestamp m) < sint (msg_timestamp p) then RTMP_FMT_TYPE0
              else if length (msg_payload m) = length (msg_payload p) then RTMP_FMT_TYPE2
              else RTMP_FMT_TYPE1
            else fmt) in
      if first_pkt then RTMP_FMT_TYPE0 else RTMP_FMT_TYPE3)"

text \<open>The basic header.  The chunk stream id is a single byte, so the three-byte form is never
  used; ids 0 and 1 get no basic header at all.\<close>

definition send_basic_header :: "nat \<Rightarrow> byte \<Rightarrow> bytes list" where
  "send_basic_header fmt csid =
     (if 2 \<le> unat csid \<and> unat csid \<le> 63 then
        [[push_bit 6 (of_nat fmt AND 0x03) OR (csid AND 0x3f)]]
      else if 64 \<le> unat csid \<and> unat csid \<le> 319 then
        [[push_bit 6 (of_nat fmt AND 0x03) OR 0x00, of_nat ((unat csid - 64) mod 256)]]
      else if 64 \<le> unat csid \<and> unat csid \<le> 65599 then
        [[push_bit 6 (of_nat fmt AND 0x03) OR 0x01, of_nat ((unat csid - 64) mod 256),
          of_nat ((unat csid - 64) div 256)]]
      else [])"

text \<open>The three low bytes of \<open>htonl\<close>: the field is written modulo \<open>2\<^sup>24\<close>.\<close>

definition send_message_header :: "nat \<Rightarrow> rtmp_message \<Rightarrow> rtmp_message option \<Rightarrow> bytes list" where
  "send_message_header fmt m prev =
     (let timestamp_delta = msg_timestamp m - (case prev of Some p \<Rightarrow> msg_timestamp p | None \<Rightarrow> 0) in
      if fmt = RTMP_FMT_TYPE0 then
        [be 3 (unat (msg_timestamp m AND 0xffffff)), be 3 (length (msg_payload m)), [msg_type m],
         be 4 (unat (msg_stream_id m))]
      else if fmt = RTMP_FMT_TYPE1 then
        [be 3 (unat timestamp_delta), be 3 (length (msg_payload m)), [msg_type m]]
      else if fmt = RTMP_FMT_TYPE2 then [be 3 (unat timestamp_delta)]
      else [])"

definition send_chunk_buffers ::
  "nat \<Rightarrow> rtmp_message \<Rightarrow> rtmp_message option \<Rightarrow> nat \<Rightarrow> nat \<Rightarrow> bytes list" where
  "send_chunk_buffers fmt m prev cur_pos n =
     send_basic_header fmt (msg_csid m) @ send_message_header fmt m prev
     @ (if 0x00ffffff \<le> sint (msg_timestamp m) then [be 4 (unat (msg_timestamp m))] else [])
     @ [take n (drop cur_pos (msg_payload m))]"

type_synonym send_streams = "byte \<rightharpoonup> rtmp_message"

partial_function (option) send_loop ::
  "nat \<Rightarrow> rtmp_message \<Rightarrow> bool \<Rightarrow> nat \<Rightarrow> nat \<Rightarrow> send_streams \<Rightarrow> tcp_socket
     \<Rightarrow> (bool \<times> send_streams \<times> tcp_socket) option" where
  "send_loop out_chunk_size m first_pkt fmt cur_pos streams conn =
     (let left_size = length (msg_payload m) - cur_pos in
      if 0 < left_size then
        let prev = streams (msg_csid m);
            fmt = select_fmt prev m first_pkt fmt;
            n = min out_chunk_size left_size in
        case conn_send (send_chunk_buffers fmt m prev cur_pos n) conn of
          (ok, conn) \<Rightarrow>
            if \<not> ok then Some (False, streams, conn)
            else send_loop out_chunk_size m False fmt (cur_pos + n) (streams(msg_csid m \<mapsto> m)) conn
      else Some (True, streams, conn))"

declare send_loop.simps [code]

definition sendRtmpMessage_sync ::
  "nat \<Rightarrow> rtmp_message \<Rightarrow> send_streams \<Rightarrow> tcp_socket \<Rightarrow> (bool \<times> send_streams \<times> tcp_socket) option" where
  "sendRtmpMessage_sync out_chunk_size m streams conn =
     send_loop out_chunk_size m True RTMP_FMT_TYPE0 0 streams conn"

section \<open>What is sent\<close>

lemma conn_send_spec:
  "conn_send bs s = (ok, s') \<Longrightarrow>
     \<exists>p q. concat bs = p @ q \<and> sent s' = sent s @ p \<and> (ok \<longrightarrow> q = [])"
proof (induction bs arbitrary: s)
  case Nil
  then show ?case by simp
next
  case (Cons b bs)
  obtain ok1 s1 where b: "TcpSocket_send b s = (ok1, s1)" by fastforce
  then obtain p1 q1 where 1: "b = p1 @ q1" "sent s1 = sent s @ p1" "ok1 \<longleftrightarrow> q1 = []"
    using TcpSocket_send_spec [of b s] by auto
  show ?case
  proof (cases ok1)
    case False
    with b Cons.prems 1 show ?thesis by auto
  next
    case True
    with b Cons.prems obtain p q where "concat bs = p @ q" "sent s' = sent s1 @ p" "ok \<longrightarrow> q = []"
      using Cons.IH [of s1] by auto
    with True 1 show ?thesis by (intro exI [of _ "b @ p"] exI [of _ q]) auto
  qed
qed

text \<open>All the bytes of a message, as the loop writes them.\<close>

definition send_head :: "nat \<Rightarrow> rtmp_message \<Rightarrow> bytes" where
  "send_head fmt m = concat (send_basic_header fmt (msg_csid m) @ send_message_header fmt m None
     @ (if 0x00ffffff \<le> sint (msg_timestamp m) then [be 4 (unat (msg_timestamp m))] else []))"

lemma send_chunk_buffers_head:
  "fmt \<in> {0, 3} \<Longrightarrow>
     concat (send_chunk_buffers fmt m prev pos n) = send_head fmt m @ take n (drop pos (msg_payload m))"
  by (auto simp: send_chunk_buffers_def send_head_def send_message_header_def Let_def)

lemma send_loop_spec:
  assumes "0 < k"
  shows "\<exists>ok streams' conn'. send_loop k m first_pkt fmt pos streams conn = Some (ok, streams', conn') \<and>
    (\<exists>p q. chunked k (send_head (if first_pkt then 0 else 3) m) (send_head 3 m) (drop pos (msg_payload m)) = p @ q
       \<and> sent conn' = sent conn @ p \<and> (ok \<longrightarrow> q = []))"
proof (induction "length (msg_payload m) - pos" arbitrary: first_pkt fmt pos streams conn
    rule: less_induct)
  case less
  let ?left = "length (msg_payload m) - pos"
  show ?case
  proof (cases "0 < ?left")
    case False
    then show ?thesis by (subst send_loop.simps) (auto simp: chunked.simps)
  next
    case True
    let ?f = "if first_pkt then 0 else 3" and ?n = "min k ?left"
    have fmt: "select_fmt (streams (msg_csid m)) m first_pkt fmt = ?f"
      by (simp add: select_fmt_def)
    obtain ok1 conn1 where c: "conn_send (send_chunk_buffers ?f m (streams (msg_csid m)) pos ?n) conn
        = (ok1, conn1)" by fastforce
    let ?rest = "drop (pos + ?n) (msg_payload m)"
    have ch: "chunked k (send_head ?f m) (send_head 3 m) (drop pos (msg_payload m))
        = concat (send_chunk_buffers ?f m (streams (msg_csid m)) pos ?n) @ chunked k (send_head 3 m) (send_head 3 m) ?rest"
      using True assms by (subst chunked.simps) (simp add: send_chunk_buffers_head min_def add.commute)
    note unf = send_loop.simps [of k m first_pkt fmt pos streams conn]
    from conn_send_spec [OF c] obtain p q where pq:
      "concat (send_chunk_buffers ?f m (streams (msg_csid m)) pos ?n) = p @ q"
      "sent conn1 = sent conn @ p" "ok1 \<longrightarrow> q = []" by blast
    show ?thesis
    proof (cases ok1)
      case False
      with True c fmt have "send_loop k m first_pkt fmt pos streams conn = Some (False, streams, conn1)"
        unfolding unf by (simp add: Let_def)
      with pq ch show ?thesis by auto
    next
      case ok: True
      with True c fmt have l: "send_loop k m first_pkt fmt pos streams conn
          = send_loop k m False ?f (pos + ?n) (streams(msg_csid m \<mapsto> m)) conn1"
        unfolding unf by (simp add: Let_def)
      have "length (msg_payload m) - (pos + ?n) < ?left" using True assms by auto
      from less.hyps [OF this, of False ?f "streams(msg_csid m \<mapsto> m)" conn1] ok pq ch show ?thesis
        unfolding l by fastforce
    qed
  qed
qed


text \<open>For the messages the receiver can follow, these are the bytes it expects.\<close>

lemma mask24: "(0xffffff :: u32) = mask 24"
  by (simp add: mask_eq_exp_minus_1)

lemma and_mask24_small: "unat (w :: u32) < 2 ^ 24 \<Longrightarrow> w AND 0xffffff = w"
  unfolding mask24 take_bit_eq_mask [symmetric]
  by (simp add: word_unat_eq_iff unsigned_take_bit_eq take_bit_nat_eq_self)

lemma send_head_wire:
  assumes "frame_ok m"
  shows "send_head 0 m = type0_header m" "send_head 3 m = [basic_header 3 (msg_csid m)]"
proof -
  have ts: "unat (msg_timestamp m) < 0xffffff" using assms by (simp add: frame_ok_def)
  then have "sint (msg_timestamp m) = int (unat (msg_timestamp m))" by (intro sint_small_u32) simp
  with ts have ext: "\<not> 0x00ffffff \<le> sint (msg_timestamp m)" by linarith
  have "msg_timestamp m AND 0xffffff = msg_timestamp m" using ts by (intro and_mask24_small) simp
  then show "send_head 0 m = type0_header m" "send_head 3 m = [basic_header 3 (msg_csid m)]"
    using assms ext
    by (simp_all add: send_head_def send_basic_header_def send_message_header_def Let_def
        type0_header_def basic_header_def frame_ok_def)
qed

text \<open>The bytes of a message as it is sent, for any message.\<close>

definition sent_wire :: "nat \<Rightarrow> rtmp_message \<Rightarrow> bytes" where
  "sent_wire k m = chunked k (send_head 0 m) (send_head 3 m) (msg_payload m)"

lemma sent_wire_ok: "frame_ok m \<Longrightarrow> sent_wire k m = message_wire k m"
  by (simp add: sent_wire_def message_wire_def send_head_wire)

lemma sendRtmpMessage_sync_spec:
  assumes "0 < k"
  shows "\<exists>ok streams' conn'. sendRtmpMessage_sync k m streams conn = Some (ok, streams', conn') \<and>
    (\<exists>p q. sent_wire k m = p @ q \<and> sent conn' = sent conn @ p \<and> (ok \<longrightarrow> q = []))"
  using send_loop_spec [OF assms, of m True 0 0 streams conn]
  by (simp add: sendRtmpMessage_sync_def sent_wire_def)

lemma sendRtmpMessage_sync_ok:
  "0 < k \<Longrightarrow> sendRtmpMessage_sync k m streams conn = Some (True, streams', conn') \<Longrightarrow>
     sent conn' = sent conn @ sent_wire k m"
  using sendRtmpMessage_sync_spec [of k m streams conn] by auto

section \<open>The send queue\<close>

text \<open>
  Who is writing to the connection: nobody, the coroutine spawned by \<open>send_handler_\<close>, a caller of
  the blocking \<open>sendRtmpMessage\<close>, or a coroutine that gave up after a failed write and left
  \<open>sending_\<close> set.  \<open>written\<close> is the history of complete messages on the connection, with whether they
  came from the queue; \<open>accepted\<close> the history of queued messages; \<open>failed\<close> whether a write failed.
\<close>

datatype writer = No_Writer | Drain | Sync rtmp_message | Broken

record chunk_send =
  out_chunk_size :: nat
  send_chunk_streams :: send_streams
  sending_rtmp_msgs :: "rtmp_message list"
  sending :: bool
  writer :: writer
  conn :: tcp_socket
  written :: "(bool \<times> rtmp_message) list"
  accepted :: "rtmp_message list"
  failed :: bool

definition chunk_send_init :: "tcp_socket \<Rightarrow> chunk_send" where
  "chunk_send_init c = \<lparr>out_chunk_size = 128, send_chunk_streams = Map.empty, sending_rtmp_msgs = [],
     sending = False, writer = No_Writer, conn = c, written = [], accepted = [], failed = False\<rparr>"

definition setOutChunkSize :: "nat \<Rightarrow> chunk_send \<Rightarrow> chunk_send" where
  "setOutChunkSize s st = st\<lparr>out_chunk_size := s\<rparr>"

definition send_handler :: "chunk_send \<Rightarrow> chunk_send" where
  "send_handler st =
     (if sending_rtmp_msgs st = [] then st
      else if sending st then st
      else st\<lparr>sending := True, writer := Drain\<rparr>)"

definition sendRtmpMessage_async :: "rtmp_message \<Rightarrow> chunk_send \<Rightarrow> chunk_send" where
  "sendRtmpMessage_async m st =
     send_handler (st\<lparr>sending_rtmp_msgs := sending_rtmp_msgs st @ [m], accepted := accepted st @ [m]\<rparr>)"

text \<open>One turn of the coroutine's loop; \<open>None\<close> when the write never returns.\<close>

definition drain_turn :: "chunk_send \<Rightarrow> chunk_send option" where
  "drain_turn st =
     (case sending_rtmp_msgs st of
        [] \<Rightarrow> Some (st\<lparr>sending := False, writer := No_Writer\<rparr>)
      | m # ms \<Rightarrow>
          (case sendRtmpMessage_sync (out_chunk_size st) m (send_chunk_streams st) (conn st) of
             None \<Rightarrow> None
           | Some (False, streams, c) \<Rightarrow>
               Some (st\<lparr>send_chunk_streams := streams, conn := c, writer := Broken, failed := True\<rparr>)
           | Some (True, streams, c) \<Rightarrow>
               let st = st\<lparr>send_chunk_streams := streams, conn := c, sending_rtmp_msgs := ms,
                          written := written st @ [(True, m)]\<rparr> in
               Some (if ms = [] then st\<lparr>sending := False, writer := No_Writer\<rparr> else st)))"

definition sync_begin :: "rtmp_message \<Rightarrow> chunk_send \<Rightarrow> chunk_send option" where
  "sync_begin m st = (if sending st then None else Some (st\<lparr>sending := True, writer := Sync m\<rparr>))"

definition sync_finish :: "rtmp_message \<Rightarrow> chunk_send \<Rightarrow> (bool \<times> chunk_send) option" where
  "sync_finish m st =
     (case sendRtmpMessage_sync (out_chunk_size st) m (send_chunk_streams st) (conn st) of
        None \<Rightarrow> None
      | Some (ret, streams, c) \<Rightarrow>
          Some (ret, send_handler (st\<lparr>send_chunk_streams := streams, conn := c, sending := False,
            writer := No_Writer, written := written st @ (if ret then [(False, m)] else []),
            failed := failed st \<or> \<not> ret\<rparr>)))"

text \<open>The interleavings of one connection's writers.\<close>

inductive send_step :: "chunk_send \<Rightarrow> chunk_send \<Rightarrow> bool" where
  enqueue: "send_step st (sendRtmpMessage_async m st)"
| drain: "writer st = Drain \<Longrightarrow> drain_turn st = Some st' \<Longrightarrow> send_step st st'"
| sync_begin: "sync_begin m st = Some st' \<Longrightarrow> send_step st st'"
| sync_finish: "writer st = Sync m \<Longrightarrow> sync_finish m st = Some (ret, st') \<Longrightarrow> send_step st st'"

inductive_cases send_stepE: "send_step st st'"

definition queue_written :: "chunk_send \<Rightarrow> rtmp_message list" where
  "queue_written st = map snd (filter fst (written st))"

text \<open>\<open>sending_\<close> is set exactly while somebody writes, a pending queue always has a writer, queued
  messages go out in the order they were accepted, and the connection carries whole messages.\<close>

definition send_inv :: "nat \<Rightarrow> bytes \<Rightarrow> chunk_send \<Rightarrow> bool" where
  "send_inv k base st \<longleftrightarrow> out_chunk_size st = k
     \<and> (sending st \<longleftrightarrow> writer st \<noteq> No_Writer)
     \<and> (writer st = No_Writer \<longrightarrow> sending_rtmp_msgs st = [])
     \<and> (writer st = Drain \<longrightarrow> sending_rtmp_msgs st \<noteq> [])
     \<and> (writer st = Broken \<longrightarrow> failed st)
     \<and> queue_written st @ sending_rtmp_msgs st = accepted st
     \<and> (\<not> failed st \<longrightarrow> sent (conn st) = base @ concat (map (sent_wire k \<circ> snd) (written st)))"

lemma send_inv_init: "send_inv k (sent c) (setOutChunkSize k (chunk_send_init c))"
  by (simp add: send_inv_def chunk_send_init_def queue_written_def setOutChunkSize_def)

lemma send_inv_enqueue: "send_inv k base st \<Longrightarrow> send_inv k base (sendRtmpMessage_async m st)"
  by (auto simp: send_inv_def sendRtmpMessage_async_def send_handler_def queue_written_def)

lemma send_inv_drain:
  assumes "0 < k" "send_inv k base st" "writer st = Drain" "drain_turn st = Some st'"
  shows "send_inv k base st'"
  using assms sendRtmpMessage_sync_ok [of k "hd (sending_rtmp_msgs st)" "send_chunk_streams st" "conn st"]
  by (auto simp: send_inv_def drain_turn_def queue_written_def Let_def
      split: list.splits option.splits bool.splits if_splits)

lemma send_inv_sync_begin:
  "send_inv k base st \<Longrightarrow> sync_begin m st = Some st' \<Longrightarrow> send_inv k base st'"
  by (auto simp: send_inv_def sync_begin_def queue_written_def split: if_splits)

lemma send_inv_sync_finish:
  assumes "0 < k" "send_inv k base st" "writer st = Sync m" "sync_finish m st = Some (ret, st')"
  shows "send_inv k base st'"
  using assms sendRtmpMessage_sync_ok [of k m "send_chunk_streams st" "conn st"]
  by (auto simp: send_inv_def sync_finish_def send_handler_def queue_written_def
      split: option.splits if_splits)

lemma send_inv_step: "0 < k \<Longrightarrow> send_inv k base st \<Longrightarrow> send_step st st' \<Longrightarrow> send_inv k base st'"
  by (erule send_stepE)
    (auto intro: send_inv_enqueue send_inv_drain send_inv_sync_begin send_inv_sync_finish)

lemma send_inv_reachable:
  "send_step\<^sup>*\<^sup>* st st' \<Longrightarrow> 0 < k \<Longrightarrow> send_inv k base st \<Longrightarrow> send_inv k base st'"
  by (induction rule: rtranclp_induct) (auto intro: send_inv_step)


section \<open>Properties\<close>

text \<open>Claim C1: However the queued and the blocking senders of a connection interleave, as long as no
  write failed the peer's receive loop turns the bytes of the connection back into exactly the
  messages that were sent, whole, unchanged and in order, for messages on chunk streams 2..63
  with a timestamp below 0xffffff and a payload of less than 2 MB that are not chunk-level
  control messages.\<close>

theorem rtmp_connection_round_trip:
  assumes "send_step\<^sup>*\<^sup>* (setOutChunkSize k (chunk_send_init c)) st" "0 < k" "k < 2 ^ 31"
    and "sent c = []" "\<not> failed st" "\<forall>m \<in> set (written st). message_ok (snd m)"
  shows "cycleRecvRtmpMessage collect [] (chunk_recv_init\<lparr>in_chunk_size := of_nat k\<rparr>) (sent (conn st))
    = (Returned (-1), map snd (written st))"
proof -
  let ?st = "chunk_recv_init\<lparr>in_chunk_size := of_nat k\<rparr>"
  have "send_inv k [] st"
    using send_inv_reachable [OF assms(1,2)] send_inv_init [of k c] assms(4) by simp
  then have "sent (conn st) = concat (map (sent_wire k \<circ> snd) (written st))"
    using assms(5) by (simp add: send_inv_def)
  also have "\<dots> = concat (map (message_wire k) (map snd (written st))) @ []"
    using assms(6) by (simp add: sent_wire_ok message_ok_def cong: map_cong)
  finally have w: "sent (conn st) = concat (map (message_wire k) (map snd (written st))) @ []" .
  have k: "sint (of_nat k :: u32) = int k" using assms(3) by (rule sint_of_nat_u32)
  have "\<exists>st'. recv_wf st' \<and> in_chunk_size st' = in_chunk_size ?st \<and>
      cycleRecvRtmpMessage collect [] ?st (sent (conn st))
        = cycleRecvRtmpMessage collect ([] @ map snd (written st)) st' []"
    unfolding w using assms(2,6) recv_wf_init k
    by (intro cycle_messages) (auto simp: recv_wf_def)
  then show ?thesis by (auto simp: cycle_end)
qed

definition demo_socket :: tcp_socket where
  "demo_socket = \<lparr>segments = [], accepts = replicate 20 100, sent = [], in_bytes = 0, out_bytes = 0,
     has_handler = True, closed = False, close_events = 0, socket_open = True, deleted = False\<rparr>"

definition demo_message :: rtmp_message where
  "demo_message = \<lparr>msg_room = 3, msg_payload = [1, 2, 3], msg_csid = 4, msg_timestamp = 77, msg_type = 9,
     msg_stream_id = 1\<rparr>"

definition demo_run :: chunk_send where
  "demo_run = the (drain_turn (sendRtmpMessage_async demo_message
     (setOutChunkSize 2 (chunk_send_init demo_socket))))"

lemma demo_run_reachable: "send_step\<^sup>*\<^sup>* (setOutChunkSize 2 (chunk_send_init demo_socket)) demo_run"
proof -
  let ?st = "sendRtmpMessage_async demo_message (setOutChunkSize 2 (chunk_send_init demo_socket))"
  have "writer ?st = Drain" by code_simp
  moreover have "drain_turn ?st = Some demo_run"
  proof -
    have "\<not> Option.is_none (drain_turn ?st)" by code_simp
    then show ?thesis by (auto simp: demo_run_def Option.is_none_def)
  qed
  ultimately have "send_step ?st demo_run" by (rule send_step.drain)
  moreover have "send_step (setOutChunkSize 2 (chunk_send_init demo_socket)) ?st"
    by (rule send_step.enqueue)
  ultimately show ?thesis by (meson converse_rtranclp_into_rtranclp rtranclp.rtrancl_refl)
qed

theorem rtmp_connection_round_trip_witness:
  "cycleRecvRtmpMessage collect [] (chunk_recv_init\<lparr>in_chunk_size := of_nat 2\<rparr>) (sent (conn demo_run))
    = (Returned (-1), map snd (written demo_run)) \<and> written demo_run = [(True, demo_message)]"
proof -
  have w: "written demo_run = [(True, demo_message)]" by code_simp
  have "\<not> failed demo_run" by code_simp
  moreover have "sent demo_socket = []" by code_simp
  moreover have "\<forall>m \<in> set (written demo_run). message_ok (snd m)" unfolding w by code_simp
  ultimately show ?thesis
    using rtmp_connection_round_trip [OF demo_run_reachable] w by (simp del: of_nat_numeral)
qed



lemma broken_step: "send_step st st' \<Longrightarrow> writer st = Broken \<Longrightarrow> sending st \<Longrightarrow>
    writer st' = Broken \<and> sending st' \<and> conn st' = conn st \<and> written st' = written st"
  by (erule send_stepE) (auto simp: sendRtmpMessage_async_def send_handler_def sync_begin_def)

text \<open>A queued write that fails leaves \<open>sending_\<close> set for good: from then on nothing is ever
  written to the connection again and blocking senders wait forever.\<close>

theorem send_queue_stuck_after_failure:
  assumes "send_step\<^sup>*\<^sup>* st st'" "writer st = Broken" "sending st"
  shows "sending st' \<and> conn st' = conn st \<and> written st' = written st \<and> sync_begin m st' = None"
proof -
  have "writer st' = Broken \<and> sending st' \<and> conn st' = conn st \<and> written st' = written st"
    using assms by (induction rule: rtranclp_induct) (auto dest: broken_step)
  then show ?thesis by (simp add: sync_begin_def)
qed

theorem send_queue_stuck_after_failure_witness:
  "let st = the (drain_turn (sendRtmpMessage_async demo_message
       (chunk_send_init (demo_socket\<lparr>accepts := []\<rparr>)))) in
   written (sendRtmpMessage_async demo_message st) = [] \<and> sync_begin demo_message st = None"
proof -
  let ?st = "the (drain_turn (sendRtmpMessage_async demo_message
       (chunk_send_init (demo_socket\<lparr>accepts := []\<rparr>))))"
  have b: "writer ?st = Broken" "sending ?st" "written ?st = []" by code_simp+
  have "send_step\<^sup>*\<^sup>* ?st (sendRtmpMessage_async demo_message ?st)"
    by (intro r_into_rtranclp send_step.enqueue)
  from send_queue_stuck_after_failure [OF this b(1,2)]
    send_queue_stuck_after_failure [OF rtranclp.rtrancl_refl b(1,2), of demo_message] b(3)
  show ?thesis by (simp add: Let_def)
qed

text \<open>Sending a message with a positive chunk size always returns, and puts a prefix of the
  message's chunk sequence on the connection, all of it when it reports success.\<close>

theorem send_message_returns:
  assumes "0 < k"
  shows "\<exists>ok streams' conn'. sendRtmpMessage_sync k m streams c = Some (ok, streams', conn') \<and>
    (\<exists>p q. chunked k (send_head 0 m) (send_head 3 m) (msg_payload m) = p @ q
       \<and> sent conn' = sent c @ p \<and> (ok \<longrightarrow> q = []))"
  using sendRtmpMessage_sync_spec [OF assms, of m streams c] by (simp add: sent_wire_def)

theorem send_message_returns_witness:
  "\<exists>ok streams' conn'. sendRtmpMessage_sync 2 demo_message Map.empty demo_socket = Some (ok, streams', conn') \<and>
    (\<exists>p q. chunked 2 (send_head 0 demo_message) (send_head 3 demo_message) [1, 2, 3] = p @ q
       \<and> sent conn' = p \<and> (ok \<longrightarrow> q = []))"
  using send_message_returns [of 2 demo_message Map.empty demo_socket]
  by (simp add: demo_message_def demo_socket_def)

text \<open>Messages with a timestamp of 0x1000000 and messages on chunk streams above 63 do not
  survive the server's own receive loop: the sender writes the low 24 bits of a large timestamp
  instead of the 0xffffff mark, so the receiver takes the extended timestamp for payload, and the
  receiver files every two-byte chunk stream id under 0.\<close>

theorem wide_messages_corrupted:
  "let late = demo_message\<lparr>msg_timestamp := 0x1000000\<rparr>; wide = demo_message\<lparr>msg_csid := 64\<rparr> in
   snd (cycleRecvRtmpMessage collect [] chunk_recv_init (sent_wire 128 late))
     = [late\<lparr>msg_timestamp := 0, msg_payload := [1, 0, 0]\<rparr>]
   \<and> snd (cycleRecvRtmpMessage collect [] chunk_recv_init (sent_wire 128 wide)) = [wide\<lparr>msg_csid := 0\<rparr>]"
  by code_simp

end
