(* ===== verification/Rtmp_Message.thy ===== *)
theory Rtmp_Message
  imports Amf0 Rtmp_Chunk_Recv
begin

text \<open>
  The AMF0 command and data messages of \<open>src/server/rtmp/rtmp_message\<close>: the decoders of the commands
  a client sends (connect, releaseStream, FCPublish, createStream, publish, play), the encoders of
  the server's responses, and the metadata message.  A \<open>nullptr\<close> result of an encoder is \<open>Ok None\<close>.

  Numbers are IEEE doubles given by their bit pattern; \<open>double_of_int\<close> and \<open>double_trunc\<close> are the two
  conversions the sources use.
\<close>

section \<open>Doubles\<close>

fun nlog2 :: "nat \<Rightarrow> nat" where
  "nlog2 n = (if n < 2 then 0 else Suc (nlog2 (n div 2)))"

declare nlog2.simps [simp del]

text \<open>The double nearest to an integer of less than 53 bits: sign, biased exponent, fraction.\<close>

definition double_of_int :: "int \<Rightarrow> u64" where
  "double_of_int i =
     (if i = 0 then 0
      else let n = nat \<bar>i\<bar>; e = nlog2 n in
        of_nat ((if i < 0 then 2 ^ 63 else 0) + (e + 1023) * 2 ^ 52 + (n * 2 ^ (52 - e) - 2 ^ 52)))"

text \<open>Conversion to an integer, towards zero; \<open>None\<close> for infinities and NaN.\<close>

definition double_trunc :: "u64 \<Rightarrow> int option" where
  "double_trunc d =
     (let n = unat d; neg = 2 ^ 63 \<le> n; e = n div 2 ^ 52 mod 2 ^ 11; f = n mod 2 ^ 52 in
      if e = 2047 then None
      else if e < 1023 then Some 0
      else let m = 2 ^ 52 + f;
             a = (if e \<le> 1075 then m div 2 ^ (1075 - e) else m * 2 ^ (e - 1075)) in
        Some (if neg then - int a else int a))"

text \<open>Storing a double into a \<open>uint32_t\<close>: indeterminate when the value does not fit.\<close>

definition u32_of_double :: "u64 \<Rightarrow> u32 option" where
  "u32_of_double d =
     (case double_trunc d of
        None \<Rightarrow> None
      | Some i \<Rightarrow> if 0 \<le> i \<and> i < 2 ^ 32 then Some (of_int i) else None)"

lemma nlog2_bounds: "0 < n \<Longrightarrow> 2 ^ nlog2 n \<le> n \<and> n < 2 ^ Suc (nlog2 n)"
proof (induction n rule: nlog2.induct)
  case (1 n)
  show ?case
  proof (cases "n < 2")
    case True
    with "1.prems" show ?thesis by (simp add: nlog2.simps [of n])
  next
    case False
    then have "0 < n div 2" by simp
    from "1.IH" [OF False this] False show ?thesis by (auto simp: nlog2.simps [of n])
  qed
qed

lemma double_trunc_of_int:
  assumes "\<bar>i\<bar> < 2 ^ 53"
  shows "double_trunc (double_of_int i) = Some i"
proof (cases "i = 0")
  case True
  then show ?thesis by (simp add: double_of_int_def double_trunc_def)
next
  case False
  define n where "n = nat \<bar>i\<bar>"
  define e where "e = nlog2 n"
  define f where "f = n * 2 ^ (52 - e) - 2 ^ 52"
  define s where "s = (if i < 0 then 2 ^ 63 else (0 :: nat))"
  have n: "0 < n" "n < 2 ^ 53" using False assms by (auto simp: n_def nat_less_iff)
  have b: "2 ^ e \<le> n" "n < 2 ^ Suc e" using nlog2_bounds [OF n(1)] by (simp_all add: e_def)
  have "(2 :: nat) ^ e < 2 ^ 53" using b(1) n(2) by (rule le_less_trans)
  then have e: "e \<le> 52" by (simp only: power_strict_increasing_iff)
  have p: "(2 :: nat) ^ e * 2 ^ (52 - e) = 2 ^ 52" using e by (simp only: power_add [symmetric]) simp
  have lo: "2 ^ 52 \<le> n * 2 ^ (52 - e)"
    unfolding p [symmetric] using b(1) by (rule mult_le_mono1)
  have "n * 2 ^ (52 - e) < 2 ^ Suc e * 2 ^ (52 - e)" using b(2) by (rule mult_less_mono1) simp
  also have "\<dots> = 2 * 2 ^ 52" unfolding p [symmetric] by simp
  finally have hi: "n * 2 ^ (52 - e) < 2 * 2 ^ 52" .
  from lo hi have f: "f < 2 ^ 52" "2 ^ 52 + f = n * 2 ^ (52 - e)" by (simp_all add: f_def)
  define w where "w = s + (e + 1023) * 2 ^ 52 + f"
  have d: "double_of_int i = of_nat w"
    using False by (simp add: double_of_int_def Let_def n_def e_def f_def s_def w_def)
  have e1: "e + 1023 < 2 ^ 11" using e by simp
  have "w < 2 ^ 64" using f(1) e by (simp add: w_def s_def)
  then have u: "unat (double_of_int i) = w"
    unfolding d by (simp add: unat_of_nat)
  have neg: "2 ^ 63 \<le> w \<longleftrightarrow> i < 0" using f(1) e by (simp add: w_def s_def)
  define g where "g = (if i < 0 then 1 else (0 :: nat))"
  have w': "w = f + (g * 2 ^ 11 + (e + 1023)) * 2 ^ 52"
    by (simp add: w_def s_def g_def)
  have "w div 2 ^ 52 = g * 2 ^ 11 + (e + 1023)" unfolding w' using f(1) by simp
  then have ex: "w div 2 ^ 52 mod 2 ^ 11 = e + 1023" using e1 by (simp add: g_def)
  have fr: "w mod 2 ^ 52 = f" unfolding w' mod_mult_self1 using f(1) by (rule mod_less)
  have a: "(2 ^ 52 + f) div 2 ^ (1075 - (e + 1023)) = n" unfolding f(2) by simp
  show ?thesis
    unfolding double_trunc_def Let_def u neg ex fr a using e False by (simp add: n_def)
qed


section \<open>Responses\<close>

text \<open>The encoders of the responses encode their members one after the other into an allocation of
  the sum of the announced sizes; \<open>payload_size_\<close> is that sum.\<close>

fun encode_members :: "amf0_data list \<Rightarrow> bytes \<Rightarrow> bytes outcome" where
  "encode_members [] buf = Ok []"
| "encode_members (v # vs) buf =
     obind (Amf0_encode v buf) (\<lambda>bs.
       obind (encode_members vs (drop (length bs) buf)) (\<lambda>cs. Ok (bs @ cs)))"

definition encode_command :: "amf0_data list \<Rightarrow> rtmp_message option outcome" where
  "encode_command vs =
     (let s = sum_list (map Amf0_size vs); buf = replicate s 0 in
      or_null (obind (encode_members vs buf) (\<lambda>bs.
        Ok (server_message RTMP_MESSAGE_TYPE_AMF0_COMMAND (bs @ drop (length bs) buf)))))"

definition RtmpConnectRespMessage_encode ::
  "string \<Rightarrow> u64 \<Rightarrow> properties \<Rightarrow> properties \<Rightarrow> rtmp_message option outcome" where
  "RtmpConnectRespMessage_encode command_name transaction_id props info =
     encode_command [Amf0String command_name, Amf0Number transaction_id, Amf0Object props, Amf0Object info]"

definition RtmpReleaseStreamRespMessage_encode ::
  "string \<Rightarrow> u64 \<Rightarrow> properties \<Rightarrow> rtmp_message option outcome" where
  "RtmpReleaseStreamRespMessage_encode command_name transaction_id command_obj =
     encode_command [Amf0String command_name, Amf0Number transaction_id, Amf0Object command_obj, Amf0Undefined]"

definition RtmpFCPublishRespMessage_encode ::
  "string \<Rightarrow> u64 \<Rightarrow> properties \<Rightarrow> rtmp_message option outcome" where
  "RtmpFCPublishRespMessage_encode command_name transaction_id command_obj =
     encode_command [Amf0String command_name, Amf0Number transaction_id, Amf0Object command_obj, Amf0Undefined]"

definition RtmpCreateStreamRespMessage_encode ::
  "string \<Rightarrow> u64 \<Rightarrow> properties \<Rightarrow> rtmp_message option outcome" where
  "RtmpCreateStreamRespMessage_encode command_name transaction_id command_obj =
     encode_command [Amf0String command_name, Amf0Number transaction_id, Amf0Object command_obj,
       Amf0String ''1'']"

definition RtmpOnStatusRespMessage_encode ::
  "u64 \<Rightarrow> properties \<Rightarrow> properties \<Rightarrow> rtmp_message option outcome" where
  "RtmpOnStatusRespMessage_encode transaction_id args data =
     encode_command [Amf0String ''onStatus'', Amf0Number transaction_id, Amf0Object args, Amf0Object data]"

definition RtmpAccessSampleMessage_encode :: "bool \<Rightarrow> bool \<Rightarrow> rtmp_message option outcome" where
  "RtmpAccessSampleMessage_encode video audio =
     encode_command [Amf0String ''|RtmpSampleAccess'', Amf0Boolean video, Amf0Boolean audio]"

section \<open>Commands\<close>

text \<open>One member of a message: decode it with \<open>dec\<close>, return \<open>code\<close> if that fails, and go on behind
  the bytes it took.\<close>

definition member ::
  "int \<Rightarrow> (bytes \<Rightarrow> ('a \<times> nat) outcome) \<Rightarrow> bytes \<Rightarrow> nat \<Rightarrow> ('a \<Rightarrow> bytes \<Rightarrow> nat \<Rightarrow> 'b outcome) \<Rightarrow> 'b outcome" where
  "member code dec payload pos k =
     obind (or_code code (dec payload)) (\<lambda>(v, consumed). k v (drop consumed payload) (pos + consumed))"

record connect_command =
  cc_command_name :: string
  cc_transaction_id :: u64
  cc_command_object :: properties
  cc_optional_user_args :: properties
  cc_tc_url :: string
  cc_page_url :: string
  cc_swf_url :: string
  cc_app :: string
  cc_object_encoding :: "u64 option" \<comment> \<open>None: not initialised\<close>

definition RtmpConnectCommandMessage_decode :: "rtmp_message \<Rightarrow> (connect_command \<times> nat) outcome" where
  "RtmpConnectCommandMessage_decode m =
     member (-1) Amf0String_decode (msg_payload m) 0 (\<lambda>name payload pos.
     member (-2) Amf0Number_decode payload pos (\<lambda>tid payload pos.
     member (-3) (Amf0Object_decode []) payload pos (\<lambda>obj payload pos.
     obind (if 0 < length payload
            then or_code (-4) (obind (Amf0Object_decode [] payload) (\<lambda>(a, n). Ok (a, pos + n)))
            else Ok ([], pos)) (\<lambda>(args, pos).
       case getProperty_String obj ''tcUrl'' of
         None \<Rightarrow> Err (-5)
       | Some tcUrl \<Rightarrow>
           Ok (\<lparr>cc_command_name = name, cc_transaction_id = tid, cc_command_object = obj,
                cc_optional_user_args = args, cc_tc_url = tcUrl,
                cc_page_url = (case getProperty_String obj ''pageUrl'' of Some s \<Rightarrow> s | None \<Rightarrow> []),
                cc_swf_url = (case getProperty_String obj ''swfUrl'' of Some s \<Rightarrow> s | None \<Rightarrow> []),
                cc_app = (case getProperty_String obj ''app'' of Some s \<Rightarrow> s | None \<Rightarrow> []),
                cc_object_encoding = getProperty_Number obj ''objectEncoding''\<rparr>, pos)))))"

record stream_command =
  sc_command_name :: string
  sc_transaction_id :: u64
  sc_stream_name :: string

definition RtmpReleaseStreamMessage_decode :: "rtmp_message \<Rightarrow> (stream_command \<times> nat) outcome" where
  "RtmpReleaseStreamMessage_decode m =
     member (-1) Amf0String_decode (msg_payload m) 0 (\<lambda>name payload pos.
     member (-2) Amf0Number_decode payload pos (\<lambda>tid payload pos.
     member (-3) Amf0Null_decode payload pos (\<lambda>_ payload pos.
     member (-4) Amf0String_decode payload pos (\<lambda>stream payload pos.
       Ok (\<lparr>sc_command_name = name, sc_transaction_id = tid, sc_stream_name = stream\<rparr>, pos)))))"

definition RtmpFCPublishMessage_decode :: "rtmp_message \<Rightarrow> (stream_command \<times> nat) outcome" where
  "RtmpFCPublishMessage_decode m =
     member (-1) Amf0String_decode (msg_payload m) 0 (\<lambda>name payload pos.
     member (-2) Amf0Number_decode payload pos (\<lambda>tid payload pos.
     member (-3) Amf0Null_decode payload pos (\<lambda>_ payload pos.
     member (-4) Amf0String_decode payload pos (\<lambda>stream payload pos.
       Ok (\<lparr>sc_command_name = name, sc_transaction_id = tid, sc_stream_name = stream\<rparr>, pos)))))"

text \<open>A command object, or null in its place.\<close>

definition object_or_null :: "bytes \<Rightarrow> (properties option \<times> nat) outcome" where
  "object_or_null payload =
     (case Amf0Object_decode [] payload of
        Fault \<Rightarrow> Fault
      | Ok (obj, n) \<Rightarrow> Ok (Some obj, n)
      | Err _ \<Rightarrow> obind (Amf0Null_decode payload) (\<lambda>(_, n). Ok (None, n)))"

definition RtmpCreateStreamMessage_decode :: "rtmp_message \<Rightarrow> ((string \<times> u64) \<times> nat) outcome" where
  "RtmpCreateStreamMessage_decode m =
     member (-1) Amf0String_decode (msg_payload m) 0 (\<lambda>name payload pos.
     member (-2) Amf0Number_decode payload pos (\<lambda>tid payload pos.
     member (-4) object_or_null payload pos (\<lambda>_ payload pos.
       Ok ((name, tid), pos))))"

record publish_command = stream_command +
  pc_publish_type :: string

definition RtmpPublishMessage_decode :: "rtmp_message \<Rightarrow> (publish_command \<times> nat) outcome" where
  "RtmpPublishMessage_decode m =
     member (-1) Amf0String_decode (msg_payload m) 0 (\<lambda>name payload pos.
     member (-2) Amf0Number_decode payload pos (\<lambda>tid payload pos.
     member (-4) object_or_null payload pos (\<lambda>_ payload pos.
     member (-5) Amf0String_decode payload pos (\<lambda>stream payload pos.
     member (-6) Amf0String_decode payload pos (\<lambda>ty payload pos.
       Ok (\<lparr>sc_command_name = name, sc_transaction_id = tid, sc_stream_name = stream,
            pc_publish_type = ty\<rparr>, pos))))))"

record play_command = stream_command +
  pl_start :: u64
  pl_duration :: u64
  pl_reset :: bool

definition RtmpPlayMessage_decode :: "rtmp_message \<Rightarrow> (play_command \<times> nat) outcome" where
  "RtmpPlayMessage_decode m =
     member (-1) Amf0String_decode (msg_payload m) 0 (\<lambda>name payload pos.
     member (-2) Amf0Number_decode payload pos (\<lambda>tid payload pos.
     member (-4) object_or_null payload pos (\<lambda>_ payload pos.
     member (-5) Amf0String_decode payload pos (\<lambda>stream payload pos.
       let cmd = \<lparr>sc_command_name = name, sc_transaction_id = tid, sc_stream_name = stream,
                  pl_start = double_of_int (-2), pl_duration = double_of_int (-1), pl_reset = True\<rparr> in
       case Amf0Number_decode payload of
         Fault \<Rightarrow> Fault
       | Err _ \<Rightarrow> Ok (cmd, pos)
       | Ok (start, n) \<Rightarrow>
           let cmd = cmd\<lparr>pl_start := start\<rparr>; payload = drop n payload; pos = pos + n in
           case Amf0Number_decode payload of
             Fault \<Rightarrow> Fault
           | Err _ \<Rightarrow> Ok (cmd, pos)
           | Ok (duration, n) \<Rightarrow>
               let cmd = cmd\<lparr>pl_duration := duration\<rparr>; payload = drop n payload; pos = pos + n in
               case Amf0Boolean_decode payload of
                 Fault \<Rightarrow> Fault
               | Err _ \<Rightarrow> Ok (cmd, pos)
               | Ok (reset, n) \<Rightarrow> Ok (cmd\<lparr>pl_reset := reset\<rparr>, pos + n)))))"

section \<open>Metadata\<close>

text \<open>A numeric field keeps its old (indeterminate) value when its property is missing.\<close>

record metadata =
  md_cache_msg :: rtmp_message
  md_has_video :: bool
  md_has_audio :: bool
  md_audio_codec_id :: "int option"
  md_audio_channels :: "u32 option"
  md_audio_datarate :: "u32 option"
  md_audio_sample_rate :: "u32 option"
  md_audio_sample_size :: "u32 option"
  md_duration :: "u32 option"
  md_encoder :: string
  md_file_size :: "u32 option"
  md_frame_rate :: "u32 option"
  md_height :: "u32 option"
  md_width :: "u32 option"
  md_stereo :: "bool option"
  md_video_codec_id :: "int option"
  md_video_data_rate :: "u32 option"

definition number_field :: "properties \<Rightarrow> string \<Rightarrow> u32 option" where
  "number_field props key = Option.bind (getProperty_Number props key) u32_of_double"

definition metadata_fields :: "rtmp_message \<Rightarrow> properties \<Rightarrow> metadata" where
  "metadata_fields m props =
     \<lparr>md_cache_msg = m,
      md_has_video = (getProperty_Number props ''videocodecid'' \<noteq> None),
      md_has_audio = (getProperty_Number props ''audiocodecid'' \<noteq> None),
      md_audio_codec_id = Option.bind (getProperty_Number props ''audiocodecid'') double_trunc,
      md_audio_channels = number_field props ''audiochannels'',
      md_audio_datarate = number_field props ''audiodatarate'',
      md_audio_sample_rate = number_field props ''audiosamplerate'',
      md_audio_sample_size = number_field props ''audiosamplesize'',
      md_duration = number_field props ''duration'',
      md_encoder = (case getProperty_String props ''encoder'' of Some s \<Rightarrow> s | None \<Rightarrow> []),
      md_file_size = number_field props ''fileSize'',
      md_frame_rate = number_field props ''framerate'',
      md_height = number_field props ''height'',
      md_width = number_field props ''width'',
      md_stereo = getProperty_Boolean props ''stereo'',
      md_video_codec_id = Option.bind (getProperty_Number props ''videocodecid'') double_trunc,
      md_video_data_rate = number_field props ''videodatarate''\<rparr>"

definition RtmpMetaDataMessage_decode :: "rtmp_message \<Rightarrow> (metadata \<times> nat) outcome" where
  "RtmpMetaDataMessage_decode m =
     member (-1) Amf0String_decode (msg_payload m) 0 (\<lambda>name payload pos.
       let rest = (\<lambda>payload pos. member (-3) (Amf0EcmaArray_decode []) payload pos (\<lambda>props payload pos.
             Ok (metadata_fields m props, pos))) in
       if name = ''@setDataFrame''
       then member (-2) Amf0String_decode payload pos (\<lambda>_ payload pos. rest payload pos)
       else rest payload pos)"


section \<open>Encoding\<close>

definition members_bytes :: "amf0_data list \<Rightarrow> bytes" where
  "members_bytes vs = concat (map amf0_bytes vs)"

lemma members_bytes_simps [simp]:
  "members_bytes [] = []" "members_bytes (v # vs) = amf0_bytes v @ members_bytes vs"
  by (simp_all add: members_bytes_def)

lemma encode_members_fits:
  "list_all amf0_wf vs \<Longrightarrow> sum_list (map Amf0_size vs) \<le> length buf \<Longrightarrow>
     encode_members vs buf = Ok (members_bytes vs)"
  by (induction vs arbitrary: buf) (simp_all add: Amf0_encode_fits length_amf0_bytes)

lemma length_members_bytes:
  "list_all amf0_wf vs \<Longrightarrow> length (members_bytes vs) = sum_list (map Amf0_size vs)"
  by (induction vs) (simp_all add: length_amf0_bytes)

lemma encode_command_wf:
  "list_all amf0_wf vs \<Longrightarrow>
     encode_command vs = Ok (Some (server_message RTMP_MESSAGE_TYPE_AMF0_COMMAND (members_bytes vs)))"
  by (simp add: encode_command_def encode_members_fits length_members_bytes)

text \<open>Reading a payload as a sequence of AMF0 values.\<close>

function read_values :: "bytes \<Rightarrow> amf0_data list outcome" where
  "read_values data =
     (if data = [] then Ok []
      else obind (Amf0Object_value data) (\<lambda>(v, n).
        obind (read_values (drop n data)) (\<lambda>vs. Ok (v # vs))))"
  by pat_completeness auto
termination
  by (relation "measure length") (use Amf0Object_consumed in fastforce)+

declare read_values.simps [simp del]

lemma read_values_members: "list_all amf0_wf vs \<Longrightarrow> read_values (members_bytes vs) = Ok vs"
proof (induction vs)
  case Nil
  then show ?case by (simp add: read_values.simps)
next
  case (Cons v vs)
  have "amf0_bytes v \<noteq> []" using amf0_bytes_marker [of v] Cons.prems by auto
  then show ?case
    using Cons by (simp add: read_values.simps [of "amf0_bytes v @ _"] Amf0Object_bytes length_amf0_bytes)
qed

section \<open>Decoding\<close>

text \<open>The message layer as a client of the wire-format contract: an encoded member in front of any
  rest is read exactly.\<close>

lemma member_exact:
  "dec (bs @ rest) = Ok (v, n) \<Longrightarrow> length bs = n \<Longrightarrow> member c dec (bs @ rest) pos k = k v rest (pos + n)"
  by (auto simp: member_def)

context wire_codec
begin

lemma member_enc:
  "wf v \<Longrightarrow> enc v buf = Ok bs \<Longrightarrow> member c dec (bs @ rest) pos k = k v rest (pos + length bs)"
  using dec_enc [of v buf bs rest] by (simp add: member_exact)

end

lemma member_string:
  assumes "length s < 65536"
  shows "member c Amf0String_decode (amf0_bytes (Amf0String s) @ rest) pos k = k s rest (pos + (3 + length s))"
  using assms amf0_string.member_enc [of s "replicate (3 + length s) 0" "amf0_bytes (Amf0String s)"]
  by (simp add: Amf0String_encode_def numeral_3_eq_3)

lemma member_number:
  "member c Amf0Number_decode (amf0_bytes (Amf0Number d) @ rest) pos k = k d rest (pos + 9)"
  using amf0_number.member_enc [of d "replicate 9 0" "amf0_bytes (Amf0Number d)"]
  by (simp add: Amf0Number_encode_def)

lemma member_null:
  "member c Amf0Null_decode (amf0_bytes Amf0Null @ rest) pos k = k () rest (pos + 1)"
  using amf0_null.member_enc [of "()" "replicate 1 0" "amf0_bytes Amf0Null"]
  by (simp add: Amf0Null_encode_def)

lemma member_object:
  assumes "amf0_wf_props props"
  shows "member c (Amf0Object_decode []) (amf0_bytes (Amf0Object props) @ rest) pos k
     = k props rest (pos + Amf0_size (Amf0Object props))"
  using Amf0Object_decode_bytes [OF assms, of rest]
  by (rule member_exact) (use assms in \<open>simp add: length_amf0_bytes del: amf0_bytes.simps\<close>)

lemma member_object_or_null_object:
  assumes "amf0_wf_props props"
  shows "member c object_or_null (amf0_bytes (Amf0Object props) @ rest) pos k
     = k (Some props) rest (pos + Amf0_size (Amf0Object props))"
proof (rule member_exact)
  show "object_or_null (amf0_bytes (Amf0Object props) @ rest) = Ok (Some props, Amf0_size (Amf0Object props))"
    unfolding object_or_null_def Amf0Object_decode_bytes [OF assms, of rest] by simp
qed (use assms in \<open>simp add: length_amf0_bytes del: amf0_bytes.simps\<close>)

lemma member_object_or_null_null:
  "member c object_or_null (amf0_bytes Amf0Null @ rest) pos k = k None rest (pos + 1)"
  by (rule member_exact)
    (simp_all add: object_or_null_def Amf0Object_decode.simps [of "[]" "_ # _"]
      amf0_scalar_decode_bytes(4) [simplified])

lemmas member_infixes = member_string member_number member_null member_object
  member_object_or_null_object member_object_or_null_null

lemmas member_lasts = member_string [where rest = "[]", unfolded append_Nil2]
  member_object [where rest = "[]", unfolded append_Nil2]
  member_object_or_null_object [where rest = "[]", unfolded append_Nil2]
  member_object_or_null_null [where rest = "[]", unfolded append_Nil2]

lemmas member_simps = member_infixes member_lasts

lemma member_Ok_iff:
  "member c dec payload pos k = Ok r \<longleftrightarrow>
     (\<exists>v n. dec payload = Ok (v, n) \<and> k v (drop n payload) (pos + n) = Ok r)"
  by (auto simp: member_def obind_Ok_iff)

lemma member_Fault_iff:
  "member c dec payload pos k = Fault \<longleftrightarrow>
     dec payload = Fault \<or> (\<exists>v n. dec payload = Ok (v, n) \<and> k v (drop n payload) (pos + n) = Fault)"
  by (auto simp: member_def obind_Fault_iff)


lemma object_free_decoders_not_Fault [simp]:
  "RtmpReleaseStreamMessage_decode m \<noteq> Fault" "RtmpFCPublishMessage_decode m \<noteq> Fault"
  "RtmpMetaDataMessage_decode m \<noteq> Fault"
  by (auto simp: RtmpReleaseStreamMessage_decode_def RtmpFCPublishMessage_decode_def
      RtmpMetaDataMessage_decode_def member_Fault_iff Let_def)

text \<open>A command whose command object ends right behind a property name.\<close>

definition truncated_command :: "string \<Rightarrow> u64 \<Rightarrow> string \<Rightarrow> bytes" where
  "truncated_command name tid key =
     members_bytes [Amf0String name, Amf0Number tid] @ OBJECT_MARKER # be 2 (length key) @ bytes_of_str key"

lemma truncated_commands_Fault:
  assumes "length name < 65536" "length key < 65536" "msg_payload m = truncated_command name tid key"
  shows "RtmpConnectCommandMessage_decode m = Fault" "RtmpCreateStreamMessage_decode m = Fault"
    "RtmpPublishMessage_decode m = Fault" "RtmpPlayMessage_decode m = Fault"
proof -
  let ?o = "OBJECT_MARKER # be 2 (length key) @ bytes_of_str key"
  have p: "msg_payload m = amf0_bytes (Amf0String name) @ amf0_bytes (Amf0Number tid) @ ?o"
    using assms(3) by (simp add: truncated_command_def del: amf0_bytes.simps)
  have f: "Amf0Object_decode [] ?o = Fault" using assms(2) by (rule Amf0Object_decode_truncated)
  then have "object_or_null ?o = Fault" by (simp add: object_or_null_def)
  with f have "member c (Amf0Object_decode []) ?o pos k = Fault" "member c object_or_null ?o pos k' = Fault"
    for c pos and k :: "properties \<Rightarrow> bytes \<Rightarrow> nat \<Rightarrow> 'a outcome"
      and k' :: "properties option \<Rightarrow> bytes \<Rightarrow> nat \<Rightarrow> 'b outcome"
    by (simp_all add: member_def)
  then show "RtmpConnectCommandMessage_decode m = Fault" "RtmpCreateStreamMessage_decode m = Fault"
    "RtmpPublishMessage_decode m = Fault" "RtmpPlayMessage_decode m = Fault"
    unfolding RtmpConnectCommandMessage_decode_def RtmpCreateStreamMessage_decode_def
      RtmpPublishMessage_decode_def RtmpPlayMessage_decode_def p
    using assms(1) by (simp_all only: member_string member_number)
qed

lemma u32_of_double_of_int:
  "0 \<le> i \<Longrightarrow> i < 2 ^ 32 \<Longrightarrow> u32_of_double (double_of_int i) = Some (of_int i)"
  by (simp add: u32_of_double_def double_trunc_of_int)

section \<open>Properties\<close>

text \<open>Every response the server builds (connect, releaseStream, FCPublish and createStream
  results, onStatus, sample access) is encoded without overrunning its allocation into exactly
  its members, in order, and reading the payload as AMF0 values gives those members back, for
  member objects with distinct names and strings below 64 KiB.\<close>

theorem rtmp_responses_round_trip:
  assumes "length name < 65536" "amf0_wf_props obj" "amf0_wf_props info"
  shows "(\<exists>m. RtmpConnectRespMessage_encode name tid obj info = Ok (Some m)
      \<and> read_values (msg_payload m) = Ok [Amf0String name, Amf0Number tid, Amf0Object obj, Amf0Object info])
    \<and> (\<exists>m. RtmpReleaseStreamRespMessage_encode name tid obj = Ok (Some m)
      \<and> read_values (msg_payload m) = Ok [Amf0String name, Amf0Number tid, Amf0Object obj, Amf0Undefined])
    \<and> (\<exists>m. RtmpFCPublishRespMessage_encode name tid obj = Ok (Some m)
      \<and> read_values (msg_payload m) = Ok [Amf0String name, Amf0Number tid, Amf0Object obj, Amf0Undefined])
    \<and> (\<exists>m. RtmpCreateStreamRespMessage_encode name tid obj = Ok (Some m)
      \<and> read_values (msg_payload m) = Ok [Amf0String name, Amf0Number tid, Amf0Object obj, Amf0String ''1''])
    \<and> (\<exists>m. RtmpOnStatusRespMessage_encode tid obj info = Ok (Some m)
      \<and> read_values (msg_payload m)
          = Ok [Amf0String ''onStatus'', Amf0Number tid, Amf0Object obj, Amf0Object info])
    \<and> (\<exists>m. RtmpAccessSampleMessage_encode video audio = Ok (Some m)
      \<and> read_values (msg_payload m)
          = Ok [Amf0String ''|RtmpSampleAccess'', Amf0Boolean video, Amf0Boolean audio])"
  unfolding RtmpConnectRespMessage_encode_def RtmpReleaseStreamRespMessage_encode_def
    RtmpFCPublishRespMessage_encode_def RtmpCreateStreamRespMessage_encode_def
    RtmpOnStatusRespMessage_encode_def RtmpAccessSampleMessage_encode_def
  using assms
  by (simp add: encode_command_wf server_message_def read_values_members del: members_bytes_simps)

theorem rtmp_responses_round_trip_witness:
  "\<exists>m. RtmpConnectRespMessage_encode ''_result'' 0x3ff0000000000000 [(''a'', Amf0Null)] [] = Ok (Some m)
      \<and> read_values (msg_payload m) = Ok [Amf0String ''_result'', Amf0Number 0x3ff0000000000000,
          Amf0Object [(''a'', Amf0Null)], Amf0Object []]"
  using rtmp_responses_round_trip [of "''_result''" "[(''a'', Amf0Null)]" "[]" "0x3ff0000000000000" True True]
  by simp

text \<open>A connect command with a tcUrl is decoded to its members and the well-known properties of
  its command object; without a tcUrl it is rejected with code -5.\<close>

theorem connect_command_decoded:
  assumes "length name < 65536" "amf0_wf_props obj"
    and "msg_payload m = members_bytes [Amf0String name, Amf0Number tid, Amf0Object obj]"
  shows "RtmpConnectCommandMessage_decode m =
    (case getProperty_String obj ''tcUrl'' of
       None \<Rightarrow> Err (-5)
     | Some url \<Rightarrow>
         Ok (\<lparr>cc_command_name = name, cc_transaction_id = tid, cc_command_object = obj,
              cc_optional_user_args = [], cc_tc_url = url,
              cc_page_url = (case getProperty_String obj ''pageUrl'' of Some s \<Rightarrow> s | None \<Rightarrow> []),
              cc_swf_url = (case getProperty_String obj ''swfUrl'' of Some s \<Rightarrow> s | None \<Rightarrow> []),
              cc_app = (case getProperty_String obj ''app'' of Some s \<Rightarrow> s | None \<Rightarrow> []),
              cc_object_encoding = getProperty_Number obj ''objectEncoding''\<rparr>,
             length (msg_payload m)))"
  using assms
  by (simp add: RtmpConnectCommandMessage_decode_def member_simps length_amf0_bytes
      del: amf0_bytes.simps split: option.splits)

theorem connect_command_decoded_witness:
  "RtmpConnectCommandMessage_decode (server_message RTMP_MESSAGE_TYPE_AMF0_COMMAND
     (members_bytes [Amf0String ''connect'', Amf0Number 0, Amf0Object [(''app'', Amf0String ''live'')]]))
   = Err (-5)"
  using connect_command_decoded [of "''connect''" "[(''app'', Amf0String ''live'')]"
     "server_message RTMP_MESSAGE_TYPE_AMF0_COMMAND
       (members_bytes [Amf0String ''connect'', Amf0Number 0, Amf0Object [(''app'', Amf0String ''live'')]])" 0]
  by (simp add: server_message_def getProperty_String_def getProperty_def)

text \<open>Publish, play, createStream, releaseStream and FCPublish commands, with a command object
  or null in its place, are decoded to their members and consumed entirely; a play command without
  the optional tail gets start -2, duration -1 and reset true.\<close>

theorem stream_commands_decoded:
  assumes "length name < 65536" "length stream < 65536" "length ty < 65536"
    and "obj = Amf0Null \<or> (\<exists>props. obj = Amf0Object props \<and> amf0_wf_props props)"
  shows "RtmpPublishMessage_decode (server_message t (members_bytes
        [Amf0String name, Amf0Number tid, obj, Amf0String stream, Amf0String ty]))
      = Ok (\<lparr>sc_command_name = name, sc_transaction_id = tid, sc_stream_name = stream, pc_publish_type = ty\<rparr>,
            length (members_bytes [Amf0String name, Amf0Number tid, obj, Amf0String stream, Amf0String ty]))
    \<and> RtmpPlayMessage_decode (server_message t (members_bytes
        [Amf0String name, Amf0Number tid, obj, Amf0String stream]))
      = Ok (\<lparr>sc_command_name = name, sc_transaction_id = tid, sc_stream_name = stream,
             pl_start = double_of_int (-2), pl_duration = double_of_int (-1), pl_reset = True\<rparr>,
            length (members_bytes [Amf0String name, Amf0Number tid, obj, Amf0String stream]))
    \<and> RtmpCreateStreamMessage_decode (server_message t (members_bytes [Amf0String name, Amf0Number tid, obj]))
      = Ok ((name, tid), length (members_bytes [Amf0String name, Amf0Number tid, obj]))
    \<and> RtmpReleaseStreamMessage_decode (server_message t (members_bytes
        [Amf0String name, Amf0Number tid, Amf0Null, Amf0String stream]))
      = Ok (\<lparr>sc_command_name = name, sc_transaction_id = tid, sc_stream_name = stream\<rparr>,
            length (members_bytes [Amf0String name, Amf0Number tid, Amf0Null, Amf0String stream]))
    \<and> RtmpFCPublishMessage_decode (server_message t (members_bytes
        [Amf0String name, Amf0Number tid, Amf0Null, Amf0String stream]))
      = Ok (\<lparr>sc_command_name = name, sc_transaction_id = tid, sc_stream_name = stream\<rparr>,
            length (members_bytes [Amf0String name, Amf0Number tid, Amf0Null, Amf0String stream]))"
proof -
  have e: "Amf0Number_decode [] = Err (-1)" by (simp add: Amf0Number_decode_def)
  from assms(4) show ?thesis
  proof
    assume "obj = Amf0Null"
    then show ?thesis using assms(1-3) e
      by (simp add: RtmpPublishMessage_decode_def RtmpPlayMessage_decode_def RtmpCreateStreamMessage_decode_def
          RtmpReleaseStreamMessage_decode_def RtmpFCPublishMessage_decode_def server_message_def
          member_simps length_amf0_bytes del: amf0_bytes.simps)
  next
    assume "\<exists>props. obj = Amf0Object props \<and> amf0_wf_props props"
    then obtain props where "obj = Amf0Object props" "amf0_wf_props props" by blast
    then show ?thesis using assms(1-3) e
      by (simp add: RtmpPublishMessage_decode_def RtmpPlayMessage_decode_def RtmpCreateStreamMessage_decode_def
          RtmpReleaseStreamMessage_decode_def RtmpFCPublishMessage_decode_def server_message_def
          member_simps length_amf0_bytes del: amf0_bytes.simps)
  qed
qed

theorem stream_commands_decoded_witness:
  "fst (case RtmpPlayMessage_decode (server_message 20 (members_bytes
        [Amf0String ''play'', Amf0Number 0, Amf0Null, Amf0String ''cam''])) of Ok r \<Rightarrow> r)
   = \<lparr>sc_command_name = ''play'', sc_transaction_id = 0, sc_stream_name = ''cam'',
      pl_start = double_of_int (-2), pl_duration = double_of_int (-1), pl_reset = True\<rparr>"
  using stream_commands_decoded [of "''play''" "''cam''" "''live''" Amf0Null 20 0] by simp

text \<open>An onMetaData message, with or without the @setDataFrame prefix, is decoded to the fields
  of its array and kept as the cached message, and an integral number property such as the width
  arrives as that integer.\<close>

theorem metadata_decoded:
  assumes "ecma_wf props" "length name < 65536" "name \<noteq> ''@setDataFrame''"
    and "p = members_bytes (if prefixed then [Amf0String ''@setDataFrame'', Amf0String name] else [Amf0String name])
           @ ecma_bytes props"
    and "map_of props ''width'' = Some (Amf0Number (double_of_int w))" "0 \<le> w" "w < 2 ^ 32"
  shows "\<exists>md. RtmpMetaDataMessage_decode (server_message t p) = Ok (md, length p)
    \<and> md_cache_msg md = server_message t p \<and> md_width md = Some (of_int w)
    \<and> (md_has_video md \<longleftrightarrow> getProperty_Number props ''videocodecid'' \<noteq> None)"
proof -
  let ?m = "server_message t p"
  have ecma: "member c (Amf0EcmaArray_decode []) (ecma_bytes props) pos k = k props [] (pos + length (ecma_bytes props))"
    for c pos and k :: "properties \<Rightarrow> bytes \<Rightarrow> nat \<Rightarrow> (metadata \<times> nat) outcome"
    using Amf0EcmaArray_decode_bytes [OF assms(1), of "[]"] by (simp add: member_def)
  have "RtmpMetaDataMessage_decode ?m = Ok (metadata_fields ?m props, length p)"
    using assms(2-4) ecma
    by (cases prefixed) (simp_all add: RtmpMetaDataMessage_decode_def server_message_def member_simps
        length_amf0_bytes del: amf0_bytes.simps)
  moreover have "md_width (metadata_fields ?m props) = Some (of_int w)"
    using assms(5-7)
    by (simp add: metadata_fields_def number_field_def getProperty_Number_def getProperty_def
        u32_of_double_of_int)
  ultimately show ?thesis by (simp add: metadata_fields_def)
qed

theorem metadata_decoded_witness:
  "\<exists>md. RtmpMetaDataMessage_decode (server_message 18 (members_bytes [Amf0String ''onMetaData'']
       @ ecma_bytes [(''width'', Amf0Number (double_of_int 1280))])) = Ok (md, length (members_bytes
         [Amf0String ''onMetaData''] @ ecma_bytes [(''width'', Amf0Number (double_of_int 1280))]))
     \<and> md_width md = Some 1280"
  using metadata_decoded [of "[(''width'', Amf0Number (double_of_int 1280))]" "''onMetaData''" _ False 1280 18]
  by (auto simp: ecma_wf_def)

text \<open>The decoders of releaseStream, FCPublish and metadata messages never read outside the
  payload and never report more than its length.\<close>

theorem object_free_decoders_safe:
  "RtmpReleaseStreamMessage_decode m \<noteq> Fault \<and> RtmpFCPublishMessage_decode m \<noteq> Fault
   \<and> RtmpMetaDataMessage_decode m \<noteq> Fault
   \<and> (\<forall>r. RtmpReleaseStreamMessage_decode m = Ok r \<longrightarrow> snd r \<le> length (msg_payload m))
   \<and> (\<forall>r. RtmpFCPublishMessage_decode m = Ok r \<longrightarrow> snd r \<le> length (msg_payload m))"
  by (auto simp: RtmpReleaseStreamMessage_decode_def RtmpFCPublishMessage_decode_def
      RtmpMetaDataMessage_decode_def member_Fault_iff member_Ok_iff Let_def
      dest!: amf0_scalar_decode_consumed)

theorem object_free_decoders_safe_witness:
  "RtmpReleaseStreamMessage_decode (server_message 20 [2, 0, 1, 97, 0, 0, 0, 0, 0, 0, 0, 0, 0, 5, 2, 0, 1, 98, 7])
     = Ok (\<lparr>sc_command_name = ''a'', sc_transaction_id = 0, sc_stream_name = ''b''\<rparr>, 18)
   \<and> (18 :: nat) \<le> 19"
proof -
  let ?m = "server_message 20 [2, 0, 1, 97, 0, 0, 0, 0, 0, 0, 0, 0, 0, 5, 2, 0, 1, 98, 7]"
  have e: "RtmpReleaseStreamMessage_decode ?m
     = Ok (\<lparr>sc_command_name = ''a'', sc_transaction_id = 0, sc_stream_name = ''b''\<rparr>, 18)" by code_simp
  with object_free_decoders_safe [of ?m] have "(18 :: nat) \<le> length (msg_payload ?m)" by fastforce
  with e show ?thesis by (simp add: server_message_def)
qed

end
