(* ===== verification/Flv.thy ===== *)
theory Flv
  imports Rtmp_Define
begin

text \<open>
  The FLV layer of \<open>src/protocol/flv/flv_define.hpp\<close>: file and tag headers, and the audio and video
  tag headers in front of every RTMP audio and video payload.  The tag header objects are not
  initialised by the code; a decoder therefore takes the previous contents of the object and
  leaves the members it does not write as they were.
\<close>

section \<open>File and tag headers\<close>

definition FlvHeader_encode :: "bytes \<Rightarrow> bytes outcome" where
  "FlvHeader_encode buf =
     (if length buf < 9 then Fault
      else Ok [0x46, 0x4c, 0x56, 0x01, 0x05, 0x00, 0x00, 0x00, 0x09])"

definition FlvTagHeader_encodeFromRtmpMessage :: "rtmp_message \<Rightarrow> bytes \<Rightarrow> bytes outcome" where
  "FlvTagHeader_encodeFromRtmpMessage m buf =
     (if length buf < 1 then Err (-1)
      else if length buf - 1 < 3 then Err (-2)
      else if length buf - 4 < 4 then Err (-3)
      else if length buf - 8 < 3 then Err (-4)
      else Ok ([msg_type m] @ be 3 (length (msg_payload m))
        @ be 3 (unat (msg_timestamp m)) @ [of_nat (unat (msg_timestamp m) div 2 ^ 24)] @ [0, 0, 0]))"

section \<open>Audio tags\<close>

abbreviation (input) AAC :: byte where "AAC \<equiv> 10"
abbreviation (input) AACSequenceHeader :: byte where "AACSequenceHeader \<equiv> 0"
abbreviation (input) AACRaw :: byte where "AACRaw \<equiv> 1"

record audio_tag_header =
  sound_format :: byte
  sound_rate :: byte
  sound_size :: byte
  sound_type :: byte
  aac_packet_type :: byte

definition AudioTagHeader_isSeqHeader :: "audio_tag_header \<Rightarrow> bool" where
  "AudioTagHeader_isSeqHeader h \<longleftrightarrow> aac_packet_type h = AACSequenceHeader"

definition AudioTagHeader_decode :: "audio_tag_header \<Rightarrow> bytes \<Rightarrow> (audio_tag_header \<times> nat) outcome" where
  "AudioTagHeader_decode h data =
     (if length data < 1 then Err (-1)
      else obind (rd8 data 0) (\<lambda>d.
        let h = h\<lparr>sound_type := d AND 0x01, sound_size := drop_bit 1 d AND 0x01,
                  sound_rate := drop_bit 2 d AND 0x03, sound_format := drop_bit 4 d AND 0x0f\<rparr> in
        if sound_format h = AAC then
          if length data - 1 < 1 then Err (-2)
          else obind (rd8 data 1) (\<lambda>t. Ok (h\<lparr>aac_packet_type := t\<rparr>, 2))
        else Ok (h, 1)))"

text \<open>The body is kept as the bytes behind the header: the configuration or the raw frame of an AAC
  tag, nothing for other formats.\<close>

definition FlvAudioTag_decode :: "audio_tag_header \<Rightarrow> bytes \<Rightarrow> ((audio_tag_header \<times> bytes option) \<times> nat) outcome" where
  "FlvAudioTag_decode h buf =
     obind (or_code (-1) (AudioTagHeader_decode h buf)) (\<lambda>(h, consumed).
       if sound_format h = AAC then
         if aac_packet_type h = AACSequenceHeader \<or> aac_packet_type h = AACRaw
         then Ok ((h, Some (drop consumed buf)), length buf)
         else Err (-2)
       else Ok ((h, None), consumed))"

section \<open>Video tags\<close>

abbreviation (input) KeyFrame :: byte where "KeyFrame \<equiv> 1"
abbreviation (input) AVC :: byte where "AVC \<equiv> 7"
abbreviation (input) AVCSequenceHeader :: byte where "AVCSequenceHeader \<equiv> 0"

record video_tag_header =
  frame_type :: byte
  codec_id :: byte
  avc_packet_type :: byte
  composition_time :: u32

definition VideoTagHeader_isKeyFrame :: "video_tag_header \<Rightarrow> bool" where
  "VideoTagHeader_isKeyFrame h \<longleftrightarrow> frame_type h = KeyFrame"

definition VideoTagHeader_isSeqHeader :: "video_tag_header \<Rightarrow> bool" where
  "VideoTagHeader_isSeqHeader h \<longleftrightarrow> avc_packet_type h = AVCSequenceHeader"

text \<open>The three bytes of the composition time are stored into the low bytes of the word before
  \<open>ntohl\<close>, so they end up in its high bytes.\<close>

definition VideoTagHeader_decode :: "video_tag_header \<Rightarrow> bytes \<Rightarrow> (video_tag_header \<times> nat) outcome" where
  "VideoTagHeader_decode h data =
     (if length data < 1 then Err (-1)
      else obind (rd8 data 0) (\<lambda>d.
        let h = h\<lparr>frame_type := drop_bit 4 d AND 0x0f, codec_id := d AND 0x0f\<rparr> in
        if codec_id h = AVC then
          if length data - 1 < 4 then Err (-2)
          else obind (rd8 data 1) (\<lambda>t.
            obind (rdn data 2 3) (\<lambda>c.
              Ok (h\<lparr>avc_packet_type := t, composition_time := of_nat (unbe (c @ [0]))\<rparr>, 5)))
        else Ok (h, 1)))"

definition FlvVideoTag_decode :: "video_tag_header \<Rightarrow> bytes \<Rightarrow> ((video_tag_header \<times> bytes option) \<times> nat) outcome" where
  "FlvVideoTag_decode h data =
     obind (or_code (-1) (VideoTagHeader_decode h data)) (\<lambda>(h, consumed).
       if codec_id h = AVC then Ok ((h, Some (drop consumed data)), length data)
       else Ok ((h, None), consumed))"

text \<open>\<open>RtmpFlvDemuxer::isKeyFrame\<close> of \<open>src/demuxer/rtmp_flv_demuxer.hpp\<close>, on a fresh header object \<open>h\<close>.\<close>

definition RtmpFlvDemuxer_isKeyFrame :: "video_tag_header \<Rightarrow> rtmp_message \<Rightarrow> bool" where
  "RtmpFlvDemuxer_isKeyFrame h m =
     (case VideoTagHeader_decode h (msg_payload m) of
        Ok (h, _) \<Rightarrow> avc_packet_type h = 1 \<and> frame_type h = KeyFrame
      | _ \<Rightarrow> False)"

section \<open>Lemmas\<close>

lemma AudioTagHeader_decode_safe:
  "AudioTagHeader_decode h data \<noteq> Fault"
  "AudioTagHeader_decode h data = Ok (h', n) \<Longrightarrow> n \<le> length data"
  by (auto simp: AudioTagHeader_decode_def obind_Fault_iff obind_Ok_iff Let_def Suc_le_eq
      split: if_splits)

lemma VideoTagHeader_decode_safe:
  "VideoTagHeader_decode h data \<noteq> Fault"
  "VideoTagHeader_decode h data = Ok (h', n) \<Longrightarrow> n \<le> length data"
  by (auto simp: VideoTagHeader_decode_def obind_Fault_iff obind_Ok_iff Let_def Suc_le_eq
      split: if_splits)

text \<open>Reading a tag header back, as a player does.\<close>

definition flv_tag_fields :: "bytes \<Rightarrow> byte \<times> nat \<times> u32" where
  "flv_tag_fields t =
     (t ! 0, unbe (take 3 (drop 1 t)), of_nat (unat (t ! 7) * 2 ^ 24 + unbe (take 3 (drop 4 t))))"

lemma timestamp_split: "unat (w :: u32) div 2 ^ 24 < 256"
proof -
  have "unat w < 2 ^ 32" using unsigned_less [of w] by simp
  then show ?thesis by (simp add: less_mult_imp_div_less)
qed

section \<open>Properties\<close>

text \<open>The FLV tag header written for an RTMP message is eleven bytes from which the message
  type, the payload size (below 16 MB) and the full 32-bit timestamp can be read back.\<close>

theorem flv_tag_header_round_trip:
  assumes "length (msg_payload m) < 2 ^ 24" "11 \<le> length buf"
  shows "\<exists>t. FlvTagHeader_encodeFromRtmpMessage m buf = Ok t \<and> length t = 11
    \<and> flv_tag_fields t = (msg_type m, length (msg_payload m), msg_timestamp m)"
proof -
  let ?ts = "unat (msg_timestamp m)"
  have q: "unat (of_nat (?ts div 2 ^ 24) :: byte) = ?ts div 2 ^ 24"
    using timestamp_split [of "msg_timestamp m"] by (simp add: unat_of_nat)
  have "?ts div 2 ^ 24 * 2 ^ 24 + unbe (be 3 ?ts) = ?ts"
    using div_mult_mod_eq [of ?ts "2 ^ 24"] by (simp add: unbe_be)
  then have ts: "(of_nat (unat (of_nat (?ts div 2 ^ 24) :: byte) * 2 ^ 24 + unbe (be 3 ?ts)) :: u32) = msg_timestamp m"
    unfolding q by simp
  have t: "FlvTagHeader_encodeFromRtmpMessage m buf = Ok ([msg_type m] @ be 3 (length (msg_payload m))
        @ be 3 ?ts @ [of_nat (?ts div 2 ^ 24)] @ [0, 0, 0])"
    using assms(2) by (auto simp: FlvTagHeader_encodeFromRtmpMessage_def)
  have f: "flv_tag_fields ([msg_type m] @ be 3 (length (msg_payload m)) @ be 3 ?ts
      @ [of_nat (?ts div 2 ^ 24)] @ [0, 0, 0]) = (msg_type m, length (msg_payload m), msg_timestamp m)"
    using assms(1) ts by (simp add: flv_tag_fields_def nth_append)
  show ?thesis unfolding t outcome.inject using f by auto
qed

theorem flv_tag_header_round_trip_witness:
  "\<exists>t. FlvTagHeader_encodeFromRtmpMessage (server_message 9 [1]) (replicate 11 0) = Ok t
    \<and> length t = 11 \<and> flv_tag_fields t = (9, 1, 0)"
  using flv_tag_header_round_trip [of "server_message 9 [1]" "replicate 11 0"]
  by (simp add: server_message_def)

text \<open>The audio and video tag header decoders never read outside the payload; for an AAC or
  AVC tag the packet type is the second byte, for every other codec it is whatever the header
  object held before, so whether such a tag counts as a sequence header is left to chance.\<close>

theorem tag_headers_safe_but_uninitialised:
  "AudioTagHeader_decode h data \<noteq> Fault \<and> VideoTagHeader_decode g data \<noteq> Fault
   \<and> (\<forall>h' n. AudioTagHeader_decode h data = Ok (h', n) \<longrightarrow>
        aac_packet_type h' = (if sound_format h' = AAC then data ! 1 else aac_packet_type h))
   \<and> (\<forall>g' n. VideoTagHeader_decode g data = Ok (g', n) \<longrightarrow>
        avc_packet_type g' = (if codec_id g' = AVC then data ! 1 else avc_packet_type g))"
  by (auto simp: AudioTagHeader_decode_def VideoTagHeader_decode_def obind_Fault_iff obind_Ok_iff
      Let_def split: if_splits)

theorem tag_headers_safe_but_uninitialised_witness:
  "\<exists>g'. VideoTagHeader_decode \<lparr>frame_type = 0, codec_id = 0, avc_packet_type = 0, composition_time = 0\<rparr>
      [0x12, 1] = Ok (g', 1) \<and> VideoTagHeader_isSeqHeader g'"
proof -
  let ?g = "\<lparr>frame_type = 0, codec_id = 0, avc_packet_type = 0, composition_time = 0\<rparr>"
  have "VideoTagHeader_decode ?g [0x12, 1]
      = Ok (\<lparr>frame_type = 1, codec_id = 2, avc_packet_type = 0, composition_time = 0\<rparr>, 1)" by code_simp
  with tag_headers_safe_but_uninitialised [of _ "[0x12, 1]" ?g] show ?thesis
    by (auto simp: VideoTagHeader_isSeqHeader_def)
qed

text \<open>The composition time of a decoded AVC tag is 256 times the 24-bit value on the wire.\<close>

theorem composition_time_scaled:
  assumes "data ! 0 AND 0x0f = AVC" "5 \<le> length data"
  shows "\<exists>h'. VideoTagHeader_decode h data = Ok (h', 5)
    \<and> composition_time h' = of_nat (256 * unbe (take 3 (drop 2 data)))"
  using assms
  by (auto simp: VideoTagHeader_decode_def Let_def Suc_le_eq mult.commute simp del: of_nat_mult)

theorem composition_time_scaled_witness:
  "\<exists>h'. VideoTagHeader_decode \<lparr>frame_type = 0, codec_id = 0, avc_packet_type = 0, composition_time = 0\<rparr>
      [0x17, 1, 0, 0, 40] = Ok (h', 5) \<and> composition_time h' = 10240"
  using composition_time_scaled [of "[0x17, 1, 0, 0, 40]"
    "\<lparr>frame_type = 0, codec_id = 0, avc_packet_type = 0, composition_time = 0\<rparr>"]
  by (simp add: unbe_def)

end
