(* ===== verification/Media_Source.thy ===== *)
theory Media_Source
  imports Rtmp_Message Flv
begin

text \<open>
  The media core: the sequence packet buffer of \<open>src/base/sequence_pkt_buf.hpp\<close>, the RTMP media
  source of \<open>src/core/rtmp_media_source.hpp\<close> that stores what a publisher sends and hands it to the
  players, and the sink side of \<open>src/core/rtmp_media_sink.cpp\<close>.

  The locale \<open>packet_store\<close> is what the source relies on in its buffer: the last \<open>window\<close> packets can
  be fetched under the index they were added with.  Shared pointers are options (\<open>None\<close> is
  \<open>nullptr\<close>); \<open>Fault\<close> is the dereference of a null pointer or of a past-the-end iterator.
\<close>

section \<open>The sequence packet buffer\<close>

record 'a seq_pkt_buf =
  max_size :: nat
  pkt_buf :: "(u64 \<times> 'a option) list"
  indexes :: u64

definition SequencePktBuf_new :: "nat \<Rightarrow> 'a seq_pkt_buf" where
  "SequencePktBuf_new n = \<lparr>max_size = n, pkt_buf = replicate n (0, None), indexes = 0\<rparr>"

definition addPkt :: "'a \<Rightarrow> 'a seq_pkt_buf \<Rightarrow> u64 \<times> 'a seq_pkt_buf" where
  "addPkt pkt b =
     (let i = indexes b + 1 in
      (i, b\<lparr>indexes := i, pkt_buf := (pkt_buf b)[unat i mod max_size b := (i, Some pkt)]\<rparr>))"

definition getPkt :: "u64 \<Rightarrow> 'a seq_pkt_buf \<Rightarrow> 'a option" where
  "getPkt index b = snd (pkt_buf b ! (unat index mod max_size b))"

section \<open>The contract of a packet store\<close>

text \<open>The loop that collects the packets from \<open>start_idx\<close> up to \<open>latest\<close>, at most \<open>max_count\<close> of them,
  and the index where it stopped.\<close>

function fetch :: "(int \<Rightarrow> 'a option) \<Rightarrow> int \<Rightarrow> nat \<Rightarrow> int \<Rightarrow> nat \<Rightarrow> 'a list \<times> int" where
  "fetch get latest max_count start_idx pkt_count =
     (if start_idx \<le> latest \<and> pkt_count < max_count then
        (case get start_idx of
           Some t \<Rightarrow>
             let (ts, e) = fetch get latest max_count (start_idx + 1) (pkt_count + 1) in (t # ts, e)
         | None \<Rightarrow> fetch get latest max_count (start_idx + 1) pkt_count)
      else ([], start_idx))"
  by pat_completeness auto
termination
  by (relation "measure (\<lambda>(_, latest, _, start_idx, _). nat (latest - start_idx + 1))") auto

declare fetch.simps [simp del]

locale packet_store =
  fixes add :: "'a \<Rightarrow> 's \<Rightarrow> u64 \<times> 's"
    and get :: "u64 \<Rightarrow> 's \<Rightarrow> 'a option"
    and window :: nat
    and holds :: "'a list \<Rightarrow> 's \<Rightarrow> bool"
  assumes add_index: "holds h s \<Longrightarrow> fst (add p s) = of_nat (Suc (length h))"
    and add_holds: "holds h s \<Longrightarrow> Suc (length h) < 2 ^ 63 \<Longrightarrow> holds (h @ [p]) (snd (add p s))"
    and get_recent: "holds h s \<Longrightarrow> i < length h \<Longrightarrow> length h < 2 ^ 63 \<Longrightarrow> length h \<le> i + window \<Longrightarrow>
      get (of_nat (Suc i)) s = Some (h ! i)"
begin

text \<open>Fetching from inside the window gives exactly the next packets.\<close>

lemma fetch_exact:
  assumes "holds h s" "length h < 2 ^ 63" "i \<le> length h" "length h \<le> i + window" "c \<le> n"
  shows "fetch (\<lambda>i. get (word_of_int i) s) (int (length h)) n (int (Suc i)) c
    = (take (n - c) (drop i h), int (Suc i + min (n - c) (length h - i)))"
  using assms
proof (induction "length h - i" arbitrary: i c)
  case 0
  then show ?case by (subst fetch.simps) simp
next
  case (Suc k)
  then have i: "i < length h" by simp
  show ?case
  proof (cases "c < n")
    case False
    then show ?thesis using Suc.prems by (subst fetch.simps) simp
  next
    case True
    have g: "get (word_of_int (int (Suc i))) s = Some (h ! i)"
      unfolding of_int_of_nat_eq using Suc.prems i by (intro get_recent)
    have "fetch (\<lambda>i. get (word_of_int i) s) (int (length h)) n (int (Suc (Suc i))) (Suc c)
      = (take (n - Suc c) (drop (Suc i) h), int (Suc (Suc i) + min (n - Suc c) (length h - Suc i)))"
      by (rule Suc.hyps) (use Suc.hyps(2) Suc.prems True i in auto)
    moreover have "int (Suc i) + 1 = int (Suc (Suc i))" by simp
    moreover have "int (Suc i) \<le> int (length h)" using i by simp
    moreover have "drop i h = h ! i # drop (Suc i) h" using i by (simp add: Cons_nth_drop_Suc)
    moreover have "n - c = Suc (n - Suc c)" "length h - i = Suc (length h - Suc i)" using True i by auto
    ultimately show ?thesis
      by (subst fetch.simps) (simp only: g True simp_thms if_True option.case Let_def prod.case Suc_eq_plus1 [symmetric]
          take_Suc_Cons min_Suc_Suc add_Suc_right add_Suc)
  qed
qed

end


text \<open>The buffer after the packets \<open>h\<close> were added: slot \<open>j\<close> holds the last packet whose index is \<open>j\<close>
  modulo the size.\<close>

definition spb_holds :: "nat \<Rightarrow> 'a list \<Rightarrow> 'a seq_pkt_buf \<Rightarrow> bool" where
  "spb_holds n h b \<longleftrightarrow> max_size b = n \<and> 0 < n \<and> length (pkt_buf b) = n \<and> indexes b = of_nat (length h)
     \<and> (\<forall>i < length h. length h \<le> i + n \<longrightarrow> pkt_buf b ! (Suc i mod n) = (of_nat (Suc i), Some (h ! i)))"

lemma spb_holds_new: "0 < n \<Longrightarrow> spb_holds n [] (SequencePktBuf_new n)"
  by (simp add: spb_holds_def SequencePktBuf_new_def)

lemma unat_of_nat_u64: "n < 2 ^ 64 \<Longrightarrow> unat (of_nat n :: u64) = n"
proof -
  assume "n < 2 ^ 64"
  then have "n mod 2 ^ 64 = n" by (rule mod_less)
  then show ?thesis by (simp add: unat_of_nat)
qed

lemma mod_window_distinct:
  assumes "(i :: nat) < j" "j < i + n" "0 < n"
  shows "i mod n \<noteq> j mod n"
proof
  assume "i mod n = j mod n"
  then have "n dvd (j - i)" using assms(1) mod_eq_dvd_iff_nat [of i j n] by simp
  then have "n \<le> j - i" using assms(1) by (intro dvd_imp_le) simp_all
  with assms show False by linarith
qed

lemma addPkt_holds:
  assumes "spb_holds n h b" "Suc (length h) < 2 ^ 63"
  shows "spb_holds n (h @ [p]) (snd (addPkt p b))"
proof -
  have b: "max_size b = n" "0 < n" "length (pkt_buf b) = n" "indexes b = of_nat (length h)"
    and slots: "\<And>i. i < length h \<Longrightarrow> length h \<le> i + n \<Longrightarrow>
      pkt_buf b ! (Suc i mod n) = (of_nat (Suc i), Some (h ! i))"
    using assms(1) by (auto simp: spb_holds_def)
  have "Suc (length h) < 2 ^ 64" using assms(2) by (rule less_trans) simp
  then have u: "unat (of_nat (Suc (length h)) :: u64) = Suc (length h)" by (rule unat_of_nat_u64)
  have ix: "indexes b + 1 = of_nat (Suc (length h))" using b(4) by (simp add: add.commute)
  let ?j = "Suc (length h) mod n"
  have buf: "pkt_buf (snd (addPkt p b)) = (pkt_buf b)[?j := (of_nat (Suc (length h)), Some p)]"
    unfolding addPkt_def Let_def ix by (simp add: b(1) u del: of_nat_Suc)
  have "pkt_buf (snd (addPkt p b)) ! (Suc i mod n) = (of_nat (Suc i), Some ((h @ [p]) ! i))"
    if i: "i < Suc (length h)" "Suc (length h) \<le> i + n" for i
  proof (cases "i = length h")
    case True
    then show ?thesis using b(2,3) by (simp add: buf del: of_nat_Suc)
  next
    case False
    with i have lt: "i < length h" by simp
    have "Suc i mod n \<noteq> ?j" using lt i b(2) by (intro mod_window_distinct) simp_all
    then show ?thesis using slots [OF lt] lt i by (simp add: buf nth_append del: of_nat_Suc)
  qed
  then show ?thesis
    using b ix by (auto simp: spb_holds_def addPkt_def Let_def simp del: of_nat_Suc)
qed

interpretation spb: packet_store addPkt getPkt n "spb_holds n" for n
proof
  fix h :: "'a list" and s p
  assume "spb_holds n h s"
  then show "fst (addPkt p s) = of_nat (Suc (length h))"
    by (simp add: spb_holds_def addPkt_def Let_def add.commute)
next
  fix h :: "'a list" and s p
  assume "spb_holds n h s" "Suc (length h) < 2 ^ 63"
  then show "spb_holds n (h @ [p]) (snd (addPkt p s))" by (rule addPkt_holds)
next
  fix h :: "'a list" and s i
  assume a: "spb_holds n h s" "i < length h" "length h < 2 ^ 63" "length h \<le> i + n"
  then have "Suc i < 2 ^ 64" by simp
  then have "unat (of_nat (Suc i) :: u64) = Suc i" by (rule unat_of_nat_u64)
  then show "getPkt (of_nat (Suc i)) s = Some (h ! i)"
    using a by (simp add: getPkt_def spb_holds_def del: of_nat_Suc)
qed

section \<open>The RTMP media source\<close>

record rtmp_media_source =
  av_pkts :: "rtmp_message seq_pkt_buf"
  source_metadata :: "metadata option"
  video_header :: "rtmp_message option"
  audio_header :: "rtmp_message option"
  keyframe_indexes :: "u64 list"
  latest_frame_index :: int
  has_video :: bool
  video_ready :: bool
  has_audio :: bool
  audio_ready :: bool
  stream_ready :: bool
  latest_video_timestamp :: u32
  latest_audio_timestamp :: u32
  sinks :: "nat set"

text \<open>\<open>has_video_\<close> and \<open>has_audio_\<close> are not initialised: their first values are arguments.\<close>

definition RtmpMediaSource_new :: "bool \<Rightarrow> bool \<Rightarrow> rtmp_media_source" where
  "RtmpMediaSource_new v a =
     \<lparr>av_pkts = SequencePktBuf_new 2048, source_metadata = None, video_header = None, audio_header = None,
      keyframe_indexes = [], latest_frame_index = 0, has_video = v, video_ready = False, has_audio = a,
      audio_ready = False, stream_ready = False, latest_video_timestamp = 0, latest_audio_timestamp = 0,
      sinks = {}\<rparr>"

text \<open>\<open>push_back\<close> of \<open>boost::circular_buffer\<close> drops the oldest element of a full buffer.\<close>

definition circular_push :: "nat \<Rightarrow> 'a list \<Rightarrow> 'a \<Rightarrow> 'a list" where
  "circular_push cap xs x = (if length xs < cap then xs @ [x] else tl xs @ [x])"

definition store_packet :: "rtmp_message \<Rightarrow> rtmp_media_source \<Rightarrow> rtmp_media_source" where
  "store_packet m src =
     (let (i, b) = addPkt m (av_pkts src) in src\<lparr>av_pkts := b, latest_frame_index := sint i\<rparr>)"

definition update_ready :: "rtmp_media_source \<Rightarrow> rtmp_media_source" where
  "update_ready src =
     (if stream_ready src then src
      else src\<lparr>stream_ready := (if has_audio src then audio_ready src else True)
                 \<and> (if has_video src then video_ready src else True)\<rparr>)"

text \<open>The sinks woken up after a packet.\<close>

definition woken :: "rtmp_media_source \<Rightarrow> nat set" where
  "woken src = (if 300 \<le> latest_frame_index src \<or> latest_frame_index src mod 5 = 0 then sinks src else {})"

definition onAudioPacket ::
  "audio_tag_header \<Rightarrow> rtmp_message \<Rightarrow> rtmp_media_source \<Rightarrow> bool \<times> rtmp_media_source \<times> nat set" where
  "onAudioPacket h m src =
     (let src = store_packet m src in
      case AudioTagHeader_decode h (msg_payload m) of
        Ok (h, _) \<Rightarrow>
          let src = (if AudioTagHeader_isSeqHeader h then src\<lparr>audio_ready := True, audio_header := Some m\<rparr> else src);
              src = (update_ready src)\<lparr>latest_audio_timestamp := msg_timestamp m\<rparr> in
          (True, src, woken src)
      | _ \<Rightarrow> (False, src, {}))"

definition onVideoPacket ::
  "video_tag_header \<Rightarrow> rtmp_message \<Rightarrow> rtmp_media_source \<Rightarrow> bool \<times> rtmp_media_source \<times> nat set" where
  "onVideoPacket h m src =
     (let src = store_packet m src in
      case VideoTagHeader_decode h (msg_payload m) of
        Ok (h, _) \<Rightarrow>
          let src =
                (if VideoTagHeader_isKeyFrame h \<and> \<not> VideoTagHeader_isSeqHeader h then
                   src\<lparr>keyframe_indexes :=
                     circular_push 200 (keyframe_indexes src) (of_int (latest_frame_index src))\<rparr>
                 else if VideoTagHeader_isSeqHeader h then src\<lparr>video_ready := True, video_header := Some m\<rparr>
                 else src);
              src = (update_ready src)\<lparr>latest_video_timestamp := msg_timestamp m\<rparr> in
          (True, src, woken src)
      | _ \<Rightarrow> (False, src, {}))"

definition onMetadata :: "metadata \<Rightarrow> rtmp_media_source \<Rightarrow> rtmp_media_source" where
  "onMetadata md src =
     src\<lparr>source_metadata := Some md, has_video := md_has_video md, has_audio := md_has_audio md\<rparr>"

definition addMediaSink :: "nat \<Rightarrow> rtmp_media_source \<Rightarrow> rtmp_media_source" where
  "addMediaSink sink src = src\<lparr>sinks := insert sink (sinks src)\<rparr>"

definition removeMediaSink :: "nat \<Rightarrow> rtmp_media_source \<Rightarrow> rtmp_media_source" where
  "removeMediaSink sink src = src\<lparr>sinks := sinks src - {sink}\<rparr>"

text \<open>The sinks to close, and the source without sinks.\<close>

definition RtmpMediaSource_close :: "rtmp_media_source \<Rightarrow> nat set \<times> rtmp_media_source" where
  "RtmpMediaSource_close src = (sinks src, src\<lparr>sinks := {}\<rparr>)"

text \<open>The newest keyframe at least two seconds old, from the newest one backwards; \<open>None\<close> when the
  iterator reaches the end.\<close>

fun keyframe_scan :: "rtmp_media_source \<Rightarrow> u64 list \<Rightarrow> u64 option" where
  "keyframe_scan src [] = None"
| "keyframe_scan src (i # is) =
     (case getPkt i (av_pkts src) of
        None \<Rightarrow> Some i
      | Some t \<Rightarrow>
          if 2000 \<le> sint (latest_video_timestamp src - msg_timestamp t) then Some i
          else keyframe_scan src is)"

definition getPkts :: "int \<Rightarrow> nat \<Rightarrow> rtmp_media_source \<Rightarrow> (rtmp_message option list \<times> int) outcome" where
  "getPkts last_pkt_index max_count src =
     (let collect_from = (\<lambda>start. fetch (\<lambda>i. getPkt (of_int i) (av_pkts src)) (latest_frame_index src)
                           max_count start 0) in
      if last_pkt_index = -1 then
        (case source_metadata src of
           None \<Rightarrow> Fault
         | Some md \<Rightarrow>
             let pkts = [Some (md_cache_msg md)] @ (if has_video src then [video_header src] else [])
                        @ (if has_audio src then [audio_header src] else []) in
             if has_video src then
               (case keyframe_scan src (rev (keyframe_indexes src)) of
                  None \<Rightarrow> Fault
                | Some i \<Rightarrow> let (ps, e) = collect_from (sint i) in Ok (pkts @ map Some ps, e))
             else Ok (pkts, last_pkt_index))
      else let (ps, e) = collect_from last_pkt_index in Ok (map Some ps, e))"

text \<open>The task a woken sink runs: what it queues for its connection, and its next index.\<close>

definition RtmpMediaSink_active :: "int \<Rightarrow> rtmp_media_source \<Rightarrow> (rtmp_message option list \<times> int) outcome" where
  "RtmpMediaSink_active last_send_pkt_index src =
     (if \<not> stream_ready src then Ok ([], last_send_pkt_index)
      else getPkts last_send_pkt_index 10 src)"


lemma take_min_length: "take n xs = take (min n (length xs)) xs"
  by (simp add: min_def)

section \<open>What the source holds\<close>

text \<open>The source after the audio and video packets \<open>h\<close>, in this order.\<close>

definition source_holds :: "rtmp_message list \<Rightarrow> rtmp_media_source \<Rightarrow> bool" where
  "source_holds h src \<longleftrightarrow> spb_holds 2048 h (av_pkts src) \<and> latest_frame_index src = int (length h)"

lemma sint_of_nat_u64: "n < 2 ^ 63 \<Longrightarrow> sint (of_nat n :: u64) = int n"
proof -
  assume n: "n < 2 ^ 63"
  then have "n < 2 ^ 64" by (rule less_trans) simp
  then have "unat (of_nat n :: u64) = n" by (rule unat_of_nat_u64)
  then have u: "uint (of_nat n :: u64) = int n" by (simp only: uint_nat)
  have "sint (of_nat n :: u64) = signed_take_bit 63 (int n)"
    unfolding sint_uint u by simp
  also have "\<dots> = int n" using n by (intro signed_take_bit_int_eq_self) simp_all
  finally show ?thesis .
qed

lemma source_holds_new: "source_holds [] (RtmpMediaSource_new v a)"
  by (simp add: source_holds_def RtmpMediaSource_new_def spb_holds_new)

lemma store_packet_holds:
  assumes "source_holds h src" "Suc (length h) < 2 ^ 63"
  shows "source_holds (h @ [m]) (store_packet m src)"
proof -
  have s: "spb_holds 2048 h (av_pkts src)" using assms(1) by (simp add: source_holds_def)
  have "sint (fst (addPkt m (av_pkts src))) = int (Suc (length h))"
    unfolding spb.add_index [OF s] using assms(2) by (rule sint_of_nat_u64)
  then show ?thesis
    using spb.add_holds [OF s assms(2)] by (simp add: source_holds_def store_packet_def split_beta)
qed

lemma source_holds_cong:
  "av_pkts src' = av_pkts src \<Longrightarrow> latest_frame_index src' = latest_frame_index src \<Longrightarrow>
     source_holds h src' = source_holds h src"
  by (simp add: source_holds_def)

lemma update_ready_keeps [simp]:
  "av_pkts (update_ready src) = av_pkts src" "latest_frame_index (update_ready src) = latest_frame_index src"
  by (simp_all add: update_ready_def)

lemma on_packet_keeps:
  "av_pkts (fst (snd (onAudioPacket ha m src))) = av_pkts (store_packet m src)"
  "latest_frame_index (fst (snd (onAudioPacket ha m src))) = latest_frame_index (store_packet m src)"
  "av_pkts (fst (snd (onVideoPacket hv m src))) = av_pkts (store_packet m src)"
  "latest_frame_index (fst (snd (onVideoPacket hv m src))) = latest_frame_index (store_packet m src)"
  by (auto simp: onAudioPacket_def onVideoPacket_def Let_def split: outcome.splits)

lemma source_fetch:
  assumes "source_holds h src" "length h < 2 ^ 63" "i \<le> length h" "length h \<le> i + 2048"
  shows "fetch (\<lambda>i. getPkt (of_int i) (av_pkts src)) (latest_frame_index src) n (int (Suc i)) 0
    = (take n (drop i h), int (Suc i + min n (length h - i)))"
  using assms spb.fetch_exact [of 2048 h "av_pkts src" i 0 n] by (simp add: source_holds_def)

lemma getPkts_running:
  assumes "source_holds h src" "length h < 2 ^ 63" "i \<le> length h" "length h \<le> i + 2048"
  shows "getPkts (int (Suc i)) n src
    = Ok (map Some (take n (drop i h)), int (Suc i + min n (length h - i)))"
  using source_fetch [OF assms, of n] by (simp add: getPkts_def Let_def)

lemma source_packet:
  assumes "source_holds h src" "length h < 2 ^ 63" "i < length h" "length h \<le> i + 2048"
  shows "getPkt (of_nat (Suc i)) (av_pkts src) = Some (h ! i)"
  using assms spb.get_recent [of 2048 h "av_pkts src" i] by (simp add: source_holds_def)

section \<open>Properties\<close>

text \<open>Whatever audio and video packets a publisher sends, and however metadata and sinks come
  and go in between, the source holds exactly the packets sent, each under its running number.\<close>

theorem source_records_packets:
  assumes "source_holds h src" "Suc (length h) < 2 ^ 63"
  shows "source_holds (h @ [m]) (fst (snd (onAudioPacket ha m src)))
    \<and> source_holds (h @ [m]) (fst (snd (onVideoPacket hv m src)))
    \<and> source_holds h (onMetadata md src) \<and> source_holds h (addMediaSink k src)
    \<and> source_holds h (removeMediaSink k src) \<and> source_holds h (snd (RtmpMediaSource_close src))"
  using assms store_packet_holds [OF assms]
  by (simp add: source_holds_cong [OF on_packet_keeps(1,2)] source_holds_cong [OF on_packet_keeps(3,4)])
    (simp add: source_holds_def onMetadata_def addMediaSink_def removeMediaSink_def RtmpMediaSource_close_def)

theorem source_records_packets_witness:
  "source_holds [server_message 9 [0x17, 0]] (fst (snd (onVideoPacket
     \<lparr>frame_type = 0, codec_id = 0, avc_packet_type = 0, composition_time = 0\<rparr>
     (server_message 9 [0x17, 0]) (RtmpMediaSource_new True True))))"
  using source_records_packets [OF source_holds_new] by simp

text \<open>A source with one player: the packets published so far, the source, the player's index and what
  the player has been given.  The publisher adds packets while the player is less than 2048 of
  them behind; metadata and sinks come and go; the player fetches.\<close>

inductive play_step ::
  "rtmp_message list \<times> rtmp_media_source \<times> int \<times> rtmp_message option list \<Rightarrow>
   rtmp_message list \<times> rtmp_media_source \<times> int \<times> rtmp_message option list \<Rightarrow> bool" where
  audio: "int (length h) < l + 2047 \<Longrightarrow> Suc (length h) < 2 ^ 63 \<Longrightarrow>
    play_step (h, src, l, got) (h @ [m], fst (snd (onAudioPacket ha m src)), l, got)"
| video: "int (length h) < l + 2047 \<Longrightarrow> Suc (length h) < 2 ^ 63 \<Longrightarrow>
    play_step (h, src, l, got) (h @ [m], fst (snd (onVideoPacket hv m src)), l, got)"
| metadata: "play_step (h, src, l, got) (h, onMetadata md src, l, got)"
| join: "play_step (h, src, l, got) (h, addMediaSink k src, l, got)"
| leave: "play_step (h, src, l, got) (h, removeMediaSink k src, l, got)"
| poll: "getPkts l n src = Ok (ps, l') \<Longrightarrow> play_step (h, src, l, got) (h, src, l', got @ ps)"

definition play_inv :: "nat \<Rightarrow> rtmp_message list \<times> rtmp_media_source \<times> int \<times> rtmp_message option list \<Rightarrow> bool" where
  "play_inv i = (\<lambda>(h, src, l, got). source_holds h src \<and> length h < 2 ^ 63
     \<and> i + length got \<le> length h \<and> length h \<le> i + length got + 2048
     \<and> l = int (Suc (i + length got)) \<and> got = map Some (take (length got) (drop i h)))"

lemma play_inv_publish:
  assumes "play_inv i (h, src, l, got)" "source_holds (h @ [m]) src'"
    and "int (length h) < l + 2047" "Suc (length h) < 2 ^ 63"
  shows "play_inv i (h @ [m], src', l, got)"
proof -
  have "take (length got) (drop i (h @ [m])) = take (length got) (drop i h)"
    using assms(1) by (simp add: play_inv_def)
  then show ?thesis using assms by (auto simp: play_inv_def)
qed

lemma play_inv_poll:
  assumes "play_inv i (h, src, l, got)" "getPkts l n src = Ok (ps, l')"
  shows "play_inv i (h, src, l', got @ ps)"
proof -
  let ?g = "length got" and ?k = "min n (length h - (i + length got))"
  have "getPkts l n src = Ok (map Some (take n (drop (i + ?g) h)), int (Suc (i + ?g) + ?k))"
    using assms(1) getPkts_running [of h src "i + ?g" n] by (simp add: play_inv_def)
  with assms(2) have ps: "ps = map Some (take n (drop (i + ?g) h))" "l' = int (Suc (i + ?g) + ?k)" by simp_all
  have lps: "length ps = ?k" by (simp add: ps min.commute)
  have "take n (drop (i + ?g) h) = take ?k (drop (i + ?g) h)"
    by (cases "n \<le> length h - (i + ?g)") simp_all
  then have "got @ ps = map Some (take (?g + ?k) (drop i h))"
    using assms(1) unfolding ps take_add by (simp add: play_inv_def add.commute)
  with lps ps(2) assms(1) show ?thesis by (auto simp: play_inv_def)
qed

lemma play_inv_step: "play_step c c' \<Longrightarrow> play_inv i c \<Longrightarrow> play_inv i c'"
proof (induction rule: play_step.induct)
  case (audio h l src got m ha)
  then show ?case
    by (intro play_inv_publish)
      (auto simp: play_inv_def source_holds_cong [OF on_packet_keeps(1,2)] intro: store_packet_holds)
next
  case (video h l src got m hv)
  then show ?case
    by (intro play_inv_publish)
      (auto simp: play_inv_def source_holds_cong [OF on_packet_keeps(3,4)] intro: store_packet_holds)
next
  case (poll l n src ps l' h got)
  then show ?case by (simp add: play_inv_poll)
qed (simp_all add: play_inv_def source_holds_def onMetadata_def addMediaSink_def removeMediaSink_def)

lemma play_inv_reachable: "play_step\<^sup>*\<^sup>* c c' \<Longrightarrow> play_inv i c \<Longrightarrow> play_inv i c'"
  by (induction rule: rtranclp_induct) (auto intro: play_inv_step)

text \<open>Claim C6: A player that is never more than 2048 packets behind misses nothing and sees nothing
  twice: in every interleaving of publishing, metadata, sinks coming and going and fetches of any
  size, what it was given is the published sequence from its starting point on, without gap or
  repetition, and its next fetch succeeds with the packets that follow.\<close>

theorem player_gets_every_packet_once:
  assumes "play_step\<^sup>*\<^sup>* (h0, src0, int (Suc i), []) (h, src, l, got)"
    and "source_holds h0 src0" "length h0 < 2 ^ 63" "i \<le> length h0" "length h0 \<le> i + 2048"
  shows "got = map Some (take (length got) (drop i h)) \<and> l = int (Suc (i + length got))
    \<and> getPkts l n src = Ok (map Some (take n (drop (i + length got) h)),
        l + int (min n (length h - (i + length got))))"
proof -
  have "play_inv i (h, src, l, got)"
    using play_inv_reachable [OF assms(1), of i] assms(2-5) by (simp add: play_inv_def)
  then show ?thesis using getPkts_running [of h src "i + length got" n] by (simp add: play_inv_def)
qed

theorem player_gets_every_packet_once_witness:
  "let src = RtmpMediaSource_new True True; m = server_message 8 [0x21];
       src' = fst (snd (onAudioPacket \<lparr>sound_format = 0, sound_rate = 0, sound_size = 0, sound_type = 0,
         aac_packet_type = 1\<rparr> m src)) in
   getPkts 1 10 src' = Ok ([Some m], 2)"
proof -
  let ?src = "RtmpMediaSource_new True True" and ?m = "server_message 8 [0x21]"
  let ?src' = "fst (snd (onAudioPacket \<lparr>sound_format = 0, sound_rate = 0, sound_size = 0, sound_type = 0,
         aac_packet_type = 1\<rparr> ?m ?src))"
  have "play_step ([], ?src, int (Suc 0), []) ([] @ [?m], ?src', int (Suc 0), [])"
    by (rule play_step.audio) simp_all
  then have "play_step\<^sup>*\<^sup>* ([], ?src, int (Suc 0), []) ([] @ [?m], ?src', int (Suc 0), [])" ..
  from player_gets_every_packet_once [OF this source_holds_new, of 10] show ?thesis by (simp add: Let_def)
qed

text \<open>A player that joins a stream with video gets the metadata, the sequence headers and then
  the packets from the newest keyframe that is at least two seconds old, at most \<open>max_count\<close>
  of them, and continues behind them.\<close>

theorem player_joins_at_old_keyframe:
  assumes "source_holds h src" "length h < 2 ^ 63" "source_metadata src = Some md" "has_video src"
    and "keyframe_indexes src = old @ [of_nat (Suc i)] @ recent"
    and "i < length h" "length h \<le> i + 2048"
    and "2000 \<le> sint (latest_video_timestamp src - msg_timestamp (h ! i))"
    and "\<forall>r \<in> set recent. \<exists>j < length h. r = of_nat (Suc j) \<and> length h \<le> j + 2048
           \<and> sint (latest_video_timestamp src - msg_timestamp (h ! j)) < 2000"
  shows "getPkts (-1) n src =
    Ok ([Some (md_cache_msg md), video_header src] @ (if has_audio src then [audio_header src] else [])
          @ map Some (take n (drop i h)), int (Suc i + min n (length h - i)))"
proof -
  have scan: "keyframe_scan src (rs @ [of_nat (Suc i)] @ tl) = Some (of_nat (Suc i))"
    if "\<forall>r \<in> set rs. \<exists>j < length h. r = of_nat (Suc j) \<and> length h \<le> j + 2048
           \<and> sint (latest_video_timestamp src - msg_timestamp (h ! j)) < 2000" for rs tl
    using that
  proof (induction rs)
    case Nil
    then show ?case
      using source_packet [OF assms(1,2,6,7)] assms(8) by (simp del: of_nat_Suc)
  next
    case (Cons r rs)
    then obtain j where "j < length h" "r = of_nat (Suc j)" "length h \<le> j + 2048"
      "sint (latest_video_timestamp src - msg_timestamp (h ! j)) < 2000" by auto
    with Cons source_packet [OF assms(1,2)] show ?case by (simp del: of_nat_Suc)
  qed
  have s: "sint (of_nat (Suc i) :: u64) = int (Suc i)"
    using assms(2,6) by (intro sint_of_nat_u64) simp
  have k: "keyframe_scan src (rev (keyframe_indexes src)) = Some (of_nat (Suc i))"
    using scan [of "rev recent" "rev old"] assms(5,9) by (simp del: of_nat_Suc)
  show ?thesis
    using source_fetch [OF assms(1,2) _ assms(7), of n] assms(3,4,6)
    by (simp add: getPkts_def Let_def k s del: of_nat_Suc)
qed

definition demo_vh :: video_tag_header where
  "demo_vh = \<lparr>frame_type = 0, codec_id = 0, avc_packet_type = 0, composition_time = 0\<rparr>"

definition demo_pkts :: "rtmp_message list" where
  "demo_pkts = [server_message 9 [0x17, 0, 0, 0, 0], server_message 9 [0x17, 1, 0, 0, 0],
     (server_message 9 [0x27, 1, 0, 0, 0])\<lparr>msg_timestamp := 2500\<rparr>]"

definition demo_md :: metadata where
  "demo_md = metadata_fields (server_message 18 []) [(''videocodecid'', Amf0Number 0x401c000000000000)]"

definition demo_source :: rtmp_media_source where
  "demo_source = foldl (\<lambda>s m. fst (snd (onVideoPacket demo_vh m s)))
     (onMetadata demo_md (RtmpMediaSource_new False False)) demo_pkts"

lemma demo_source_holds: "source_holds demo_pkts demo_source"
proof -
  have step: "source_holds (h @ [m]) (fst (snd (onVideoPacket demo_vh m s)))"
    if "source_holds h s" "Suc (length h) < 2 ^ 63" for h m s
    using store_packet_holds [OF that] by (simp add: source_holds_cong [OF on_packet_keeps(3,4)])
  have "source_holds [] (onMetadata demo_md (RtmpMediaSource_new False False))"
    using source_holds_new by (simp add: source_holds_def onMetadata_def)
  then have "source_holds ([] @ [demo_pkts ! 0] @ [demo_pkts ! 1] @ [demo_pkts ! 2]) demo_source"
    unfolding demo_source_def
    using step [of "[]"] step [of "[_]"] step [of "[_, _]"] by (simp add: demo_pkts_def)
  then show ?thesis by (simp add: demo_pkts_def)
qed

lemma demo_decodes:
  "VideoTagHeader_decode demo_vh [0x17, 0, 0, 0, 0]
     = Ok (\<lparr>frame_type = 1, codec_id = 7, avc_packet_type = 0, composition_time = 0\<rparr>, 5)"
  "VideoTagHeader_decode demo_vh [0x17, 1, 0, 0, 0]
     = Ok (\<lparr>frame_type = 1, codec_id = 7, avc_packet_type = 1, composition_time = 0\<rparr>, 5)"
  "VideoTagHeader_decode demo_vh [0x27, 1, 0, 0, 0]
     = Ok (\<lparr>frame_type = 2, codec_id = 7, avc_packet_type = 1, composition_time = 0\<rparr>, 5)"
  by code_simp+

lemma demo_md_flags: "md_has_video demo_md" "\<not> md_has_audio demo_md"
  by code_simp+

lemma demo_source_fields:
  "source_metadata demo_source = Some demo_md" "has_video demo_source" "\<not> has_audio demo_source"
  "keyframe_indexes demo_source = [2]" "latest_video_timestamp demo_source = 2500"
  "video_header demo_source = Some (demo_pkts ! 0)"
  by (simp_all add: demo_source_def demo_pkts_def onVideoPacket_def onMetadata_def store_packet_def
      addPkt_def SequencePktBuf_new_def RtmpMediaSource_new_def Let_def server_message_def demo_decodes
      demo_md_flags VideoTagHeader_isKeyFrame_def VideoTagHeader_isSeqHeader_def update_ready_def
      circular_push_def)

theorem player_joins_at_old_keyframe_witness:
  "getPkts (-1) 10 demo_source
     = Ok ([Some (md_cache_msg demo_md), Some (demo_pkts ! 0), Some (demo_pkts ! 1), Some (demo_pkts ! 2)], 4)"
proof -
  have d: "length demo_pkts = 3" "drop 1 demo_pkts = [demo_pkts ! 1, demo_pkts ! 2]"
    "msg_timestamp (demo_pkts ! 1) = 0" by (simp_all add: demo_pkts_def server_message_def)
  show ?thesis
    using player_joins_at_old_keyframe [OF demo_source_holds, of demo_md "[]" 1 "[]" 10] demo_source_fields d
    by simp
qed



text \<open>A player of a stream without video never gets an audio packet: every fetch returns the
  metadata and the audio header again and leaves the index at -1.\<close>

theorem audio_only_player_starves:
  assumes "source_metadata src = Some md" "\<not> has_video src"
  shows "getPkts (-1) n src
    = Ok ([Some (md_cache_msg md)] @ (if has_audio src then [audio_header src] else []), -1)"
  using assms by (simp add: getPkts_def Let_def)

theorem audio_only_player_starves_witness:
  "getPkts (-1) 10 ((RtmpMediaSource_new False True)\<lparr>source_metadata := Some demo_md\<rparr>)
     = Ok ([Some (md_cache_msg demo_md), None], -1)"
  using audio_only_player_starves [of "(RtmpMediaSource_new False True)\<lparr>source_metadata := Some demo_md\<rparr>"]
  by (simp add: RtmpMediaSource_new_def)

text \<open>A player that fell 2048 packets behind is silently given newer packets: the packet found
  under an index that left the buffer is the one published 2048 packets later.\<close>

theorem slow_player_skips_silently:
  assumes "source_holds h src" "length h < 2 ^ 63" "i + 2048 < length h" "length h \<le> i + 4096"
  shows "getPkt (of_nat (Suc i)) (av_pkts src) = Some (h ! (i + 2048))"
proof -
  have u: "unat (of_nat (Suc i) :: u64) = Suc i" "unat (of_nat (Suc (i + 2048)) :: u64) = Suc (i + 2048)"
    using assms(2,3) by (intro unat_of_nat_u64, simp)+
  have "max_size (av_pkts src) = 2048" using assms(1) by (simp add: source_holds_def spb_holds_def)
  moreover have "Suc (i + 2048) mod 2048 = Suc i mod 2048"
    using mod_add_self2 [of "Suc i" 2048] by simp
  ultimately have "getPkt (of_nat (Suc i)) (av_pkts src) = getPkt (of_nat (Suc (i + 2048))) (av_pkts src)"
    unfolding getPkt_def u by simp
  then show ?thesis using source_packet [OF assms(1,2), of "i + 2048"] assms(3,4) by simp
qed

lemma source_holding: "length h < 2 ^ 63 \<Longrightarrow> \<exists>src. source_holds h src"
proof (induction h rule: rev_induct)
  case Nil
  then show ?case using source_holds_new by blast
next
  case (snoc m h)
  then show ?case using store_packet_holds by fastforce
qed

theorem slow_player_skips_silently_witness:
  "\<exists>src. source_holds (map (\<lambda>i. server_message 8 [of_nat i]) [0..<2049]) src
    \<and> getPkt 1 (av_pkts src) = Some (server_message 8 [of_nat 2048])"
proof -
  let ?h = "map (\<lambda>i. server_message 8 [of_nat i]) [0..<2049]"
  obtain src where s: "source_holds ?h src" using source_holding [of ?h] by auto
  from slow_player_skips_silently [OF s, of 0] s show ?thesis by (auto simp: nth_map)
qed

end
