(* ===== verification/Rtmp_Session.thy ===== *)
theory Rtmp_Session
  imports Media_Source Tcp_Socket
begin

text \<open>
  The RTMP session: the handshake of \<open>src/server/rtmp/rtmp_protocol/rtmp_handshake.hpp\<close>, the media
  manager of \<open>src/core/media_manager.hpp\<close> and the command handlers of
  \<open>src/server/rtmp/rtmp_session.cpp\<close>.

  The server is the map of its sessions and the registry of published sources (a source is the
  session that publishes it).  A handler returns whether the session goes on, as its C++ original
  does; \<open>Fault\<close> is an access outside a buffer.  The results of the blocking sends of a session are
  a list it consumes, the messages that were sent are recorded.  Members the code reads without
  having initialised them come from an argument (\<open>junk\<close>).
\<close>

section \<open>Handshake\<close>

definition genS0S1S2 :: "bytes \<Rightarrow> u32 \<Rightarrow> bytes \<Rightarrow> bytes" where
  "genS0S1S2 c0c1 now s0s1s2 =
     [0x03] @ replicate 8 0 @ take 1528 (drop 9 s0s1s2)
     @ take 4 (drop 1 c0c1) @ be 4 (unat now) @ take 1528 (drop 9 c0c1)"

definition RtmpHandshake_handshake :: "u32 \<Rightarrow> bytes \<Rightarrow> tcp_socket \<Rightarrow> bool \<times> tcp_socket" where
  "RtmpHandshake_handshake now stack conn =
     (case TcpSocket_recv 1537 conn of
        (None, conn) \<Rightarrow> (False, conn)
      | (Some c0c1, conn) \<Rightarrow>
          (case TcpSocket_send (genS0S1S2 c0c1 now stack) conn of
             (False, conn) \<Rightarrow> (False, conn)
           | (True, conn) \<Rightarrow>
               (case TcpSocket_recv 1536 conn of
                  (None, conn) \<Rightarrow> (False, conn)
                | (Some c2, conn) \<Rightarrow> (True, conn))))"

section \<open>State\<close>

record rtmp_session =
  domain :: string
  app :: string
  stream_name :: string
  session_name :: string
  is_publisher :: bool
  is_player :: bool
  session_closed :: bool
  media :: rtmp_media_source
  last_send_pkt_index :: int
  send_results :: "bool list" \<comment> \<open>what the following blocking sends return\<close>
  sent_msgs :: "rtmp_message list"

record media_server =
  sessions :: "nat \<Rightarrow> rtmp_session"
  media_sources :: "string \<rightharpoonup> nat"

record junk =
  junk_audio :: audio_tag_header
  junk_video :: video_tag_header
  junk_double :: u64

definition upd_session :: "nat \<Rightarrow> (rtmp_session \<Rightarrow> rtmp_session) \<Rightarrow> media_server \<Rightarrow> media_server" where
  "upd_session sid f srv = srv\<lparr>sessions := (sessions srv)(sid := f (sessions srv sid))\<rparr>"

section \<open>The media manager\<close>

definition addSource :: "string \<Rightarrow> nat \<Rightarrow> media_server \<Rightarrow> bool \<times> media_server" where
  "addSource name sid srv =
     (case media_sources srv name of
        Some _ \<Rightarrow> (False, srv)
      | None \<Rightarrow> (True, srv\<lparr>media_sources := (media_sources srv)(name \<mapsto> sid)\<rparr>))"

definition removeSource :: "string \<Rightarrow> media_server \<Rightarrow> bool \<times> media_server" where
  "removeSource name srv = (True, srv\<lparr>media_sources := (media_sources srv)(name := None)\<rparr>)"

definition getSource :: "string \<Rightarrow> media_server \<Rightarrow> nat option" where
  "getSource name srv = media_sources srv name"

section \<open>Sending\<close>

text \<open>The blocking \<open>chunk_protocol_.sendRtmpMessage\<close> of an encoded message; a message that could not
  be encoded is not sent.\<close>

definition send_message :: "nat \<Rightarrow> rtmp_message option \<Rightarrow> media_server \<Rightarrow> bool \<times> media_server" where
  "send_message sid m srv =
     (case m of
        None \<Rightarrow> (False, srv)
      | Some m \<Rightarrow>
          (case send_results (sessions srv sid) of
             [] \<Rightarrow> (False, srv)
           | r # rs \<Rightarrow>
               (r, upd_session sid (\<lambda>s. s\<lparr>send_results := rs,
                  sent_msgs := sent_msgs s @ (if r then [m] else [])\<rparr>) srv)))"

text \<open>A sequence of sends, each followed by \<^verbatim>\<open>return false\<close> on failure, in front of \<open>k\<close>.\<close>

fun send_all ::
  "nat \<Rightarrow> rtmp_message option outcome list \<Rightarrow> media_server \<Rightarrow> (media_server \<Rightarrow> (bool \<times> media_server) outcome)
     \<Rightarrow> (bool \<times> media_server) outcome" where
  "send_all sid [] srv k = k srv"
| "send_all sid (e # es) srv k =
     obind e (\<lambda>m.
       case send_message sid m srv of
         (False, srv) \<Rightarrow> Ok (False, srv)
       | (True, srv) \<Rightarrow> send_all sid es srv k)"

section \<open>Parsing names\<close>

text \<open>\<open>boost::split\<close> with \<open>is_any_of\<close> of one character: adjacent separators give empty parts.\<close>

fun split_on :: "char \<Rightarrow> string \<Rightarrow> string list" where
  "split_on c [] = [[]]"
| "split_on c (x # xs) =
     (case split_on c xs of
        [] \<Rightarrow> []
      | p # ps \<Rightarrow> if x = c then [] # p # ps else (x # p) # ps)"

definition parse_domain :: "string \<Rightarrow> string option" where
  "parse_domain tc_url =
     (let vs = split_on (CHR ''/'') tc_url in
      if length vs < 3 then None
      else if vs ! 0 \<noteq> ''rtmp:'' then None
      else if vs ! 1 \<noteq> [] then None
      else
        let host = vs ! 2; tmp = split_on (CHR '':'') host in
        Some (if CHR '':'' \<in> set host \<and> 1 < length tmp then tmp ! 0 else host))"

definition parseConnectCmd :: "connect_command \<Rightarrow> rtmp_session \<Rightarrow> rtmp_session option" where
  "parseConnectCmd cmd s =
     (case parse_domain (cc_tc_url cmd) of
        None \<Rightarrow> None
      | Some host \<Rightarrow>
          let vs = split_on (CHR ''/'') (cc_app cmd) in
          if length vs < 1 then None
          else Some (s\<lparr>domain := host, app := vs ! 0,
                       stream_name := (if 2 \<le> length vs then vs ! 1 else stream_name s)\<rparr>))"

definition name_session :: "string \<Rightarrow> rtmp_session \<Rightarrow> rtmp_session" where
  "name_session stream s =
     (let sn = (if stream_name s = [] then stream else stream_name s) in
      s\<lparr>stream_name := sn, session_name := domain s @ ''/'' @ app s @ ''/'' @ sn\<rparr>)"

section \<open>Command handlers\<close>

definition connect_replies :: "u64 \<Rightarrow> connect_command \<Rightarrow> rtmp_message option outcome list" where
  "connect_replies junk_d cmd =
     [Ok (Some (RtmpWindowAckSizeMessage_encode 80000000)),
      Ok (Some (RtmpSetPeerBandwidthMessage_encode (800000000, 2))),
      Ok (Some (RtmpSetChunkSizeMessage_encode 4096)),
      RtmpConnectRespMessage_encode ''_result'' (cc_transaction_id cmd)
        (setItemValue ''capabilities'' (Amf0Number (double_of_int 31))
          (setItemValue ''fmsVer'' (Amf0String ''FMS/3,0,1,123'') []))
        (setItemValue ''objEncoding'' (Amf0Number (case cc_object_encoding cmd of Some d \<Rightarrow> d | None \<Rightarrow> junk_d))
          (setItemValue ''description'' (Amf0String ''Connection succeed.'')
            (setItemValue ''code'' (Amf0String ''NetConnection.Connect.Success'')
              (setItemValue ''level'' (Amf0String ''status'') []))))]"

definition handleAmf0ConnectCommand ::
  "junk \<Rightarrow> nat \<Rightarrow> rtmp_message \<Rightarrow> media_server \<Rightarrow> (bool \<times> media_server) outcome" where
  "handleAmf0ConnectCommand j sid m srv =
     (case RtmpConnectCommandMessage_decode m of
        Fault \<Rightarrow> Fault
      | Err _ \<Rightarrow> Ok (False, srv)
      | Ok (cmd, _) \<Rightarrow>
          (case parseConnectCmd cmd (sessions srv sid) of
             None \<Rightarrow> Ok (False, srv)
           | Some s \<Rightarrow>
               send_all sid (connect_replies (junk_double j) cmd) (upd_session sid (\<lambda>_. s) srv)
                 (\<lambda>srv. Ok (True, srv))))"

definition handleAmf0ReleaseStreamCommand ::
  "nat \<Rightarrow> rtmp_message \<Rightarrow> media_server \<Rightarrow> (bool \<times> media_server) outcome" where
  "handleAmf0ReleaseStreamCommand sid m srv =
     (case RtmpReleaseStreamMessage_decode m of
        Fault \<Rightarrow> Fault
      | Err _ \<Rightarrow> Ok (False, srv)
      | Ok (cmd, _) \<Rightarrow>
          send_all sid [RtmpReleaseStreamRespMessage_encode ''_result'' (sc_transaction_id cmd) []] srv
            (\<lambda>srv. Ok (True, srv)))"

definition handleAmf0FCPublishCommand ::
  "nat \<Rightarrow> rtmp_message \<Rightarrow> media_server \<Rightarrow> (bool \<times> media_server) outcome" where
  "handleAmf0FCPublishCommand sid m srv =
     (case RtmpFCPublishMessage_decode m of
        Fault \<Rightarrow> Fault
      | Err _ \<Rightarrow> Ok (False, srv)
      | Ok (cmd, _) \<Rightarrow>
          send_all sid [RtmpFCPublishRespMessage_encode ''_result'' (sc_transaction_id cmd) []] srv
            (\<lambda>srv. Ok (True, srv)))"

definition handleAmf0CreateStreamCommand ::
  "nat \<Rightarrow> rtmp_message \<Rightarrow> media_server \<Rightarrow> (bool \<times> media_server) outcome" where
  "handleAmf0CreateStreamCommand sid m srv =
     (case RtmpCreateStreamMessage_decode m of
        Fault \<Rightarrow> Fault
      | Err _ \<Rightarrow> Ok (False, srv)
      | Ok ((_, tid), _) \<Rightarrow>
          send_all sid [RtmpCreateStreamRespMessage_encode ''_result'' tid []] srv (\<lambda>srv. Ok (True, srv)))"

definition status_data :: "string \<Rightarrow> string \<Rightarrow> properties" where
  "status_data code description =
     setItemValue ''clientid'' (Amf0String ''mms'')
       (setItemValue ''description'' (Amf0String description)
         (setItemValue ''code'' (Amf0String code)
           (setItemValue ''level'' (Amf0String ''status'') [])))"

definition handleAmf0PublishCommand ::
  "nat \<Rightarrow> rtmp_message \<Rightarrow> media_server \<Rightarrow> (bool \<times> media_server) outcome" where
  "handleAmf0PublishCommand sid m srv =
     (case RtmpPublishMessage_decode m of
        Fault \<Rightarrow> Fault
      | Err _ \<Rightarrow> Ok (False, srv)
      | Ok (cmd, _) \<Rightarrow>
          send_all sid
            [RtmpOnStatusRespMessage_encode (sc_transaction_id cmd) []
              (status_data ''NetStream.Publish.Start'' ''publish start ok.'')]
            (upd_session sid (name_session (sc_stream_name cmd)) srv)
            (\<lambda>srv. Ok (addSource (session_name (sessions srv sid)) sid
               (upd_session sid (\<lambda>s. s\<lparr>is_publisher := True, is_player := False\<rparr>) srv))))"

definition handleAmf0PlayCommand ::
  "nat \<Rightarrow> rtmp_message \<Rightarrow> media_server \<Rightarrow> (bool \<times> media_server) outcome" where
  "handleAmf0PlayCommand sid m srv =
     (case RtmpPlayMessage_decode m of
        Fault \<Rightarrow> Fault
      | Err _ \<Rightarrow> Ok (False, srv)
      | Ok (cmd, _) \<Rightarrow>
          send_all sid
            [Ok (Some (RtmpStreamBeginMessage_encode 1)),
             RtmpOnStatusRespMessage_encode (sc_transaction_id cmd) []
               (status_data ''NetStream.Play.Start'' ''play start ok.''),
             RtmpAccessSampleMessage_encode True True]
            (upd_session sid (name_session (sc_stream_name cmd)) srv)
            (\<lambda>srv.
               case getSource (session_name (sessions srv sid)) srv of
                 None \<Rightarrow> Ok (False, srv)
               | Some p \<Rightarrow>
                   let srv = upd_session sid (\<lambda>s. s\<lparr>is_publisher := False, is_player := True\<rparr>) srv in
                   Ok (True, upd_session p (\<lambda>s. s\<lparr>media := addMediaSink sid (media s)\<rparr>) srv)))"

definition handleAmf0Command ::
  "junk \<Rightarrow> nat \<Rightarrow> rtmp_message \<Rightarrow> media_server \<Rightarrow> (bool \<times> media_server) outcome" where
  "handleAmf0Command j sid m srv =
     (case Amf0String_decode (msg_payload m) of
        Fault \<Rightarrow> Fault
      | Err _ \<Rightarrow> Ok (False, srv)
      | Ok (name, _) \<Rightarrow>
          if name = ''connect'' then handleAmf0ConnectCommand j sid m srv
          else if name = ''releaseStream'' then handleAmf0ReleaseStreamCommand sid m srv
          else if name = ''FCPublish'' then handleAmf0FCPublishCommand sid m srv
          else if name = ''createStream'' then handleAmf0CreateStreamCommand sid m srv
          else if name = ''publish'' then handleAmf0PublishCommand sid m srv
          else if name = ''play'' then handleAmf0PlayCommand sid m srv
          else Ok (True, srv))"

section \<open>Data, audio and video\<close>

definition handleAmf0Data :: "nat \<Rightarrow> rtmp_message \<Rightarrow> media_server \<Rightarrow> (bool \<times> media_server) outcome" where
  "handleAmf0Data sid m srv =
     (case RtmpMetaDataMessage_decode m of
        Fault \<Rightarrow> Fault
      | Err _ \<Rightarrow> Ok (False, srv)
      | Ok (md, _) \<Rightarrow> Ok (True, upd_session sid (\<lambda>s. s\<lparr>media := onMetadata md (media s)\<rparr>) srv))"

definition handleVideoMsg ::
  "junk \<Rightarrow> nat \<Rightarrow> rtmp_message \<Rightarrow> media_server \<Rightarrow> (bool \<times> media_server) outcome" where
  "handleVideoMsg j sid m srv =
     (let (ok, src, woken) = onVideoPacket (junk_video j) m (media (sessions srv sid)) in
      Ok (ok, upd_session sid (\<lambda>s. s\<lparr>media := src\<rparr>) srv))"

definition handleAudioMsg ::
  "junk \<Rightarrow> nat \<Rightarrow> rtmp_message \<Rightarrow> media_server \<Rightarrow> (bool \<times> media_server) outcome" where
  "handleAudioMsg j sid m srv =
     (let (ok, src, woken) = onAudioPacket (junk_audio j) m (media (sessions srv sid)) in
      Ok (ok, upd_session sid (\<lambda>s. s\<lparr>media := src\<rparr>) srv))"

definition onRecvRtmpMessage ::
  "junk \<Rightarrow> nat \<Rightarrow> rtmp_message \<Rightarrow> media_server \<Rightarrow> (bool \<times> media_server) outcome" where
  "onRecvRtmpMessage j sid m srv =
     (if msg_type m = RTMP_MESSAGE_TYPE_AMF0_COMMAND then handleAmf0Command j sid m srv
      else if msg_type m = RTMP_MESSAGE_TYPE_AMF0_DATA then handleAmf0Data sid m srv
      else if msg_type m = RTMP_MESSAGE_TYPE_USER_CONTROL then Ok (True, srv)
      else if msg_type m = RTMP_MESSAGE_TYPE_ACKNOWLEDGEMENT then Ok (True, srv)
      else if msg_type m = RTMP_MESSAGE_TYPE_VIDEO then handleVideoMsg j sid m srv
      else if msg_type m = RTMP_MESSAGE_TYPE_AUDIO then handleAudioMsg j sid m srv
      else Ok (True, srv))"

section \<open>Closing and service\<close>

text \<open>The sinks of a closed publisher are told to close by tasks posted to their workers: they are
  returned with the new state.\<close>

definition RtmpSession_close :: "nat \<Rightarrow> media_server \<Rightarrow> nat set \<times> media_server" where
  "RtmpSession_close sid srv =
     (let s = sessions srv sid in
      if session_closed s then ({}, srv)
      else
        let srv = upd_session sid (\<lambda>s. s\<lparr>session_closed := True\<rparr>) srv in
        if is_player s then
          (case getSource (session_name s) srv of
             None \<Rightarrow> ({}, srv)
           | Some p \<Rightarrow> ({}, upd_session p (\<lambda>q. q\<lparr>media := removeMediaSink sid (media q)\<rparr>) srv))
        else if is_publisher s then
          let (orphans, src) = RtmpMediaSource_close (media s) in
          (orphans, snd (removeSource (session_name s) (upd_session sid (\<lambda>s. s\<lparr>media := src\<rparr>) srv)))
        else ({}, srv))"

text \<open>The message handler as the receive loop calls it: a fault ends everything.\<close>

definition session_handler ::
  "junk \<Rightarrow> nat \<Rightarrow> media_server outcome \<Rightarrow> rtmp_message \<Rightarrow> bool \<times> media_server outcome" where
  "session_handler j sid st m =
     (case st of
        Ok srv \<Rightarrow> (case onRecvRtmpMessage j sid m srv of
            Ok (ok, srv) \<Rightarrow> (ok, Ok srv)
          | _ \<Rightarrow> (False, Fault))
      | _ \<Rightarrow> (False, Fault))"

text \<open>\<open>RtmpSession::service\<close> after the handshake: receive until the loop returns, then close the
  connection, which closes the session.\<close>

definition RtmpSession_service :: "junk \<Rightarrow> nat \<Rightarrow> bytes \<Rightarrow> media_server \<Rightarrow> (nat set \<times> media_server) outcome" where
  "RtmpSession_service j sid s srv =
     (case cycleRecvRtmpMessage (session_handler j sid) (Ok srv) chunk_recv_init s of
        (Returned _, Ok srv) \<Rightarrow> Ok (RtmpSession_close sid srv)
      | _ \<Rightarrow> Fault)"


section \<open>The contract of the source registry\<close>

locale source_registry =
  fixes add :: "'n \<Rightarrow> 'v \<Rightarrow> 's \<Rightarrow> bool \<times> 's"
    and remove :: "'n \<Rightarrow> 's \<Rightarrow> bool \<times> 's"
    and get :: "'n \<Rightarrow> 's \<Rightarrow> 'v option"
  assumes add_fresh: "get n s = None \<Longrightarrow> fst (add n v s) \<and> get n (snd (add n v s)) = Some v"
    and add_taken: "get n s = Some w \<Longrightarrow> add n v s = (False, s)"
    and add_other: "n' \<noteq> n \<Longrightarrow> get n' (snd (add n v s)) = get n' s"
    and remove_same: "get n (snd (remove n s)) = None"
    and remove_other: "n' \<noteq> n \<Longrightarrow> get n' (snd (remove n s)) = get n' s"
begin

lemma add_iff_fresh: "fst (add n v s) \<longleftrightarrow> get n s = None"
  using add_fresh [of n s v] add_taken [of n s _ v] by (cases "get n s") auto

text \<open>The first one to register a name keeps it.\<close>

lemma first_wins:
  assumes "fst (add n v s)"
  shows "add n w (snd (add n v s)) = (False, snd (add n v s))"
  using assms add_fresh [of n s v] add_taken by (simp add: add_iff_fresh)

lemma name_free_after_remove: "fst (add n v (snd (remove n s)))"
  by (simp add: add_iff_fresh remove_same)

end

interpretation registry: source_registry addSource removeSource getSource
  by unfold_locales
    (auto simp: addSource_def removeSource_def getSource_def split: option.splits)

section \<open>Lemmas\<close>

lemma upd_session_simps [simp]:
  "sessions (upd_session sid f srv) sid = f (sessions srv sid)"
  "sid' \<noteq> sid \<Longrightarrow> sessions (upd_session sid f srv) sid' = sessions srv sid'"
  "media_sources (upd_session sid f srv) = media_sources srv"
  "getSource n (upd_session sid f srv) = getSource n srv"
  by (simp_all add: upd_session_def getSource_def)

lemma registry_keeps_sessions [simp]:
  "sessions (snd (addSource n v srv)) = sessions srv" "sessions (snd (removeSource n srv)) = sessions srv"
  by (simp_all add: addSource_def removeSource_def split: option.splits)

lemma name_session_keeps [simp]:
  "send_results (name_session st s) = send_results s" "sent_msgs (name_session st s) = sent_msgs s"
  "session_closed (name_session st s) = session_closed s" "media (name_session st s) = media s"
  "is_publisher (name_session st s) = is_publisher s" "is_player (name_session st s) = is_player s"
  by (simp_all add: name_session_def Let_def)

text \<open>A successful send appends the message.\<close>

lemma send_message_True:
  "send_results (sessions srv sid) = True # rs \<Longrightarrow>
     send_message sid (Some m) srv = (True, upd_session sid (\<lambda>s. s\<lparr>send_results := rs,
        sent_msgs := sent_msgs s @ [m]\<rparr>) srv)"
  by (simp add: send_message_def)

lemma status_data_wf:
  "length code < 65536 \<Longrightarrow> length description < 65536 \<Longrightarrow> amf0_wf_props (status_data code description)"
  by (simp add: status_data_def setItemValue_def)

lemma onStatus_encoded:
  assumes "amf0_wf_props data"
  shows "RtmpOnStatusRespMessage_encode tid [] data = Ok (Some (server_message RTMP_MESSAGE_TYPE_AMF0_COMMAND
    (members_bytes [Amf0String ''onStatus'', Amf0Number tid, Amf0Object [], Amf0Object data])))"
  using assms by (simp add: RtmpOnStatusRespMessage_encode_def encode_command_wf del: members_bytes_simps)

lemma publish_handled:
  assumes "RtmpPublishMessage_decode m = Ok (cmd, n)" "send_results (sessions srv sid) = True # rs"
  defines "nm \<equiv> session_name (name_session (sc_stream_name cmd) (sessions srv sid))"
  shows "\<exists>srv1. handleAmf0PublishCommand sid m srv = Ok (addSource nm sid srv1)
    \<and> media_sources srv1 = media_sources srv
    \<and> is_publisher (sessions srv1 sid) \<and> \<not> is_player (sessions srv1 sid)
    \<and> session_name (sessions srv1 sid) = nm
    \<and> session_closed (sessions srv1 sid) = session_closed (sessions srv sid)
    \<and> (\<forall>other. other \<noteq> sid \<longrightarrow> sessions srv1 other = sessions srv other)"
proof -
  let ?msg = "server_message RTMP_MESSAGE_TYPE_AMF0_COMMAND (members_bytes [Amf0String ''onStatus'',
    Amf0Number (sc_transaction_id cmd), Amf0Object [],
    Amf0Object (status_data ''NetStream.Publish.Start'' ''publish start ok.'')])"
  let ?srv1 = "upd_session sid (\<lambda>s. s\<lparr>is_publisher := True, is_player := False\<rparr>)
    (upd_session sid (\<lambda>s. s\<lparr>send_results := rs, sent_msgs := sent_msgs s @ [?msg]\<rparr>)
      (upd_session sid (name_session (sc_stream_name cmd)) srv))"
  have "handleAmf0PublishCommand sid m srv = Ok (addSource nm sid ?srv1)"
    using assms(1,2)
    by (simp add: handleAmf0PublishCommand_def onStatus_encoded status_data_wf send_message_True nm_def
        del: members_bytes_simps)
  then show ?thesis by (intro exI [of _ ?srv1]) (simp add: nm_def)
qed

lemma close_publisher:
  assumes "\<not> session_closed (sessions srv sid)" "is_publisher (sessions srv sid)" "\<not> is_player (sessions srv sid)"
  shows "fst (RtmpSession_close sid srv) = sinks (media (sessions srv sid))"
    "getSource (session_name (sessions srv sid)) (snd (RtmpSession_close sid srv)) = None"
    "sinks (media (sessions (snd (RtmpSession_close sid srv)) sid)) = {}"
    "other \<noteq> sid \<Longrightarrow> sessions (snd (RtmpSession_close sid srv)) other = sessions srv other"
  using assms by (simp_all add: RtmpSession_close_def RtmpMediaSource_close_def Let_def registry.remove_same)

lemma split_on_not_Nil [simp]: "split_on c xs \<noteq> []"
  by (induction xs) (auto split: list.splits)

lemma split_on_prefix: "c \<notin> set xs \<Longrightarrow> split_on c (xs @ c # ys) = xs # split_on c ys"
proof (induction xs)
  case Nil
  then show ?case using split_on_not_Nil [of c ys] by (auto split: list.splits simp del: split_on_not_Nil)
next
  case (Cons x xs)
  then show ?case by auto
qed

section \<open>Properties\<close>

text \<open>A handshake that succeeds has read C0, C1 and C2 and nothing else, and has answered with
  version 3 and 3073 bytes whose S2 part echoes the time and the random part of C1; the random
  part of S1 is whatever the stack buffer held.\<close>

theorem handshake_echoes:
  assumes "RtmpHandshake_handshake now stack c = (True, c')" "length stack = 3073"
  shows "\<exists>c0c1 c2 s. concat (segments c) = c0c1 @ c2 @ concat (segments c') \<and> length c0c1 = 1537
    \<and> length c2 = 1536 \<and> sent c' = sent c @ s \<and> length s = 3073 \<and> s ! 0 = 3
    \<and> take 4 (drop 1537 s) = take 4 (drop 1 c0c1) \<and> drop 1545 s = drop 9 c0c1
    \<and> take 1528 (drop 9 s) = take 1528 (drop 9 stack)"
proof -
  obtain d1 a where 1: "TcpSocket_recv 1537 c = (Some d1, a)"
    using assms(1) by (auto simp: RtmpHandshake_handshake_def split: prod.splits option.splits)
  let ?s = "genS0S1S2 d1 now stack"
  obtain b where 2: "TcpSocket_send ?s a = (True, b)"
    using assms(1) 1 by (auto simp: RtmpHandshake_handshake_def split: prod.splits option.splits bool.splits)
  obtain d2 where 3: "TcpSocket_recv 1536 b = (Some d2, c')"
    using assms(1) 1 2 by (auto simp: RtmpHandshake_handshake_def split: prod.splits option.splits)
  have r1: "stream_recv 1537 (concat (segments c)) = Some (d1, concat (segments a))"
    using TcpSocket_recv_stream [of 1537 c] 1 by simp
  have r2: "stream_recv 1536 (concat (segments b)) = Some (d2, concat (segments c'))"
    using TcpSocket_recv_stream [of 1536 b] 3 by simp
  have "segments b = segments a" using 2 TcpSocket_send_keeps [of ?s a] by simp
  with r1 r2 have s: "concat (segments c) = d1 @ d2 @ concat (segments c')" "length d1 = 1537" "length d2 = 1536"
    by (simp_all add: stream_recv_Some_iff)
  have "sent b = sent a @ ?s" using TcpSocket_send_spec [of ?s a] 2 by auto
  moreover have "sent a = sent c" "sent c' = sent b" using TcpSocket_recv_keeps [of 1537 c] 1
    TcpSocket_recv_keeps [of 1536 b] 3 by simp_all
  ultimately have "sent c' = sent c @ ?s" by simp
  moreover have "length ?s = 3073" using s(2) assms(2) by (simp add: genS0S1S2_def)
  moreover have "take 4 (drop 1537 ?s) = take 4 (drop 1 d1)" "drop 1545 ?s = drop 9 d1"
    "take 1528 (drop 9 ?s) = take 1528 (drop 9 stack)" "?s ! 0 = 3"
    using s(2) assms(2) by (simp_all add: genS0S1S2_def)
  ultimately show ?thesis using s by blast
qed


definition demo_conn :: tcp_socket where
  "demo_conn = \<lparr>segments = [replicate 1537 7, replicate 1536 0], accepts = [5000], sent = [], in_bytes = 0,
     out_bytes = 0, has_handler = True, closed = False, close_events = 0, socket_open = True, deleted = False\<rparr>"

lemma demo_handshake: "fst (RtmpHandshake_handshake 0 (replicate 3073 9) demo_conn)"
proof -
  have 1: "TcpSocket_recv 1537 demo_conn
      = (Some (replicate 1537 7), demo_conn\<lparr>segments := [replicate 1536 0], in_bytes := 1537\<rparr>)"
    by (simp add: TcpSocket_recv_def demo_conn_def TcpSocket_recv_loop.simps)
  let ?c = "demo_conn\<lparr>segments := [replicate 1536 0], in_bytes := 1537\<rparr>"
  let ?s = "genS0S1S2 (replicate 1537 7) 0 (replicate 3073 9)"
  have l: "length ?s = 3073" "?s \<noteq> []" by (simp_all add: genS0S1S2_def)
  have 2: "fst (TcpSocket_send ?s ?c)"
    by (simp add: TcpSocket_send_def demo_conn_def l split: prod.splits)
  obtain c2 where c2: "TcpSocket_send ?s ?c = (True, c2)" "segments c2 = [replicate 1536 0]"
    using 2 TcpSocket_send_keeps [of ?s ?c] by (cases "TcpSocket_send ?s ?c") auto
  have "fst (TcpSocket_recv 1536 c2) = Some (replicate 1536 0)"
    by (simp add: TcpSocket_recv_def c2(2) TcpSocket_recv_loop.simps)
  with 1 c2(1) show ?thesis
    by (auto simp: RtmpHandshake_handshake_def split: prod.splits option.splits)
qed

theorem handshake_echoes_witness:
  "\<exists>s. sent (snd (RtmpHandshake_handshake 0 (replicate 3073 9) demo_conn)) = s \<and> length s = 3073
     \<and> s ! 0 = 3 \<and> take 1528 (drop 9 s) = replicate 1528 9"
proof -
  let ?r = "RtmpHandshake_handshake 0 (replicate 3073 9) demo_conn"
  have "?r = (True, snd ?r)" using demo_handshake by (cases ?r) simp
  from handshake_echoes [OF this] show ?thesis by (auto simp: demo_conn_def)
qed

text \<open>Claim C17: A publish command, once its status reply is out, succeeds exactly when nobody publishes under
  the name domain/app/stream; then the session is the registered source of that name, and in
  either case no other name and no other session changes.\<close>

theorem publish_registers_unique_source:
  assumes "RtmpPublishMessage_decode m = Ok (cmd, n)" "send_results (sessions srv sid) = True # rs"
  defines "nm \<equiv> session_name (name_session (sc_stream_name cmd) (sessions srv sid))"
  shows "\<exists>ok srv'. handleAmf0PublishCommand sid m srv = Ok (ok, srv')
    \<and> (ok \<longleftrightarrow> getSource nm srv = None)
    \<and> getSource nm srv' = (if ok then Some sid else getSource nm srv)
    \<and> (\<forall>other. other \<noteq> nm \<longrightarrow> getSource other srv' = getSource other srv)
    \<and> (\<forall>other. other \<noteq> sid \<longrightarrow> sessions srv' other = sessions srv other)
    \<and> is_publisher (sessions srv' sid)"
proof -
  obtain srv1 where s: "handleAmf0PublishCommand sid m srv = Ok (addSource nm sid srv1)"
    "media_sources srv1 = media_sources srv" "is_publisher (sessions srv1 sid)"
    "\<forall>other. other \<noteq> sid \<longrightarrow> sessions srv1 other = sessions srv other"
    using publish_handled [OF assms(1,2)] unfolding nm_def by blast
  have g: "getSource k srv1 = getSource k srv" for k using s(2) by (simp add: getSource_def)
  have "fst (addSource nm sid srv1) \<longleftrightarrow> getSource nm srv = None" by (simp add: registry.add_iff_fresh g)
  moreover have "getSource nm (snd (addSource nm sid srv1))
      = (if fst (addSource nm sid srv1) then Some sid else getSource nm srv)"
    using registry.add_fresh [of nm srv1 sid] registry.add_taken [of nm srv1 _ sid]
    by (cases "getSource nm srv") (simp_all add: g)
  moreover have "other \<noteq> nm \<longrightarrow> getSource other (snd (addSource nm sid srv1)) = getSource other srv" for other
    by (simp add: registry.add_other g)
  moreover have "sessions (snd (addSource nm sid srv1)) = sessions srv1" by simp
  moreover obtain ok srv' where "addSource nm sid srv1 = (ok, srv')" by fastforce
  ultimately show ?thesis using s by (intro exI [of _ ok] exI [of _ srv']) simp
qed

definition demo_session :: rtmp_session where
  "demo_session = \<lparr>domain = ''host'', app = ''live'', stream_name = [], session_name = [], is_publisher = False,
     is_player = False, session_closed = False, media = RtmpMediaSource_new False False,
     last_send_pkt_index = -1, send_results = [True, True, True, True], sent_msgs = []\<rparr>"

definition demo_server :: "string list \<Rightarrow> media_server" where
  "demo_server names = \<lparr>sessions = (\<lambda>_. demo_session), media_sources = map_of (map (\<lambda>n. (n, 7)) names)\<rparr>"

definition demo_publish :: rtmp_message where
  "demo_publish = server_message 20
     (members_bytes [Amf0String ''publish'', Amf0Number 0, Amf0Null, Amf0String ''cam'', Amf0String ''live''])"

lemma demo_publish_decoded:
  "RtmpPublishMessage_decode demo_publish = Ok (\<lparr>sc_command_name = ''publish'', sc_transaction_id = 0,
     sc_stream_name = ''cam'', pc_publish_type = ''live''\<rparr>, 33)"
  by code_simp

lemma demo_names: "session_name (name_session ''cam'' (sessions (demo_server names) 3)) = ''host/live/cam''"
  "send_results (sessions (demo_server names) 3) = True # [True, True, True]"
  "\<not> session_closed (sessions (demo_server names) 3)"
  by (simp_all add: demo_server_def demo_session_def name_session_def Let_def)

theorem publish_registers_unique_source_witness:
  "\<exists>srv'. handleAmf0PublishCommand 3 demo_publish (demo_server []) = Ok (True, srv')
     \<and> getSource ''host/live/cam'' srv' = Some 3"
proof -
  have f: "getSource ''host/live/cam'' (demo_server []) = None" by (simp add: demo_server_def getSource_def)
  from publish_registers_unique_source [OF demo_publish_decoded demo_names(2), of "[]"]
  obtain ok srv' where "handleAmf0PublishCommand 3 demo_publish (demo_server []) = Ok (ok, srv')"
    "ok \<longleftrightarrow> getSource ''host/live/cam'' (demo_server []) = None"
    "getSource ''host/live/cam'' srv' = (if ok then Some 3 else getSource ''host/live/cam'' (demo_server []))"
    unfolding stream_command.simps demo_names(1) by (elim exE conjE)
  with f show ?thesis by simp
qed

text \<open>Claim C39: When a second session tries to publish under a taken name, its publish fails, but closing
  it afterwards removes the first publisher from the registry, although that publisher is
  untouched and still running.\<close>

theorem failed_publish_evicts_publisher:
  assumes "RtmpPublishMessage_decode m = Ok (cmd, n)" "send_results (sessions srv sid) = True # rs"
    and "\<not> session_closed (sessions srv sid)" "first \<noteq> sid"
  defines "nm \<equiv> session_name (name_session (sc_stream_name cmd) (sessions srv sid))"
  assumes "getSource nm srv = Some first"
  shows "\<exists>srv'. handleAmf0PublishCommand sid m srv = Ok (False, srv')
    \<and> getSource nm (snd (RtmpSession_close sid srv')) = None
    \<and> sessions (snd (RtmpSession_close sid srv')) first = sessions srv first"
proof -
  obtain srv1 where s: "handleAmf0PublishCommand sid m srv = Ok (addSource nm sid srv1)"
    "media_sources srv1 = media_sources srv" "is_publisher (sessions srv1 sid)" "\<not> is_player (sessions srv1 sid)"
    "session_name (sessions srv1 sid) = nm" "session_closed (sessions srv1 sid) = session_closed (sessions srv sid)"
    "\<forall>other. other \<noteq> sid \<longrightarrow> sessions srv1 other = sessions srv other"
    using publish_handled [OF assms(1,2)] unfolding nm_def by blast
  have "addSource nm sid srv1 = (False, srv1)"
    using assms(6) s(2) by (intro registry.add_taken) (simp add: getSource_def)
  with s close_publisher [of srv1 sid] assms(3,4) show ?thesis by (intro exI [of _ srv1]) auto
qed

theorem failed_publish_evicts_publisher_witness:
  "\<exists>srv'. handleAmf0PublishCommand 3 demo_publish (demo_server [''host/live/cam'']) = Ok (False, srv')
    \<and> getSource ''host/live/cam'' (snd (RtmpSession_close 3 srv')) = None"
proof -
  have "getSource ''host/live/cam'' (demo_server [''host/live/cam'']) = Some 7"
    by (simp add: demo_server_def getSource_def)
  moreover have "(7 :: nat) \<noteq> 3" by simp
  ultimately show ?thesis
    using failed_publish_evicts_publisher [OF demo_publish_decoded demo_names(2,3), of 7]
    unfolding stream_command.simps demo_names(1) by metis
qed

lemma play_handled:
  assumes "RtmpPlayMessage_decode m = Ok (cmd, n)"
    "send_results (sessions srv sid) = True # True # True # rs"
  defines "nm \<equiv> session_name (name_session (sc_stream_name cmd) (sessions srv sid))"
  shows "\<exists>srv1 msgs. handleAmf0PlayCommand sid m srv =
      (case getSource nm srv of
         None \<Rightarrow> Ok (False, srv1)
       | Some p \<Rightarrow> Ok (True, upd_session p (\<lambda>s. s\<lparr>media := addMediaSink sid (media s)\<rparr>)
           (upd_session sid (\<lambda>s. s\<lparr>is_publisher := False, is_player := True\<rparr>) srv1)))
    \<and> media_sources srv1 = media_sources srv
    \<and> sent_msgs (sessions srv1 sid) = sent_msgs (sessions srv sid) @ msgs
    \<and> map (\<lambda>m. read_values (msg_payload m)) (tl msgs) =
        [Ok [Amf0String ''onStatus'', Amf0Number (sc_transaction_id cmd), Amf0Object [],
           Amf0Object (status_data ''NetStream.Play.Start'' ''play start ok.'')],
         Ok [Amf0String ''|RtmpSampleAccess'', Amf0Boolean True, Amf0Boolean True]]
    \<and> session_name (sessions srv1 sid) = nm
    \<and> media (sessions srv1 sid) = media (sessions srv sid)
    \<and> (\<forall>other. other \<noteq> sid \<longrightarrow> sessions srv1 other = sessions srv other)"
proof -
  let ?m1 = "RtmpStreamBeginMessage_encode 1"
  let ?v2 = "[Amf0String ''onStatus'', Amf0Number (sc_transaction_id cmd), Amf0Object [],
    Amf0Object (status_data ''NetStream.Play.Start'' ''play start ok.'')]"
  let ?v3 = "[Amf0String ''|RtmpSampleAccess'', Amf0Boolean True, Amf0Boolean True]"
  let ?m2 = "server_message RTMP_MESSAGE_TYPE_AMF0_COMMAND (members_bytes ?v2)"
  let ?m3 = "server_message RTMP_MESSAGE_TYPE_AMF0_COMMAND (members_bytes ?v3)"
  have wf: "list_all amf0_wf ?v2" "list_all amf0_wf ?v3" by (simp_all add: status_data_wf)
  have e2: "RtmpOnStatusRespMessage_encode (sc_transaction_id cmd) []
      (status_data ''NetStream.Play.Start'' ''play start ok.'') = Ok (Some ?m2)"
    by (intro onStatus_encoded status_data_wf) simp_all
  have e3: "RtmpAccessSampleMessage_encode True True = Ok (Some ?m3)"
    unfolding RtmpAccessSampleMessage_encode_def using wf(2) by (rule encode_command_wf)
  have r: "read_values (msg_payload ?m2) = Ok ?v2" "read_values (msg_payload ?m3) = Ok ?v3"
    using read_values_members [OF wf(1)] read_values_members [OF wf(2)] by (simp_all add: server_message_def)
  let ?srv1 = "upd_session sid (\<lambda>s. s\<lparr>send_results := rs, sent_msgs := sent_msgs s @ [?m3]\<rparr>)
    (upd_session sid (\<lambda>s. s\<lparr>send_results := True # rs, sent_msgs := sent_msgs s @ [?m2]\<rparr>)
      (upd_session sid (\<lambda>s. s\<lparr>send_results := True # True # rs, sent_msgs := sent_msgs s @ [?m1]\<rparr>)
        (upd_session sid (name_session (sc_stream_name cmd)) srv)))"
  have "handleAmf0PlayCommand sid m srv =
      (case getSource nm srv of
         None \<Rightarrow> Ok (False, ?srv1)
       | Some p \<Rightarrow> Ok (True, upd_session p (\<lambda>s. s\<lparr>media := addMediaSink sid (media s)\<rparr>)
           (upd_session sid (\<lambda>s. s\<lparr>is_publisher := False, is_player := True\<rparr>) ?srv1)))"
    using assms(1,2)
    by (simp add: handleAmf0PlayCommand_def e2 e3 send_message_True nm_def Let_def
        del: members_bytes_simps split: option.splits)
  then show ?thesis
    using r by (intro exI [of _ ?srv1] exI [of _ "[?m1, ?m2, ?m3]"]) (simp add: nm_def del: members_bytes_simps)
qed

text \<open>Claim C18: Playing a published stream attaches the player to the publisher's source, and closing the
  publisher hands exactly its attached players over for closing and frees the name.\<close>

theorem play_attaches_until_close:
  assumes "RtmpPlayMessage_decode m = Ok (cmd, n)"
    "send_results (sessions srv sid) = True # True # True # rs"
  defines "nm \<equiv> session_name (name_session (sc_stream_name cmd) (sessions srv sid))"
  assumes "getSource nm srv = Some p" "p \<noteq> sid" "is_publisher (sessions srv p)"
    "\<not> is_player (sessions srv p)" "\<not> session_closed (sessions srv p)" "session_name (sessions srv p) = nm"
  shows "\<exists>srv'. handleAmf0PlayCommand sid m srv = Ok (True, srv') \<and> is_player (sessions srv' sid)
    \<and> sinks (media (sessions srv' p)) = insert sid (sinks (media (sessions srv p)))
    \<and> fst (RtmpSession_close p srv') = insert sid (sinks (media (sessions srv p)))
    \<and> getSource nm (snd (RtmpSession_close p srv')) = None"
proof -
  obtain srv1 where s: "handleAmf0PlayCommand sid m srv =
      Ok (True, upd_session p (\<lambda>s. s\<lparr>media := addMediaSink sid (media s)\<rparr>)
           (upd_session sid (\<lambda>s. s\<lparr>is_publisher := False, is_player := True\<rparr>) srv1))"
    and o: "\<forall>other. other \<noteq> sid \<longrightarrow> sessions srv1 other = sessions srv other"
    using play_handled [OF assms(1,2)] assms(4) unfolding nm_def by auto
  let ?srv' = "upd_session p (\<lambda>s. s\<lparr>media := addMediaSink sid (media s)\<rparr>)
           (upd_session sid (\<lambda>s. s\<lparr>is_publisher := False, is_player := True\<rparr>) srv1)"
  have p: "sessions ?srv' p = (sessions srv p)\<lparr>media := addMediaSink sid (media (sessions srv p))\<rparr>"
    using o assms(5) by simp
  have q: "is_publisher (sessions ?srv' p)" "\<not> is_player (sessions ?srv' p)"
    "\<not> session_closed (sessions ?srv' p)" "session_name (sessions ?srv' p) = nm"
    unfolding p using assms(6-9) by simp_all
  have k: "sinks (media (sessions ?srv' p)) = insert sid (sinks (media (sessions srv p)))"
    unfolding p by (simp add: addMediaSink_def)
  have "is_player (sessions ?srv' sid)" using assms(5) by simp
  then show ?thesis
    using s k close_publisher(1,2) [OF q(3,1,2)] unfolding q(4) by (intro exI [of _ ?srv']) simp
qed

definition demo_play :: rtmp_message where
  "demo_play = server_message 20 (members_bytes [Amf0String ''play'', Amf0Number 0, Amf0Null, Amf0String ''cam''])"

lemma demo_play_decoded:
  "RtmpPlayMessage_decode demo_play = Ok (\<lparr>sc_command_name = ''play'', sc_transaction_id = 0,
     sc_stream_name = ''cam'', pl_start = double_of_int (-2), pl_duration = double_of_int (-1), pl_reset = True\<rparr>, 23)"
  by code_simp

theorem play_attaches_until_close_witness:
  "let srv = upd_session 7 (\<lambda>s. s\<lparr>is_publisher := True, session_name := ''host/live/cam''\<rparr>)
       (demo_server [''host/live/cam'']) in
   \<exists>srv'. handleAmf0PlayCommand 3 demo_play srv = Ok (True, srv') \<and> fst (RtmpSession_close 7 srv') = {3}"
proof -
  let ?srv = "upd_session 7 (\<lambda>s. s\<lparr>is_publisher := True, session_name := ''host/live/cam''\<rparr>)
       (demo_server [''host/live/cam''])"
  have s3: "sessions ?srv 3 = demo_session" by (simp add: demo_server_def)
  have nm: "session_name (name_session ''cam'' demo_session) = ''host/live/cam''"
    by (simp add: demo_session_def name_session_def Let_def)
  have r: "send_results (sessions ?srv 3) = True # True # True # [True]"
    unfolding s3 by (simp add: demo_session_def)
  have g: "getSource ''host/live/cam'' ?srv = Some 7" by (simp add: demo_server_def getSource_def upd_session_def)
  have f: "is_publisher (sessions ?srv 7)" "\<not> is_player (sessions ?srv 7)"
    "\<not> session_closed (sessions ?srv 7)" "session_name (sessions ?srv 7) = ''host/live/cam''"
    "sinks (media (sessions ?srv 7)) = {}"
    by (simp_all add: demo_server_def demo_session_def RtmpMediaSource_new_def)
  from play_attaches_until_close [OF demo_play_decoded r, unfolded stream_command.simps s3 nm, OF g _ f(1-4)]
  show ?thesis unfolding f(5) Let_def by auto
qed

text \<open>A player asking for a stream nobody publishes is first sent NetStream.Play.Start and only
  then refused.\<close>

theorem play_of_missing_stream_announces_start:
  assumes "RtmpPlayMessage_decode m = Ok (cmd, n)"
    "send_results (sessions srv sid) = True # True # True # rs"
    "getSource (session_name (name_session (sc_stream_name cmd) (sessions srv sid))) srv = None"
  shows "\<exists>srv' m1 status m3. handleAmf0PlayCommand sid m srv = Ok (False, srv')
    \<and> sent_msgs (sessions srv' sid) = sent_msgs (sessions srv sid) @ [m1, status, m3]
    \<and> read_values (msg_payload status) = Ok [Amf0String ''onStatus'', Amf0Number (sc_transaction_id cmd),
        Amf0Object [], Amf0Object (status_data ''NetStream.Play.Start'' ''play start ok.'')]"
proof -
  obtain srv1 msgs where s: "handleAmf0PlayCommand sid m srv = Ok (False, srv1)"
    "sent_msgs (sessions srv1 sid) = sent_msgs (sessions srv sid) @ msgs"
    "map (\<lambda>m. read_values (msg_payload m)) (tl msgs) =
        [Ok [Amf0String ''onStatus'', Amf0Number (sc_transaction_id cmd), Amf0Object [],
           Amf0Object (status_data ''NetStream.Play.Start'' ''play start ok.'')],
         Ok [Amf0String ''|RtmpSampleAccess'', Amf0Boolean True, Amf0Boolean True]]"
    using play_handled [OF assms(1,2)] assms(3) by auto
  then obtain a b c where "msgs = [a, b, c]" "read_values (msg_payload b) = Ok [Amf0String ''onStatus'',
      Amf0Number (sc_transaction_id cmd), Amf0Object [],
      Amf0Object (status_data ''NetStream.Play.Start'' ''play start ok.'')]"
    by (cases msgs) (auto simp: map_eq_Cons_conv)
  with s show ?thesis by auto
qed

theorem play_of_missing_stream_announces_start_witness:
  "\<exists>srv' m1 status m3. handleAmf0PlayCommand 3 demo_play (demo_server []) = Ok (False, srv')
    \<and> sent_msgs (sessions srv' 3) = [m1, status, m3]"
proof -
  have s3: "sessions (demo_server []) 3 = demo_session" by (simp add: demo_server_def)
  have r: "send_results (sessions (demo_server []) 3) = True # True # True # [True]"
    unfolding s3 by (simp add: demo_session_def)
  have g: "getSource n (demo_server []) = None" for n by (simp add: demo_server_def getSource_def)
  have z: "sent_msgs demo_session = []" by (simp add: demo_session_def)
  from play_of_missing_stream_announces_start [OF demo_play_decoded r g] show ?thesis
    unfolding s3 z append_Nil by blast
qed


text \<open>CreateStream, releaseStream and FCPublish are answered with one _result message that carries
  the request's transaction id; the result of createStream names stream 1.\<close>

theorem commands_answered_with_their_transaction:
  assumes "send_results (sessions srv sid) = True # rs"
    and "RtmpCreateStreamMessage_decode m1 = Ok ((n1, t1), c1)" "RtmpReleaseStreamMessage_decode m2 = Ok (cmd2, c2)"
      "RtmpFCPublishMessage_decode m3 = Ok (cmd3, c3)"
  shows "(\<exists>srv' r. handleAmf0CreateStreamCommand sid m1 srv = Ok (True, srv')
      \<and> sent_msgs (sessions srv' sid) = sent_msgs (sessions srv sid) @ [r]
      \<and> read_values (msg_payload r) = Ok [Amf0String ''_result'', Amf0Number t1, Amf0Object [], Amf0String ''1''])
    \<and> (\<exists>srv' r. handleAmf0ReleaseStreamCommand sid m2 srv = Ok (True, srv')
      \<and> sent_msgs (sessions srv' sid) = sent_msgs (sessions srv sid) @ [r]
      \<and> read_values (msg_payload r)
          = Ok [Amf0String ''_result'', Amf0Number (sc_transaction_id cmd2), Amf0Object [], Amf0Undefined])
    \<and> (\<exists>srv' r. handleAmf0FCPublishCommand sid m3 srv = Ok (True, srv')
      \<and> sent_msgs (sessions srv' sid) = sent_msgs (sessions srv sid) @ [r]
      \<and> read_values (msg_payload r)
          = Ok [Amf0String ''_result'', Amf0Number (sc_transaction_id cmd3), Amf0Object [], Amf0Undefined])"
  using assms
  by (simp add: handleAmf0CreateStreamCommand_def handleAmf0ReleaseStreamCommand_def
      handleAmf0FCPublishCommand_def RtmpCreateStreamRespMessage_encode_def
      RtmpReleaseStreamRespMessage_encode_def RtmpFCPublishRespMessage_encode_def encode_command_wf
      send_message_True server_message_def read_values_members del: members_bytes_simps)

definition demo_release :: rtmp_message where
  "demo_release = server_message 20 (members_bytes [Amf0String ''x'', Amf0Number 5, Amf0Null, Amf0String ''cam''])"

theorem commands_answered_with_their_transaction_witness:
  "\<exists>srv' r. handleAmf0CreateStreamCommand 3 demo_release (demo_server []) = Ok (True, srv')
      \<and> sent_msgs (sessions srv' 3) = [r]
      \<and> read_values (msg_payload r) = Ok [Amf0String ''_result'', Amf0Number 5, Amf0Object [], Amf0String ''1'']"
proof -
  have d: "RtmpCreateStreamMessage_decode demo_release = Ok ((''x'', 5), 14)"
    "RtmpReleaseStreamMessage_decode demo_release
      = Ok (\<lparr>sc_command_name = ''x'', sc_transaction_id = 5, sc_stream_name = ''cam''\<rparr>, 20)"
    "RtmpFCPublishMessage_decode demo_release
      = Ok (\<lparr>sc_command_name = ''x'', sc_transaction_id = 5, sc_stream_name = ''cam''\<rparr>, 20)"
    by code_simp+
  have z: "sent_msgs (sessions (demo_server []) 3) = []" by (simp add: demo_server_def demo_session_def)
  from commands_answered_with_their_transaction [OF demo_names(2) [of "[]"] d] show ?thesis
    unfolding z append_Nil by blast
qed

text \<open>The domain of a connection is the host part of its tcUrl, with or without a port, so that a
  publisher and a player that name the same host, application and stream meet under the same
  session name.\<close>

theorem domain_ignores_port:
  assumes "CHR ''/'' \<notin> set host" "CHR '':'' \<notin> set host" "CHR ''/'' \<notin> set port"
  shows "parse_domain (''rtmp://'' @ host @ '':'' @ port @ ''/'' @ rest) = Some host
    \<and> parse_domain (''rtmp://'' @ host @ ''/'' @ rest) = Some host"
proof -
  have rtmp: "split_on (CHR ''/'') (''rtmp://'' @ ys) = ''rtmp:'' # [] # split_on (CHR ''/'') ys" for ys
    using split_on_prefix [of "CHR ''/''" "''rtmp:''" "CHR ''/'' # ys"]
      split_on_prefix [of "CHR ''/''" "[]" ys] by simp
  have 1: "split_on (CHR ''/'') (''rtmp://'' @ host @ '':'' @ port @ ''/'' @ rest)
      = ''rtmp:'' # [] # (host @ '':'' @ port) # split_on (CHR ''/'') rest"
    unfolding rtmp using split_on_prefix [of "CHR ''/''" "host @ '':'' @ port" rest] assms by simp
  have 2: "split_on (CHR ''/'') (''rtmp://'' @ host @ ''/'' @ rest)
      = ''rtmp:'' # [] # host # split_on (CHR ''/'') rest"
    unfolding rtmp using split_on_prefix [of "CHR ''/''" host rest] assms by simp
  have 3: "split_on (CHR '':'') (host @ '':'' @ port) = host # split_on (CHR '':'') port"
    using split_on_prefix [of "CHR '':''" host port] assms by simp
  have "split_on (CHR '':'') port \<noteq> []" by simp
  then show ?thesis unfolding parse_domain_def Let_def 1 2 using assms(2) 3 by simp
qed

theorem domain_ignores_port_witness:
  "parse_domain ''rtmp://h:1935/live'' = Some ''h'' \<and> parse_domain ''rtmp://h/live'' = Some ''h''"
  using domain_ignores_port [of "''h''" "''1935''" "''live''"] by simp


definition demo_junk :: junk where
  "demo_junk = \<lparr>junk_audio = \<lparr>sound_format = 0, sound_rate = 0, sound_size = 0, sound_type = 0, aac_packet_type = 0\<rparr>,
     junk_video = demo_vh, junk_double = 0\<rparr>"


text \<open>A connect, createStream, publish or play command whose command object ends right behind a
  property name makes the session read past the end of the payload.\<close>

theorem truncated_command_overread:
  assumes "length key < 65536" "name \<in> {''connect'', ''createStream'', ''publish'', ''play''}"
  shows "onRecvRtmpMessage j sid (server_message RTMP_MESSAGE_TYPE_AMF0_COMMAND (truncated_command name tid key)) srv
    = Fault"
proof -
  define m where "m = server_message RTMP_MESSAGE_TYPE_AMF0_COMMAND (truncated_command name tid key)"
  have l: "length name < 65536" using assms(2) by auto
  have p: "msg_payload m = truncated_command name tid key" by (simp add: m_def server_message_def)
  have d: "Amf0String_decode (msg_payload m) = Ok (name, 3 + length name)"
    using amf0_scalar_decode_bytes(3) [OF l] by (simp add: p truncated_command_def del: amf0_bytes.simps)
  note f = truncated_commands_Fault [OF l assms(1) p]
  have h: "handleAmf0ConnectCommand j sid m srv = Fault" "handleAmf0CreateStreamCommand sid m srv = Fault"
    "handleAmf0PublishCommand sid m srv = Fault" "handleAmf0PlayCommand sid m srv = Fault"
    by (simp_all add: handleAmf0ConnectCommand_def handleAmf0CreateStreamCommand_def
        handleAmf0PublishCommand_def handleAmf0PlayCommand_def f)
  have "onRecvRtmpMessage j sid m srv = handleAmf0Command j sid m srv"
    by (simp add: onRecvRtmpMessage_def m_def server_message_def)
  also have "\<dots> = Fault"
    using assms(2) unfolding handleAmf0Command_def d outcome.case prod.case h
    by (elim insertE emptyE) simp_all
  finally show ?thesis unfolding m_def .
qed

theorem truncated_command_overread_witness:
  "onRecvRtmpMessage demo_junk 3 (server_message 20 (truncated_command ''play'' 0 ''k'')) (demo_server []) = Fault"
  using truncated_command_overread [of "''k''" "''play''"] by simp

end
