(* ===== verification/Utils.thy ===== *)
theory Utils
  imports Mms_Prelude
begin

text \<open>
  The helpers of \<open>src/base/utils/utils.cpp\<close>: splitting of strings, prefix and suffix tests, the
  table-driven CRC-32 and the random generators.  The calls of \<open>rand()\<close> are an argument, the list
  of the values it returns in turn; the OpenSSL wrappers (HMAC, SHA) are parameters where they are
  used and have no definition here.
\<close>

section \<open>Splitting\<close>

definition find_first_of :: "string \<Rightarrow> string \<Rightarrow> nat \<Rightarrow> nat option" where
  "find_first_of strv delims pos =
     (let n = length (takeWhile (\<lambda>c. c \<notin> set delims) (drop pos strv)) in
      if pos + n < length strv then Some (pos + n) else None)"

text \<open>\<open>substr(first, second - first)\<close>, where a missing \<open>second\<close> (\<open>npos\<close>) reaches to the end.\<close>

definition substr_to :: "string \<Rightarrow> nat \<Rightarrow> nat option \<Rightarrow> string" where
  "substr_to strv first second =
     (case second of None \<Rightarrow> drop first strv | Some k \<Rightarrow> take (k - first) (drop first strv))"

lemma find_first_of_bounds: "find_first_of s ds i = Some k \<Longrightarrow> i \<le> k \<and> k < length s"
  by (auto simp: find_first_of_def Let_def split: if_splits)

function split_loop :: "string \<Rightarrow> string \<Rightarrow> nat \<Rightarrow> string list \<Rightarrow> string list" where
  "split_loop strv delims first output =
     (if length strv \<le> first then output
      else
        let second = find_first_of strv delims first;
            output = (if second \<noteq> Some first then output @ [substr_to strv first second] else output) in
        case second of
          None \<Rightarrow> output
        | Some k \<Rightarrow> split_loop strv delims (k + 1) output)"
  by pat_completeness auto
termination
  by (relation "measure (\<lambda>(s, _, i, _). length s - i)") (auto dest: find_first_of_bounds [OF sym])

declare split_loop.simps [simp del]

definition split :: "string \<Rightarrow> string \<Rightarrow> string list" where
  "split strv delims = split_loop strv delims 0 []"

section \<open>Prefix and suffix tests\<close>

definition startWith :: "string \<Rightarrow> string \<Rightarrow> bool" where
  "startWith str prefix = (take (length prefix) str = prefix)"

text \<open>\<open>compare\<close> throws \<open>std::out_of_range\<close> for a start behind the end; the start wraps around when
  the suffix is the longer string.\<close>

definition endWith :: "string \<Rightarrow> string \<Rightarrow> bool outcome" where
  "endWith str suffix =
     (let pos = (of_nat (length str) - of_nat (length suffix) :: u64) in
      if of_nat (length str) < pos then Err (-1)
      else Ok (take (length suffix) (drop (unat pos) str) = suffix))"

section \<open>Random values\<close>

fun rand64_loop :: "nat \<Rightarrow> nat list \<Rightarrow> u64 \<Rightarrow> u64" where
  "rand64_loop i [] rand_data = rand_data"
| "rand64_loop i (r # rs) rand_data =
     (if 8 \<le> i then rand_data
      else
        let mask = push_bit (i * 8) (0xFF :: u64);
            bdata = unat (signed_drop_bit (i * 8) mask AND 0xFF) in
        if 0 < bdata then
          rand64_loop (i + 1) rs (rand_data OR push_bit (i * 8) (of_nat (r mod bdata)))
        else rand64_loop (i + 1) rs rand_data)"

definition rand64 :: "nat list \<Rightarrow> u64" where
  "rand64 rs = rand64_loop 0 rs 0"

definition rand_table :: string where
  "rand_table = ''abcdefghijklmnopqrstuvwxyz1234567890ABCDEFGHIJKLMNOPQRSTUVWXYZ''"

definition randStr :: "nat \<Rightarrow> nat list \<Rightarrow> string" where
  "randStr len rs = map (\<lambda>r. rand_table ! (r mod length rand_table)) (take len rs)"

section \<open>CRC-32\<close>

definition crc_table :: "u32 list" where
  "crc_table = [
    0x00000000, 0x77073096, 0xee0e612c, 0x990951ba, 0x076dc419, 0x706af48f, 0xe963a535, 0x9e6495a3,
    0x0edb8832, 0x79dcb8a4, 0xe0d5e91e, 0x97d2d988, 0x09b64c2b, 0x7eb17cbd, 0xe7b82d07, 0x90bf1d91,
    0x1db71064, 0x6ab020f2, 0xf3b97148, 0x84be41de, 0x1adad47d, 0x6ddde4eb, 0xf4d4b551, 0x83d385c7,
    0x136c9856, 0x646ba8c0, 0xfd62f97a, 0x8a65c9ec, 0x14015c4f, 0x63066cd9, 0xfa0f3d63, 0x8d080df5,
    0x3b6e20c8, 0x4c69105e, 0xd56041e4, 0xa2677172, 0x3c03e4d1, 0x4b04d447, 0xd20d85fd, 0xa50ab56b,
    0x35b5a8fa, 0x42b2986c, 0xdbbbc9d6, 0xacbcf940, 0x32d86ce3, 0x45df5c75, 0xdcd60dcf, 0xabd13d59,
    0x26d930ac, 0x51de003a, 0xc8d75180, 0xbfd06116, 0x21b4f4b5, 0x56b3c423, 0xcfba9599, 0xb8bda50f,
    0x2802b89e, 0x5f058808, 0xc60cd9b2, 0xb10be924, 0x2f6f7c87, 0x58684c11, 0xc1611dab, 0xb6662d3d,
    0x76dc4190, 0x01db7106, 0x98d220bc, 0xefd5102a, 0x71b18589, 0x06b6b51f, 0x9fbfe4a5, 0xe8b8d433,
    0x7807c9a2, 0x0f00f934, 0x9609a88e, 0xe10e9818, 0x7f6a0dbb, 0x086d3d2d, 0x91646c97, 0xe6635c01,
    0x6b6b51f4, 0x1c6c6162, 0x856530d8, 0xf262004e, 0x6c0695ed, 0x1b01a57b, 0x8208f4c1, 0xf50fc457,
    0x65b0d9c6, 0x12b7e950, 0x8bbeb8ea, 0xfcb9887c, 0x62dd1ddf, 0x15da2d49, 0x8cd37cf3, 0xfbd44c65,
    0x4db26158, 0x3ab551ce, 0xa3bc0074, 0xd4bb30e2, 0x4adfa541, 0x3dd895d7, 0xa4d1c46d, 0xd3d6f4fb,
    0x4369e96a, 0x346ed9fc, 0xad678846, 0xda60b8d0, 0x44042d73, 0x33031de5, 0xaa0a4c5f, 0xdd0d7cc9,
    0x5005713c, 0x270241aa, 0xbe0b1010, 0xc90c2086, 0x5768b525, 0x206f85b3, 0xb966d409, 0xce61e49f,
    0x5edef90e, 0x29d9c998, 0xb0d09822, 0xc7d7a8b4, 0x59b33d17, 0x2eb40d81, 0xb7bd5c3b, 0xc0ba6cad,
    0xedb88320, 0x9abfb3b6, 0x03b6e20c, 0x74b1d29a, 0xead54739, 0x9dd277af, 0x04db2615, 0x73dc1683,
    0xe3630b12, 0x94643b84, 0x0d6d6a3e, 0x7a6a5aa8, 0xe40ecf0b, 0x9309ff9d, 0x0a00ae27, 0x7d079eb1,
    0xf00f9344, 0x8708a3d2, 0x1e01f268, 0x6906c2fe, 0xf762575d, 0x806567cb, 0x196c3671, 0x6e6b06e7,
    0xfed41b76, 0x89d32be0, 0x10da7a5a, 0x67dd4acc, 0xf9b9df6f, 0x8ebeeff9, 0x17b7be43, 0x60b08ed5,
    0xd6d6a3e8, 0xa1d1937e, 0x38d8c2c4, 0x4fdff252, 0xd1bb67f1, 0xa6bc5767, 0x3fb506dd, 0x48b2364b,
    0xd80d2bda, 0xaf0a1b4c, 0x36034af6, 0x41047a60, 0xdf60efc3, 0xa867df55, 0x316e8eef, 0x4669be79,
    0xcb61b38c, 0xbc66831a, 0x256fd2a0, 0x5268e236, 0xcc0c7795, 0xbb0b4703, 0x220216b9, 0x5505262f,
    0xc5ba3bbe, 0xb2bd0b28, 0x2bb45a92, 0x5cb36a04, 0xc2d7ffa7, 0xb5d0cf31, 0x2cd99e8b, 0x5bdeae1d,
    0x9b64c2b0, 0xec63f226, 0x756aa39c, 0x026d930a, 0x9c0906a9, 0xeb0e363f, 0x72076785, 0x05005713,
    0x95bf4a82, 0xe2b87a14, 0x7bb12bae, 0x0cb61b38, 0x92d28e9b, 0xe5d5be0d, 0x7cdcefb7, 0x0bdbdf21,
    0x86d3d2d4, 0xf1d4e242, 0x68ddb3f8, 0x1fda836e, 0x81be16cd, 0xf6b9265b, 0x6fb077e1, 0x18b74777,
    0x88085ae6, 0xff0f6a70, 0x66063bca, 0x11010b5c, 0x8f659eff, 0xf862ae69, 0x616bffd3, 0x166ccf45,
    0xa00ae278, 0xd70dd2ee, 0x4e048354, 0x3903b3c2, 0xa7672661, 0xd06016f7, 0x4969474d, 0x3e6e77db,
    0xaed16a4a, 0xd9d65adc, 0x40df0b66, 0x37d83bf0, 0xa9bcae53, 0xdebb9ec5, 0x47b2cf7f, 0x30b5ffe9,
    0xbdbdf21c, 0xcabac28a, 0x53b39330, 0x24b4a3a6, 0xbad03605, 0xcdd70693, 0x54de5729, 0x23d967bf,
    0xb3667a2e, 0xc4614ab8, 0x5d681b02, 0x2a6f2b94, 0xb40bbe37, 0xc30c8ea1, 0x5a05df1b, 0x2d02ef8d]"

definition getCRC32 :: "bytes \<Rightarrow> u32" where
  "getCRC32 buf =
     (if length buf < 1 then 0xffffffff
      else foldl (\<lambda>crc b. crc_table ! unat ((crc XOR ucast b) AND 0xff) XOR drop_bit 8 crc) 0xffffffff buf
           XOR 0xffffffff)"

text \<open>The reference: the reflected CRC-32 register advanced one bit at a time.\<close>

definition crc_step :: "u32 \<Rightarrow> u32" where
  "crc_step c = drop_bit 1 c XOR (if bit c 0 then 0xEDB88320 else 0)"

primrec crc_steps :: "nat \<Rightarrow> u32 \<Rightarrow> u32" where
  "crc_steps 0 c = c"
| "crc_steps (Suc n) c = crc_steps n (crc_step c)"

definition crc_byte :: "u32 \<Rightarrow> byte \<Rightarrow> u32" where
  "crc_byte c b = crc_steps 8 (c XOR ucast b)"

definition crc32_reference :: "bytes \<Rightarrow> u32" where
  "crc32_reference bs = foldl crc_byte 0xffffffff bs XOR 0xffffffff"

subsection \<open>The register is linear and loses nothing\<close>

lemma xor_cancel: "(x XOR y = z XOR y) = (x = z)" "(x XOR y = x XOR z) = (y = z)" for x y z :: u32
  by (metis xor.assoc xor.right_neutral xor_self_eq, metis xor.assoc xor.left_neutral xor_self_eq)

lemma crc_step_xor: "crc_step (a XOR b) = crc_step a XOR crc_step b"
  by (simp add: crc_step_def drop_bit_xor bit_xor_iff ac_simps)

lemma crc_steps_xor: "crc_steps n (a XOR b) = crc_steps n a XOR crc_steps n b"
  by (induction n arbitrary: a b) (simp_all add: crc_step_xor)

lemma crc_steps_high: "(\<And>i. i < n \<Longrightarrow> \<not> bit c i) \<Longrightarrow> crc_steps n c = drop_bit n c"
proof (induction n arbitrary: c)
  case 0
  then show ?case by simp
next
  case (Suc n)
  have "crc_step c = drop_bit 1 c" using Suc.prems [of 0] by (simp add: crc_step_def)
  moreover have "crc_steps n (drop_bit 1 c) = drop_bit n (drop_bit 1 c)"
    using Suc.prems by (intro Suc.IH) (auto simp: bit_drop_bit_eq)
  ultimately show ?case by simp
qed

text \<open>The top bit of the new register is the bit that was shifted out, so a step can be undone.\<close>

lemma bit_crc_step_top: "bit (crc_step c) 31 = bit c 0"
proof -
  have "bit (0xEDB88320 :: u32) 31" by simp
  moreover have "\<not> bit (drop_bit 1 c) 31" using bit_imp_le_length [of c 32] by (auto simp: bit_drop_bit_eq)
  ultimately show ?thesis by (simp add: crc_step_def bit_xor_iff)
qed

lemma inj_crc_step: "crc_step a = crc_step b \<longleftrightarrow> a = b"
proof
  assume eq: "crc_step a = crc_step b"
  then have low: "bit a 0 = bit b 0" using bit_crc_step_top by metis
  with eq have "drop_bit 1 a = drop_bit 1 b"
    by (cases "bit b 0") (simp_all add: crc_step_def xor_cancel)
  then have "bit a (Suc n) = bit b (Suc n)" for n
    by (metis bit_drop_bit_eq comp_apply plus_1_eq_Suc)
  with low show "a = b" by (metis bit_word_eqI not0_implies_Suc)
qed simp

lemma inj_crc_steps: "crc_steps n a = crc_steps n b \<longleftrightarrow> a = b"
  by (induction n arbitrary: a b) (simp_all add: inj_crc_step)

lemma inj_crc_byte: "crc_byte c a = crc_byte d a \<longleftrightarrow> c = d" "crc_byte c a = crc_byte c b \<longleftrightarrow> a = b"
proof -
  have "unat (ucast x :: u32) = unat x" for x :: byte
  proof -
    have "unat x < 256" using unsigned_less [of x] by simp
    then show ?thesis by (simp add: unsigned_ucast_eq take_bit_nat_eq_self)
  qed
  then have "(ucast a :: u32) = ucast b \<longleftrightarrow> a = b" by (metis word_unat_eq_iff)
  then show "crc_byte c a = crc_byte d a \<longleftrightarrow> c = d" "crc_byte c a = crc_byte c b \<longleftrightarrow> a = b"
    by (simp_all add: crc_byte_def inj_crc_steps xor_cancel)
qed

subsection \<open>The table holds the eight-fold step of every byte\<close>

primrec xor_span :: "u32 list \<Rightarrow> u32 list \<Rightarrow> u32 list" where
  "xor_span t [] = t"
| "xor_span t (b # bs) = xor_span (t @ map (\<lambda>x. b XOR x) t) bs"

lemma xor_span_snoc: "xor_span t (bs @ [b]) = xor_span t bs @ map (\<lambda>x. b XOR x) (xor_span t bs)"
  by (induction bs arbitrary: t) simp_all

lemma of_nat_exp_add: "i < 2 ^ n \<Longrightarrow> (of_nat (2 ^ n + i) :: u32) = 2 ^ n XOR of_nat i"
proof -
  assume i: "i < 2 ^ n"
  then have "\<not> bit i n" by (metis bit_take_bit_iff less_irrefl take_bit_nat_eq_self)
  then have "2 ^ n AND i = 0" by (intro bit_eqI) (auto simp: bit_and_iff bit_exp_iff)
  then have "2 ^ n + i = 2 ^ n XOR i" by (rule disjunctive_add_eq_xor)
  then show ?thesis by (simp add: of_nat_xor_eq)
qed

lemma xor_span_linear:
  assumes "\<And>a b. f (a XOR b :: u32) = f a XOR f b"
  shows "xor_span [0] (map (\<lambda>k. f (2 ^ k)) [0..<n]) = map (\<lambda>i. f (of_nat i)) [0..<2 ^ n]"
proof (induction n)
  case 0
  have "f 0 = 0" using assms [of 0 0] by simp
  then show ?case by simp
next
  case (Suc n)
  have up: "[0..<2 ^ Suc n] = [0..<2 ^ n] @ map (\<lambda>i. 2 ^ n + i) [0..<2 ^ n]"
    using map_add_upt [of "2 ^ n" "2 ^ n"] by (simp add: upt_add_eq_append [of 0] mult_2 add.commute)
  have m: "map (\<lambda>k. f (2 ^ k)) [0..<Suc n] = map (\<lambda>k. f (2 ^ k)) [0..<n] @ [f (2 ^ n)]" by simp
  show ?case unfolding m xor_span_snoc Suc up
    by (auto simp: of_nat_exp_add assms simp del: of_nat_add)
qed

lemma crc_basis:
  "crc_steps 8 1 = 0x77073096" "crc_steps 8 2 = 0xee0e612c" "crc_steps 8 4 = 0x076dc419"
  "crc_steps 8 8 = 0x0edb8832" "crc_steps 8 16 = 0x1db71064" "crc_steps 8 32 = 0x3b6e20c8"
  "crc_steps 8 64 = 0x76dc4190" "crc_steps 8 128 = 0xedb88320"
  by code_simp+

lemma crc_table_span: "crc_table =
  xor_span [0] [0x77073096, 0xee0e612c, 0x076dc419, 0x0edb8832, 0x1db71064, 0x3b6e20c8, 0x76dc4190, 0xedb88320]"
  by (simp add: crc_table_def)

lemma crc_table_entries: "crc_table = map (\<lambda>i. crc_steps 8 (of_nat i)) [0..<256]"
proof -
  have "map (\<lambda>k. crc_steps 8 (2 ^ k)) [0..<8] =
      [0x77073096, 0xee0e612c, 0x076dc419, 0x0edb8832, 0x1db71064, 0x3b6e20c8, 0x76dc4190, 0xedb88320]"
    by (simp add: upt_rec [of _ 8] crc_basis)
  then show ?thesis
    using xor_span_linear [of "crc_steps 8" 8] by (simp add: crc_steps_xor crc_table_span del: xor_span.simps)
qed


lemma low_byte_xor: "x = take_bit 8 x XOR push_bit 8 (drop_bit 8 x)" for x :: u32
proof (rule bit_word_eqI)
  fix n
  show "bit x n = bit (take_bit 8 x XOR push_bit 8 (drop_bit 8 x)) n" if "n < LENGTH(32)"
    using that by (cases "n < 8") (simp_all add: bit_take_bit_iff bit_push_bit_iff bit_drop_bit_eq bit_xor_iff)
qed

lemma crc_steps_low_byte: "crc_steps 8 x = crc_steps 8 (take_bit 8 x) XOR drop_bit 8 x"
proof -
  have "crc_steps 8 (push_bit 8 (drop_bit 8 x)) = drop_bit 8 (push_bit 8 (drop_bit 8 x))"
    by (rule crc_steps_high) (simp add: bit_push_bit_iff)
  also have "\<dots> = drop_bit 8 x"
    by (rule bit_word_eqI) (auto simp: bit_push_bit_iff bit_drop_bit_eq dest: bit_imp_le_length)
  finally show ?thesis using arg_cong [OF low_byte_xor, of "crc_steps 8" x] by (simp add: crc_steps_xor)
qed

text \<open>One table step is eight register steps.\<close>

lemma crc_table_step: "crc_table ! unat ((c XOR ucast b) AND 0xff) XOR drop_bit 8 c = crc_byte c b"
proof -
  let ?x = "c XOR ucast b"
  have m: "?x AND 0xff = take_bit 8 ?x" by (simp add: take_bit_eq_mask mask_eq_exp_minus_1)
  define w where "w = take_bit 8 ?x"
  have "unat w < 256"
    unfolding w_def using take_bit_nat_less_exp [of 8 "unat ?x"] by (simp only: unsigned_take_bit_eq) simp
  then have "crc_table ! unat w = crc_steps 8 w" unfolding crc_table_entries by simp
  then have "crc_table ! unat (?x AND 0xff) = crc_steps 8 (take_bit 8 ?x)" unfolding m w_def .
  moreover have "drop_bit 8 c = drop_bit 8 ?x"
  proof (rule bit_word_eqI)
    fix n
    have "\<not> bit b (8 + n)" using bit_imp_le_length [of b "8 + n"] by auto
    then show "bit (drop_bit 8 c) n = bit (drop_bit 8 ?x) n"
      by (simp add: bit_drop_bit_eq bit_xor_iff bit_ucast_iff)
  qed
  ultimately show ?thesis unfolding crc_byte_def by (metis crc_steps_low_byte)
qed

lemma getCRC32_reference: "buf \<noteq> [] \<Longrightarrow> getCRC32 buf = crc32_reference buf"
  by (simp add: getCRC32_def crc32_reference_def crc_table_step flip: length_greater_0_conv)

lemma inj_crc_bytes: "foldl crc_byte c bs = foldl crc_byte d bs \<longleftrightarrow> c = d"
  by (induction bs arbitrary: c d) (simp_all add: inj_crc_byte)

lemma getCRC32_byte_error: "b \<noteq> b' \<Longrightarrow> getCRC32 (xs @ b # ys) \<noteq> getCRC32 (xs @ b' # ys)"
  by (simp add: getCRC32_reference crc32_reference_def xor_cancel inj_crc_bytes inj_crc_byte)

section \<open>Properties\<close>

text \<open>The fields between delimiters, empty ones included.\<close>

fun str_fields :: "string \<Rightarrow> string \<Rightarrow> string list" where
  "str_fields ds [] = [[]]"
| "str_fields ds (c # cs) =
     (case str_fields ds cs of
        [] \<Rightarrow> []
      | p # ps \<Rightarrow> if c \<in> set ds then [] # p # ps else (c # p) # ps)"

text \<open>Claim C25: The table-driven CRC-32 of the server, which authenticates its STUN messages, is the
  CRC-32 of a register that is advanced bit by bit, for every non-empty buffer.\<close>

theorem crc32_table_correct:
  assumes "buf \<noteq> []"
  shows "getCRC32 buf = crc32_reference buf"
  using assms by (rule getCRC32_reference)

theorem crc32_table_correct_witness: "getCRC32 [0x31, 0x32, 0x33] = 0x884863D2"
proof -
  have "crc32_reference [0x31, 0x32, 0x33] = 0x884863D2" by code_simp
  then show ?thesis using crc32_table_correct [of "[0x31, 0x32, 0x33]"] by simp
qed

text \<open>The CRC-32 detects every corruption confined to one byte: two messages that differ in
  exactly one byte never have the same checksum.\<close>

theorem crc32_detects_byte_errors:
  assumes "b \<noteq> b'"
  shows "getCRC32 (xs @ b # ys) \<noteq> getCRC32 (xs @ b' # ys)"
  using assms by (rule getCRC32_byte_error)

theorem crc32_detects_byte_errors_witness: "getCRC32 [0, 1, 2] \<noteq> getCRC32 [0, 3, 2]"
  using crc32_detects_byte_errors [of 1 3 "[0]" "[2]"] by simp


lemma str_fields_not_Nil [simp]: "str_fields ds s \<noteq> []"
  by (induction s) (auto split: list.splits)

lemma str_fields_append: "(\<forall>c \<in> set p. c \<notin> set ds) \<Longrightarrow> str_fields ds (p @ s) = (p @ hd (str_fields ds s)) # tl (str_fields ds s)"
  by (induction p) (auto split: list.splits)

lemma split_loop_fields:
  "split_loop s ds i out = out @ (if length s \<le> i then [] else filter (\<lambda>p. p \<noteq> []) (str_fields ds (drop i s)))"
proof (induction s ds i out rule: split_loop.induct)
  case (1 s ds i out)
  let ?p = "takeWhile (\<lambda>c. c \<notin> set ds) (drop i s)"
  have pd: "\<forall>c \<in> set ?p. c \<notin> set ds" by (auto dest: set_takeWhileD)
  show ?case
  proof (cases "find_first_of s ds i")
    case None
    then have "length (drop i s) \<le> length ?p"
      by (auto simp: find_first_of_def Let_def split: if_splits)
    then have "?p = drop i s" by (subst takeWhile_eq_take) (rule take_all)
    then have "str_fields ds (drop i s) = [drop i s]" using str_fields_append [OF pd, of "[]"] by (simp only:) simp
    with None show ?thesis by (simp add: split_loop.simps [of s ds i out] substr_to_def)
  next
    case (Some k)
    then have k: "k = i + length ?p" "k < length s" by (auto simp: find_first_of_def Let_def split: if_splits)
    obtain c r where cr: "dropWhile (\<lambda>c. c \<notin> set ds) (drop i s) = c # r"
      using k by (cases "dropWhile (\<lambda>c. c \<notin> set ds) (drop i s)")
        (auto dest!: arg_cong [where f = length] simp: dropWhile_eq_drop)
    then have c: "c \<in> set ds" and d: "drop i s = ?p @ c # r"
      using takeWhile_dropWhile_id [of "\<lambda>c. c \<notin> set ds" "drop i s"] by (auto simp: dropWhile_eq_Cons_conv)
    have r: "r = drop (Suc k) s"
      using arg_cong [OF d, of "drop (Suc (length ?p))"] by (simp add: k(1) add.commute)
    have sub: "substr_to s i (Some k) = ?p" by (simp add: substr_to_def k(1) flip: takeWhile_eq_take)
    have "str_fields ds (?p @ c # r) = ?p # str_fields ds r"
      using c str_fields_append [OF pd, of "c # r"] by (auto split: list.splits)
    then have f: "str_fields ds (drop i s) = ?p # str_fields ds r" unfolding d [symmetric] .
    show ?thesis using 1 [OF _ refl refl Some] k Some
      by (auto simp: split_loop.simps [of s ds i out] Let_def sub sub [unfolded k(1)] f r)
  qed
qed

lemma split_fields: "split strv delims = filter (\<lambda>p. p \<noteq> []) (str_fields delims strv)"
  by (cases strv) (simp_all add: split_def split_loop_fields)

text \<open>Splitting a string at any of the given delimiters returns its non-empty fields, in order.\<close>

theorem split_returns_fields: "split strv delims = filter (\<lambda>p. p \<noteq> []) (str_fields delims strv)"
  by (cases strv) (simp_all add: split_def split_loop_fields)


text \<open>The prefix test is exact, and so is the suffix test as long as the suffix is not longer
  than the string; for a longer suffix it throws instead of answering no.\<close>

theorem prefix_suffix_tests:
  assumes "length str < 2 ^ 63" "length suffix < 2 ^ 63"
  shows "(startWith str prefix \<longleftrightarrow> (\<exists>rest. str = prefix @ rest))
    \<and> endWith str suffix =
        (if length suffix \<le> length str then Ok (\<exists>start. str = start @ suffix) else Err (-1))"
proof -
  let ?n = "of_nat (length str) :: u64" and ?m = "of_nat (length suffix) :: u64"
  have u: "unat ?n = length str" "unat ?m = length suffix" using assms by (simp_all add: unat_of_nat)
  have le: "unat (?n - ?m) = length str - length suffix \<and> \<not> ?n < ?n - ?m" if "length suffix \<le> length str"
    using that u by (simp add: word_less_nat_alt word_le_nat_alt unat_sub)
  have gt: "?n < ?n - ?m" if "length str < length suffix"
  proof -
    have "unat (?n - ?m) = length str + 2 ^ 64 - length suffix"
      using that u assms by (simp add: unat_sub_if' word_le_nat_alt)
    then show ?thesis using u assms by (simp add: word_less_nat_alt)
  qed
  have tail: "take (length suffix) (drop (length str - length suffix) str) = suffix \<longleftrightarrow> (\<exists>start. str = start @ suffix)"
    if "length suffix \<le> length str"
    using that by (auto simp: append_eq_conv_conj) (metis append_take_drop_id)
  show ?thesis
    using le gt tail by (auto simp: startWith_def endWith_def Let_def) (metis append_take_drop_id)+
qed

theorem prefix_suffix_tests_witness:
  "startWith ''Content-Length'' ''Content'' \<and> endWith ''a.flv'' ''.flv'' = Ok True \<and> endWith ''a'' ''.flv'' = Err (-1)"
proof -
  have "startWith ''Content-Length'' ''Content''" by code_simp
  moreover have "(\<exists>start. ''a.flv'' = start @ ''.flv'')" by (rule exI [of _ "''a''"]) simp
  ultimately show ?thesis
    using prefix_suffix_tests [of "''a.flv''" "''.flv''" "[]"] prefix_suffix_tests [of "''a''" "''.flv''" "[]"] by simp
qed

end
