(* ===== verification/Stun.thy ===== *)
theory Stun
  imports Utils
begin

text \<open>
  The STUN messages of \<open>src/server/stun/protocol\<close> and the STUN server of \<open>src/server/stun/stun_server.cpp\<close>:
  the message header, the attributes, the decoder and the encoder of a message, the integrity and
  fingerprint checks and the answer to a binding request.

  Decoders work on the list of the readable bytes; the message decoder keeps the \<open>size_t len\<close> it
  counts down, which wraps around, next to its position.  Its loop does not end for some inputs,
  so it is a \<^theory_text>\<open>partial_function\<close> whose value is \<open>None\<close> then.  Encoders write into a buffer at a position with a
  \<open>size_t len\<close> of their own, and a write outside the buffer is a \<open>Fault\<close>.  HMAC-SHA1 comes from OpenSSL
  and is an argument.  Fields that the source leaves uninitialised keep the value they had in the
  argument.
\<close>

section \<open>Writing\<close>

definition wr :: "bytes \<Rightarrow> nat \<Rightarrow> bytes \<Rightarrow> bytes outcome" where
  "wr buf pos bs =
     (if pos + length bs \<le> length buf then Ok (take pos buf @ bs @ drop (pos + length bs) buf) else Fault)"

section \<open>Constants\<close>

abbreviation (input) STUN_MAGIC_COOKIE :: u32 where "STUN_MAGIC_COOKIE \<equiv> 0x2112A442"
abbreviation (input) STUN_BINDING_REQUEST :: u16 where "STUN_BINDING_REQUEST \<equiv> 0x0001"
abbreviation (input) STUN_BINDING_RESPONSE :: u16 where "STUN_BINDING_RESPONSE \<equiv> 0x0101"
abbreviation (input) STUN_BINDING_ERROR_RESPONSE :: u16 where "STUN_BINDING_ERROR_RESPONSE \<equiv> 0x0111"
abbreviation (input) STUN_ATTR_MAPPED_ADDRESS :: u16 where "STUN_ATTR_MAPPED_ADDRESS \<equiv> 0x0001"
abbreviation (input) STUN_ATTR_USERNAME :: u16 where "STUN_ATTR_USERNAME \<equiv> 0x0006"
abbreviation (input) STUN_ATTR_MESSAGE_INTEGRITY :: u16 where "STUN_ATTR_MESSAGE_INTEGRITY \<equiv> 0x0008"
abbreviation (input) STUN_ATTR_ERROR_CODE :: u16 where "STUN_ATTR_ERROR_CODE \<equiv> 0x0009"
abbreviation (input) STUN_ATTR_FINGERPRINT :: u16 where "STUN_ATTR_FINGERPRINT \<equiv> 0x8028"
abbreviation (input) STUN_ATTR_GOOG_NETWORK_INFO :: u16 where "STUN_ATTR_GOOG_NETWORK_INFO \<equiv> 0xc057"
abbreviation (input) STUN_ICE_ATTR_PRIORITY :: u16 where "STUN_ICE_ATTR_PRIORITY \<equiv> 0x0024"
abbreviation (input) STUN_ICE_ATTR_USE_CANDIDATE :: u16 where "STUN_ICE_ATTR_USE_CANDIDATE \<equiv> 0x0025"
abbreviation (input) STUN_ICE_ATTR_ICE_CONTROLLED :: u16 where "STUN_ICE_ATTR_ICE_CONTROLLED \<equiv> 0x8029"
abbreviation (input) STUN_ICE_ATTR_ICE_CONTROLLING :: u16 where "STUN_ICE_ATTR_ICE_CONTROLLING \<equiv> 0x802A"

text \<open>RESPONSE-ADDRESS, CHANGE-REQUEST, SOURCE-ADDRESS, CHANGED-ADDRESS, PASSWORD, ERROR-CODE,
  UNKNOWN-ATTRIBUTES and REFLECTED-FROM: the message decoder has a case for them that consumes nothing.\<close>

definition skipped_types :: "u16 list" where
  "skipped_types = [0x0002, 0x0003, 0x0004, 0x0005, 0x0007, 0x0009, 0x000a, 0x000b]"

section \<open>Data\<close>

record stun_header =
  stun_type :: u16
  stun_length :: u16
  magic_cookie :: u32
  transaction_id :: bytes

datatype stun_attr =
    StunMappedAddressAttr (family: byte) (port: u16) (address: u32)
  | StunGoogNetworkInfoAttr (network_id: u16) (network_cost: u16)
  | StunIcePriorityAttr (priority: u32)
  | StunIceUseCandidateAttr
  | StunIceControlledAttr (controlled_tie_breaker: u64)
  | StunIceControllingAttr (controlling_tie_breaker: u64)
  | StunErrorCodeAttr (err_class: byte) (err_number: byte) (reason: string)

record stun_msg =
  msg_header :: stun_header
  msg_attrs :: "stun_attr list"
  username_attr :: "(string \<times> string) option" \<comment> \<open>local and remote user name\<close>
  msg_integrity_attr :: "bytes option"
  fingerprint_attr :: "u32 option"

definition StunMsg_new :: "stun_header \<Rightarrow> stun_msg" where
  "StunMsg_new h = \<lparr>msg_header = h\<lparr>magic_cookie := STUN_MAGIC_COOKIE\<rparr>, msg_attrs = [], username_attr = None,
     msg_integrity_attr = None, fingerprint_attr = None\<rparr>"

section \<open>Header\<close>

text \<open>The decoder overwrites its parameter \<open>len\<close> with the length field and leaves \<open>length\<close> as it was.\<close>

definition StunMsgHeader_decode :: "stun_header \<Rightarrow> bytes \<Rightarrow> (stun_header \<times> nat) outcome" where
  "StunMsgHeader_decode h d =
     (if length d < 20 then Err (-1)
      else
        let ty = (of_nat (unbe (take 2 d)) :: u16) in
        if ty AND 0xC0 \<noteq> 0 then Err (-2)
        else
          let cookie = (of_nat (unbe (take 4 (drop 4 d))) :: u32) in
          if cookie \<noteq> STUN_MAGIC_COOKIE then Err (-2)
          else Ok (h\<lparr>stun_type := ty, magic_cookie := cookie, transaction_id := take 12 (drop 8 d)\<rparr>, 20))"

definition StunMsgHeader_encode :: "stun_header \<Rightarrow> bytes \<Rightarrow> nat \<Rightarrow> u64 \<Rightarrow> (bytes \<times> nat) outcome" where
  "StunMsgHeader_encode h buf pos len =
     (if len < 20 then Err (-1)
      else obind (wr buf pos (be 2 (unat (stun_type h)) @ be 2 (unat (stun_length h)) @
                   be 4 (unat (magic_cookie h)) @ transaction_id h))
             (\<lambda>buf. Ok (buf, 20)))"

section \<open>Attributes\<close>

definition StunMsgAttr_decode :: "bytes \<Rightarrow> (u16 \<times> u16) outcome" where
  "StunMsgAttr_decode d =
     (if length d < 4 then Err (-1)
      else Ok (of_nat (unbe (take 2 d)), of_nat (unbe (take 2 (drop 2 d)))))"

definition StunMsgAttr_encode :: "u16 \<Rightarrow> u16 \<Rightarrow> bytes \<Rightarrow> nat \<Rightarrow> u64 \<Rightarrow> (bytes \<times> nat) outcome" where
  "StunMsgAttr_encode ty l buf pos len =
     (if len < 4 then Err (-1)
      else obind (wr buf pos (be 2 (unat ty) @ be 2 (unat l))) (\<lambda>buf. Ok (buf, 4)))"

text \<open>An attribute with a value: the header, a check of the room, the value.\<close>

definition attr_encode ::
  "u16 \<Rightarrow> u16 \<Rightarrow> nat \<Rightarrow> bytes \<Rightarrow> nat \<Rightarrow> bytes \<Rightarrow> nat \<Rightarrow> u64 \<Rightarrow> (bytes \<times> nat) outcome" where
  "attr_encode ty l need v padded buf pos len =
     obind (or_code (-1) (StunMsgAttr_encode ty l buf pos len)) (\<lambda>(buf, c).
       if len - 4 < of_nat need then Err (-2)
       else obind (wr buf (pos + c) v) (\<lambda>buf. Ok (buf, c + padded)))"

definition pad4 :: "nat \<Rightarrow> nat" where
  "pad4 n = (n + 3) div 4 * 4"

definition username_value :: "string \<times> string \<Rightarrow> bytes" where
  "username_value u = (case u of (l, r) \<Rightarrow>
     bytes_of_str l @ (if 0 < length r then bytes_of_str '':'' @ bytes_of_str r else []))"

definition StunUsernameAttr_size :: "string \<times> string \<Rightarrow> nat" where
  "StunUsernameAttr_size u = 4 + pad4 (length (username_value u))"

definition StunUsernameAttr_encode :: "string \<times> string \<Rightarrow> bytes \<Rightarrow> nat \<Rightarrow> u64 \<Rightarrow> (bytes \<times> nat) outcome" where
  "StunUsernameAttr_encode u buf pos len =
     (let v = username_value u; l = (of_nat (length v) :: u16) in
      attr_encode STUN_ATTR_USERNAME l (unat l) v (pad4 (unat l)) buf pos len)"

definition StunUsernameAttr_decode :: "bytes \<Rightarrow> ((string \<times> string) \<times> nat) outcome" where
  "StunUsernameAttr_decode d =
     obind (or_code (-1) (StunMsgAttr_decode d)) (\<lambda>(_, l).
       if length d - 4 \<le> 0 then Err (-2)
       else obind (rdn d 4 (unat l)) (\<lambda>v.
         let vs = split (str_of_bytes v) '':'' in
         Ok (if length vs = 1 then (vs ! 0, [])
             else if length vs = 2 then (vs ! 0, vs ! 1) else ([], []), 4 + pad4 (unat l))))"

definition StunMessageIntegrityAttr_encode :: "bytes \<Rightarrow> bytes \<Rightarrow> nat \<Rightarrow> u64 \<Rightarrow> (bytes \<times> nat) outcome" where
  "StunMessageIntegrityAttr_encode hmac_sha1 = attr_encode STUN_ATTR_MESSAGE_INTEGRITY 20 20 (take 20 hmac_sha1) 20"

definition StunMessageIntegrityAttr_decode :: "bytes \<Rightarrow> (bytes \<times> nat) outcome" where
  "StunMessageIntegrityAttr_decode d =
     obind (or_code (-1) (StunMsgAttr_decode d)) (\<lambda>(_, l).
       if l \<noteq> 20 then Err (-2)
       else if length d - 4 < 20 then Err (-3)
       else obind (rdn d 4 20) (\<lambda>v. Ok (v, 4 + unat l)))"

definition StunFingerPrintAttr_encode :: "u32 \<Rightarrow> bytes \<Rightarrow> nat \<Rightarrow> u64 \<Rightarrow> (bytes \<times> nat) outcome" where
  "StunFingerPrintAttr_encode crc32 = attr_encode STUN_ATTR_FINGERPRINT 4 4 (be 4 (unat crc32)) 4"

definition StunFingerPrintAttr_decode :: "bytes \<Rightarrow> (u32 \<times> nat) outcome" where
  "StunFingerPrintAttr_decode d =
     obind (or_code (-1) (StunMsgAttr_decode d)) (\<lambda>(_, l).
       if length d - 4 < 4 then Err (-2)
       else if l \<noteq> 4 then Err (-3)
       else obind (rdn d 4 4) (\<lambda>v. Ok (of_nat (unbe v), 8)))"

fun stun_attr_size :: "stun_attr \<Rightarrow> nat" where
  "stun_attr_size (StunMappedAddressAttr _ _ _) = 4 + 8"
| "stun_attr_size (StunGoogNetworkInfoAttr _ _) = 4 + 4"
| "stun_attr_size (StunIcePriorityAttr _) = 4 + 4"
| "stun_attr_size StunIceUseCandidateAttr = 4"
| "stun_attr_size (StunIceControlledAttr _) = 4 + 4"
| "stun_attr_size (StunIceControllingAttr _) = 4 + 4"
| "stun_attr_size (StunErrorCodeAttr _ _ r) = 4 + 4 + length r"

fun stun_attr_type :: "stun_attr \<Rightarrow> u16" where
  "stun_attr_type (StunMappedAddressAttr _ _ _) = STUN_ATTR_MAPPED_ADDRESS"
| "stun_attr_type (StunGoogNetworkInfoAttr _ _) = STUN_ATTR_GOOG_NETWORK_INFO"
| "stun_attr_type (StunIcePriorityAttr _) = STUN_ICE_ATTR_PRIORITY"
| "stun_attr_type StunIceUseCandidateAttr = STUN_ICE_ATTR_USE_CANDIDATE"
| "stun_attr_type (StunIceControlledAttr _) = STUN_ICE_ATTR_ICE_CONTROLLED"
| "stun_attr_type (StunIceControllingAttr _) = STUN_ICE_ATTR_ICE_CONTROLLING"
| "stun_attr_type (StunErrorCodeAttr _ _ _) = STUN_ATTR_ERROR_CODE"

fun stun_attr_value :: "stun_attr \<Rightarrow> bytes" where
  "stun_attr_value (StunMappedAddressAttr f p a) = [0, f] @ be 2 (unat p) @ be 4 (unat a)"
| "stun_attr_value (StunGoogNetworkInfoAttr i c) = be 2 (unat i) @ be 2 (unat c)"
| "stun_attr_value (StunIcePriorityAttr p) = be 4 (unat p)"
| "stun_attr_value StunIceUseCandidateAttr = []"
| "stun_attr_value (StunIceControlledAttr t) = be 8 (unat t)"
| "stun_attr_value (StunIceControllingAttr t) = be 8 (unat t)"
| "stun_attr_value (StunErrorCodeAttr c n r) = [0, 0, 0x07 AND c, n] @ bytes_of_str r"

text \<open>The virtual \<open>encode\<close>: every attribute sets its length field, writes the attribute header, checks
  the room for its value and writes it.\<close>

definition stun_attr_encode :: "stun_attr \<Rightarrow> bytes \<Rightarrow> nat \<Rightarrow> u64 \<Rightarrow> (bytes \<times> nat) outcome" where
  "stun_attr_encode a =
     (let v = stun_attr_value a in
      attr_encode (stun_attr_type a) (of_nat (length v)) (length v) v (length v))"

definition StunMappedAddressAttr_decode :: "bytes \<Rightarrow> (stun_attr \<times> nat) outcome" where
  "StunMappedAddressAttr_decode d =
     obind (or_code (-1) (StunMsgAttr_decode d)) (\<lambda>_.
       if length d - 4 < 8 then Err (-2)
       else obind (rdn d 4 8) (\<lambda>v.
         Ok (StunMappedAddressAttr (v ! 1) (of_nat (unbe (take 2 (drop 2 v)))) (of_nat (unbe (take 4 (drop 4 v)))), 12)))"

definition StunGoogNetworkInfoAttr_decode :: "bytes \<Rightarrow> (stun_attr \<times> nat) outcome" where
  "StunGoogNetworkInfoAttr_decode d =
     obind (or_code (-1) (StunMsgAttr_decode d)) (\<lambda>(_, l).
       if length d - 4 \<le> 0 then Err (-2)
       else if l \<noteq> 4 then Err (-3)
       else obind (rdn d 4 4) (\<lambda>v.
         Ok (StunGoogNetworkInfoAttr (of_nat (unbe (take 2 v))) (of_nat (unbe (drop 2 v))), 8)))"

definition StunIcePriorityAttr_decode :: "bytes \<Rightarrow> (stun_attr \<times> nat) outcome" where
  "StunIcePriorityAttr_decode d =
     obind (or_code (-1) (StunMsgAttr_decode d)) (\<lambda>(_, l).
       if length d - 4 < 4 then Err (-2)
       else if l \<noteq> 4 then Err (-3)
       else obind (rdn d 4 4) (\<lambda>v. Ok (StunIcePriorityAttr (of_nat (unbe v)), 4 + unat l)))"

definition StunIceUseCandidateAttr_decode :: "bytes \<Rightarrow> (stun_attr \<times> nat) outcome" where
  "StunIceUseCandidateAttr_decode d =
     obind (or_code (-1) (StunMsgAttr_decode d)) (\<lambda>_. Ok (StunIceUseCandidateAttr, 4))"

text \<open>The controlled and the controlling attribute check for four bytes and read eight.\<close>

definition tie_breaker_decode :: "(u64 \<Rightarrow> stun_attr) \<Rightarrow> bytes \<Rightarrow> (stun_attr \<times> nat) outcome" where
  "tie_breaker_decode mk d =
     obind (or_code (-1) (StunMsgAttr_decode d)) (\<lambda>(_, l).
       if length d - 4 < 4 then Err (-2)
       else if l \<noteq> 8 then Err (-3)
       else obind (rdn d 4 8) (\<lambda>v. Ok (mk (of_nat (unbe v)), 4 + unat l)))"

section \<open>Messages\<close>

definition add_attr :: "int \<Rightarrow> (stun_attr \<times> nat) outcome \<Rightarrow> stun_msg \<Rightarrow> (stun_msg \<times> nat) outcome" where
  "add_attr e r m = obind (or_code e r) (\<lambda>(a, c). Ok (m\<lparr>msg_attrs := msg_attrs m @ [a]\<rparr>, c))"

text \<open>One turn of the attribute loop on the rest \<open>d\<close> of the message: the message and how many bytes the
  turn consumed.\<close>

definition stun_turn :: "bytes \<Rightarrow> stun_msg \<Rightarrow> (stun_msg \<times> nat) outcome" where
  "stun_turn d m =
     obind (rdn d 0 2) (\<lambda>tb.
       let t = (of_nat (unbe tb) :: u16) in
       if t = STUN_ATTR_MAPPED_ADDRESS then add_attr (-2) (StunMappedAddressAttr_decode d) m
       else if t \<in> set skipped_types then Ok (m, 0)
       else if t = STUN_ATTR_USERNAME then
         obind (or_code (-3) (StunUsernameAttr_decode d)) (\<lambda>(u, c). Ok (m\<lparr>username_attr := Some u\<rparr>, c))
       else if t = STUN_ATTR_MESSAGE_INTEGRITY then
         obind (or_code (-4) (StunMessageIntegrityAttr_decode d)) (\<lambda>(h, c).
           Ok (m\<lparr>msg_integrity_attr := Some h\<rparr>, c))
       else if t = STUN_ATTR_GOOG_NETWORK_INFO then add_attr (-5) (StunGoogNetworkInfoAttr_decode d) m
       else if t = STUN_ICE_ATTR_PRIORITY then add_attr (-6) (StunIcePriorityAttr_decode d) m
       else if t = STUN_ICE_ATTR_USE_CANDIDATE then add_attr (-7) (StunIceUseCandidateAttr_decode d) m
       else if t = STUN_ICE_ATTR_ICE_CONTROLLED then add_attr (-8) (tie_breaker_decode StunIceControlledAttr d) m
       else if t = STUN_ICE_ATTR_ICE_CONTROLLING then add_attr (-9) (tie_breaker_decode StunIceControllingAttr d) m
       else Err (-10))"

partial_function (option) stun_loop ::
  "bytes \<Rightarrow> nat \<Rightarrow> u64 \<Rightarrow> stun_msg \<Rightarrow> (stun_msg \<times> nat \<times> u64) outcome option" where
  "stun_loop d pos len m =
     (if len = 0 then Some (Ok (m, pos, len))
      else case stun_turn (drop pos d) m of
        Fault \<Rightarrow> Some Fault
      | Err e \<Rightarrow> Some (Err e)
      | Ok (m, c) \<Rightarrow>
          if msg_integrity_attr m \<noteq> None then Some (Ok (m, pos + c, len - of_nat c))
          else stun_loop d (pos + c) (len - of_nat c) m)"

definition stun_trailer :: "bytes \<Rightarrow> nat \<Rightarrow> u64 \<Rightarrow> stun_msg \<Rightarrow> stun_msg outcome" where
  "stun_trailer d pos len m =
     (if len = 0 then Ok m
      else obind (rdn (drop pos d) 0 2) (\<lambda>tb.
        if (of_nat (unbe tb) :: u16) = STUN_ATTR_FINGERPRINT then
          obind (or_code (-11) (StunFingerPrintAttr_decode (drop pos d))) (\<lambda>(c, _).
            Ok (m\<lparr>fingerprint_attr := Some c\<rparr>))
        else Ok m))"

definition StunMsg_decode :: "bytes \<Rightarrow> stun_msg \<Rightarrow> stun_msg outcome option" where
  "StunMsg_decode d m =
     (case StunMsgHeader_decode (msg_header m) d of
        Fault \<Rightarrow> Some Fault
      | Err _ \<Rightarrow> Some (Err (-1))
      | Ok (h, c) \<Rightarrow>
          (case stun_loop d c (of_nat (length d) - of_nat c) (m\<lparr>msg_header := h\<rparr>) of
             None \<Rightarrow> None
           | Some r \<Rightarrow> Some (obind r (\<lambda>(m, pos, len). stun_trailer d pos len m))))"

definition StunMsg_size :: "bool \<Rightarrow> bool \<Rightarrow> stun_msg \<Rightarrow> nat" where
  "StunMsg_size add_message_integrity add_finger_print m =
     20 + sum_list (map stun_attr_size (msg_attrs m))
     + (case username_attr m of Some u \<Rightarrow> StunUsernameAttr_size u | None \<Rightarrow> 0)
     + (if add_message_integrity then 24 else 0) + (if add_finger_print then 4 + 4 else 0)"

text \<open>The HMAC over the message up to the integrity attribute, with the length field set to the
  length that ends behind that attribute; \<open>len\<close> is the length of the whole message.\<close>

definition integrity_hmac :: "(bytes \<Rightarrow> bytes \<Rightarrow> bytes) \<Rightarrow> string \<Rightarrow> bool \<Rightarrow> bytes \<Rightarrow> u64 \<Rightarrow> bytes outcome" where
  "integrity_hmac hmac pwd has_finger_print buf len =
     (let content = len - 20 - (if has_finger_print then 8 else 0) in
      obind (wr buf 2 (be 2 (unat content))) (\<lambda>patched.
        obind (rdn patched 0 (unat (content + 20 - 24))) (\<lambda>text.
          Ok (hmac (bytes_of_str pwd) text))))"

definition StunFingerPrintAttr_crc :: "bytes \<Rightarrow> u32" where
  "StunFingerPrintAttr_crc d = getCRC32 d XOR 0x5354554e"

fun stun_attrs_encode :: "stun_attr list \<Rightarrow> bytes \<Rightarrow> nat \<Rightarrow> u64 \<Rightarrow> (bytes \<times> nat \<times> u64) outcome" where
  "stun_attrs_encode [] buf pos len = Ok (buf, pos, len)"
| "stun_attrs_encode (a # as) buf pos len =
     obind (or_code (-2) (stun_attr_encode a buf pos len)) (\<lambda>(buf, c).
       stun_attrs_encode as buf (pos + c) (len - of_nat c))"

text \<open>\<open>StunMsg::encode\<close>.  The position is advanced by \<open>consumed\<close> behind the user name whether or not there is
  one: without a user name \<open>consumed\<close> is still that of the header.\<close>

definition StunMsg_encode ::
  "(bytes \<Rightarrow> bytes \<Rightarrow> bytes) \<Rightarrow> bool \<Rightarrow> string \<Rightarrow> bool \<Rightarrow> stun_msg \<Rightarrow> bytes \<Rightarrow> (bytes \<times> nat) outcome" where
  "StunMsg_encode hmac add_message_integrity pwd add_finger_print m buf =
     (let content_len = (case username_attr m of Some u \<Rightarrow> StunUsernameAttr_size u | None \<Rightarrow> 0)
            + sum_list (map stun_attr_size (msg_attrs m));
          l = (of_nat content_len :: u16) + (if add_message_integrity then 4 + 20 else 0)
            + (if add_finger_print then 8 else 0);
          h = (msg_header m)\<lparr>stun_length := l\<rparr>;
          len = (of_nat (length buf) :: u64) in
      obind (or_code (-1) (StunMsgHeader_encode h buf 0 len)) (\<lambda>(buf, c).
      obind (case username_attr m of
               Some u \<Rightarrow> or_code (-1) (StunUsernameAttr_encode u buf c (len - of_nat c))
             | None \<Rightarrow> Ok (buf, c)) (\<lambda>(buf, c').
      obind (stun_attrs_encode (msg_attrs m) buf (c + c') (len - of_nat c - of_nat c')) (\<lambda>(buf, pos, len).
      obind (if add_message_integrity
             then obind (integrity_hmac hmac pwd add_finger_print buf (of_nat (unat l + 20))) (\<lambda>tag.
                    obind (or_code (-3) (StunMessageIntegrityAttr_encode tag buf pos len)) (\<lambda>(buf, c).
                      Ok (buf, pos + c, len - of_nat c)))
             else Ok (buf, pos, len)) (\<lambda>(buf, pos, len).
      if add_finger_print
      then obind (rdn buf 0 pos) (\<lambda>prefix.
             obind (or_code (-4) (StunFingerPrintAttr_encode (StunFingerPrintAttr_crc prefix) buf pos len)) (\<lambda>(buf, c).
               Ok (buf, pos + c)))
      else Ok (buf, pos))))))"

text \<open>A missing integrity attribute is a null pointer.\<close>

definition checkMsgIntegrity ::
  "(bytes \<Rightarrow> bytes \<Rightarrow> bytes) \<Rightarrow> stun_msg \<Rightarrow> bytes \<Rightarrow> string \<Rightarrow> bool outcome" where
  "checkMsgIntegrity hmac m d pwd =
     (case msg_integrity_attr m of
        None \<Rightarrow> Fault
      | Some tag \<Rightarrow>
          obind (integrity_hmac hmac pwd (fingerprint_attr m \<noteq> None) d (of_nat (length d))) (\<lambda>t. Ok (t = tag)))"

definition checkFingerPrint :: "stun_msg \<Rightarrow> bytes \<Rightarrow> bool outcome" where
  "checkFingerPrint m d =
     (case fingerprint_attr m of
        None \<Rightarrow> Ok True
      | Some crc \<Rightarrow> obind (rdn d 0 (unat (of_nat (length d) - 8 :: u64))) (\<lambda>p. Ok (crc = StunFingerPrintAttr_crc p)))"

section \<open>The STUN server\<close>

text \<open>The constructor copies 16 bytes of the 12-byte transaction id; the four bytes behind it are
  padding in both objects.  \<open>junk\<close> is the header of the new object before initialisation.\<close>

definition StunBindingResponseMsg :: "stun_header \<Rightarrow> stun_msg \<Rightarrow> stun_msg" where
  "StunBindingResponseMsg junk m =
     (let r = StunMsg_new junk in
      r\<lparr>msg_header := (msg_header r)\<lparr>stun_type := STUN_BINDING_RESPONSE,
          transaction_id := transaction_id (msg_header m)\<rparr>\<rparr>)"

definition StunBindingErrorResponseMsg :: "stun_header \<Rightarrow> stun_msg \<Rightarrow> int \<Rightarrow> stun_msg" where
  "StunBindingErrorResponseMsg junk m code =
     (let r = StunMsg_new junk in
      r\<lparr>msg_header := (msg_header r)\<lparr>stun_type := STUN_BINDING_ERROR_RESPONSE,
          transaction_id := transaction_id (msg_header m)\<rparr>,
        msg_attrs := [StunErrorCodeAttr (of_int (sgn code * (\<bar>code\<bar> div 100))) (of_int (sgn code * (\<bar>code\<bar> mod 100))) []]\<rparr>)"

definition addAttr :: "stun_attr \<Rightarrow> stun_msg \<Rightarrow> stun_msg" where
  "addAttr a m = m\<lparr>msg_attrs := msg_attrs m @ [a]\<rparr>"

text \<open>What the server sends back: nothing, or a datagram of the given bytes.  \<open>heap\<close> is the content of
  the buffer the server allocates.\<close>

definition processBindMsg ::
  "(bytes \<Rightarrow> bytes \<Rightarrow> bytes) \<Rightarrow> stun_header \<Rightarrow> (nat \<Rightarrow> byte) \<Rightarrow> u32 \<times> u16 \<Rightarrow> stun_msg \<Rightarrow> bytes option outcome" where
  "processBindMsg hmac junk heap remote_ep m =
     (let resp = addAttr (StunMappedAddressAttr 0x01 (snd remote_ep) (fst remote_ep)) (StunBindingResponseMsg junk m);
          size = StunMsg_size False False resp in
      case StunMsg_encode hmac False [] False resp (map heap [0..<size]) of
        Fault \<Rightarrow> Fault
      | Err _ \<Rightarrow> Ok None
      | Ok (buf, _) \<Rightarrow> Ok (Some buf))"

definition StunServer_onUdpSocketRecv ::
  "(bytes \<Rightarrow> bytes \<Rightarrow> bytes) \<Rightarrow> stun_header \<Rightarrow> (nat \<Rightarrow> byte) \<Rightarrow> u32 \<times> u16 \<Rightarrow> bytes \<Rightarrow> bytes option outcome option" where
  "StunServer_onUdpSocketRecv hmac junk heap remote_ep d =
     (case StunMsg_decode d (StunMsg_new junk) of
        None \<Rightarrow> None
      | Some Fault \<Rightarrow> Some Fault
      | Some (Err _) \<Rightarrow> Some (Ok None)
      | Some (Ok m) \<Rightarrow>
          Some (if stun_type (msg_header m) = STUN_BINDING_REQUEST
                then processBindMsg hmac junk heap remote_ep m else Ok None))"

section \<open>Lemmas\<close>

lemma wr_append:
  "length bs \<le> length free \<Longrightarrow> wr (pre @ free) (length pre) bs = Ok (pre @ bs @ drop (length bs) free)"
  by (simp add: wr_def)

lemma pad4_bounds: "n \<le> pad4 n" "pad4 n < n + 4"
  unfolding pad4_def by linarith+

lemma unat_of_nat_64: "n < 2 ^ 63 \<Longrightarrow> unat (of_nat n :: u64) = n"
  by (simp add: unat_of_nat)

lemma of_nat_64_not_0: "0 < n \<Longrightarrow> n < 2 ^ 63 \<Longrightarrow> (of_nat n :: u64) \<noteq> 0"
  using unat_of_nat_64 [of n] by (metis less_irrefl unat_0)

lemma of_nat_less_64: "n < 2 ^ 63 \<Longrightarrow> m < 2 ^ 63 \<Longrightarrow> (of_nat n :: u64) < of_nat m \<longleftrightarrow> n < m"
  by (simp add: word_less_nat_alt unat_of_nat_64)

lemma of_nat_less_num_64: "n < 2 ^ 63 \<Longrightarrow> (of_nat n :: u64) < numeral k \<longleftrightarrow> n < numeral k"
  if "(numeral k :: nat) < 2 ^ 63"
  using of_nat_less_64 [of n "numeral k"] that by simp

text \<open>An attribute written into enough free room: its header, its value, and the padding that keeps
  what was there.\<close>

definition attr_wire :: "u16 \<Rightarrow> bytes \<Rightarrow> bytes \<Rightarrow> bytes" where
  "attr_wire ty v pad = be 2 (unat ty) @ be 2 (length v) @ v @ pad"

lemma length_attr_wire [simp]: "length (attr_wire ty v pad) = 4 + length v + length pad"
  by (simp add: attr_wire_def)

lemma attr_encode_fits:
  assumes "length v < 65536" "length v \<le> padded" "4 + padded \<le> length free" "length free < 2 ^ 63"
  shows "attr_encode ty (of_nat (length v)) (length v) v padded (pre @ free) (length pre) (of_nat (length free))
    = Ok (pre @ attr_wire ty v (take (padded - length v) (drop (4 + length v) free)) @ drop (4 + padded) free, 4 + padded)"
proof -
  let ?h = "be 2 (unat ty) @ be 2 (length v)"
  have l: "unat (of_nat (length v) :: u16) = length v" using assms(1) by (simp add: unat_of_nat)
  have w1: "wr (pre @ free) (length pre) ?h = Ok (pre @ ?h @ drop 4 free)"
    using assms by (subst wr_append) simp_all
  have w2: "wr (pre @ ?h @ drop 4 free) (length pre + 4) v = Ok ((pre @ ?h) @ v @ drop (4 + length v) free)"
    using wr_append [of v "drop 4 free" "pre @ ?h"] assms by (simp add: add.commute)
  have n4: "\<not> (of_nat (length free) :: u64) < 4"
    using assms of_nat_less_64 [of "length free" 4] by simp
  have "(of_nat (length free) :: u64) - 4 = of_nat (length free - 4)" using assms by (simp add: of_nat_diff)
  then have nv: "\<not> (of_nat (length free) :: u64) - 4 < of_nat (length v)"
    using assms of_nat_less_64 [of "length free - 4" "length v"] by simp
  have d: "drop (4 + length v) free
      = take (padded - length v) (drop (4 + length v) free) @ drop (4 + padded) free"
  proof -
    have "drop (padded - length v) (drop (4 + length v) free) = drop (4 + padded) free"
      using assms(2) by (simp add: add.commute)
    then show ?thesis using append_take_drop_id [of "padded - length v" "drop (4 + length v) free"] by simp
  qed
  have "attr_encode ty (of_nat (length v)) (length v) v padded (pre @ free) (length pre) (of_nat (length free))
      = Ok (pre @ ?h @ v @ drop (4 + length v) free, 4 + padded)"
    unfolding attr_encode_def StunMsgAttr_encode_def l using n4 nv w1 w2 by simp
  then show ?thesis by (subst (asm) d) (simp add: attr_wire_def)
qed


text \<open>Decoding what was written.\<close>

lemma StunMsgAttr_decode_wire:
  "length v < 65536 \<Longrightarrow> StunMsgAttr_decode (attr_wire ty v pad @ rest) = Ok (ty, of_nat (length v))"
  by (simp add: StunMsgAttr_decode_def attr_wire_def)

lemma rdn_attr_wire: "rdn (attr_wire ty v pad @ rest) 4 (length v) = Ok v" "rdn (attr_wire ty v pad @ rest) 0 2 = Ok (be 2 (unat ty))"
  by (simp_all add: attr_wire_def)

text \<open>The attributes whose announced size is the size they have on the wire.\<close>

fun plain_attr :: "stun_attr \<Rightarrow> bool" where
  "plain_attr (StunMappedAddressAttr _ _ _) = True"
| "plain_attr (StunGoogNetworkInfoAttr _ _) = True"
| "plain_attr (StunIcePriorityAttr _) = True"
| "plain_attr StunIceUseCandidateAttr = True"
| "plain_attr _ = False"

lemma plain_attr_size: "plain_attr a \<Longrightarrow> stun_attr_size a = 4 + length (stun_attr_value a) \<and> length (stun_attr_value a) < 65536"
  by (cases a) simp_all

lemma stun_turn_plain:
  assumes "plain_attr a"
  shows "stun_turn (attr_wire (stun_attr_type a) (stun_attr_value a) [] @ rest) m
    = Ok (addAttr a m, stun_attr_size a)"
proof -
  let ?v = "stun_attr_value a" and ?w = "attr_wire (stun_attr_type a) (stun_attr_value a) [] @ rest"
  have l: "length ?v < 65536" using plain_attr_size [OF assms] by simp
  note dec = StunMsgAttr_decode_wire [OF l] rdn_attr_wire [where v = ?v]
  have "length ?w - 4 = length ?v + length rest" by simp
  then show ?thesis using assms dec [of "stun_attr_type a" "[]" rest]
    by (cases a) (simp_all add: stun_turn_def Let_def skipped_types_def add_attr_def addAttr_def
        StunMappedAddressAttr_decode_def StunGoogNetworkInfoAttr_decode_def StunIcePriorityAttr_decode_def
        StunIceUseCandidateAttr_decode_def)
qed


text \<open>User names without the separator survive.\<close>

definition username_ok :: "string \<times> string \<Rightarrow> bool" where
  "username_ok u \<longleftrightarrow> fst u \<noteq> [] \<and> CHR '':'' \<notin> set (fst u) \<and> CHR '':'' \<notin> set (snd u)
     \<and> length (username_value u) < 65532"

lemma split_username:
  assumes "username_ok (l, r)"
  shows "split (str_of_bytes (username_value (l, r))) '':'' = (if r = [] then [l] else [l, r])"
proof -
  have f: "str_fields '':'' s = [s]" if "CHR '':'' \<notin> set s" for s
    using that str_fields_append [of s "'':''" "[]"] by auto
  have "str_fields '':'' (l @ CHR '':'' # r) = [l, r]"
    using assms f [of r] str_fields_append [of l "'':''" "CHR '':'' # r"] by (auto simp: username_ok_def)
  moreover have "str_fields '':'' l = [l]" using assms f [of l] by (simp add: username_ok_def)
  moreover have "str_of_bytes (username_value (l, r)) = (if r = [] then l else l @ CHR '':'' # r)"
    using str_of_bytes_of_str [of l] str_of_bytes_of_str [of "l @ CHR '':'' # r"]
    by (auto simp: username_value_def bytes_of_str_def)
  ultimately show ?thesis
    using assms by (auto simp: split_fields username_ok_def)
qed

lemma stun_turn_username:
  assumes "username_ok u" "length pad = pad4 (length (username_value u)) - length (username_value u)"
  shows "stun_turn (attr_wire STUN_ATTR_USERNAME (username_value u) pad @ rest) m
    = Ok (m\<lparr>username_attr := Some u\<rparr>, StunUsernameAttr_size u)"
proof -
  obtain l r where u: "u = (l, r)" by (cases u)
  let ?v = "username_value u"
  have v: "length ?v < 65536" "?v \<noteq> []"
    using assms(1) by (auto simp: username_ok_def username_value_def u bytes_of_str_def)
  have l: "unat (of_nat (length ?v) :: u16) = length ?v" using v(1) by (simp add: unat_of_nat)
  have "0 < length ?v" using v(2) by simp
  then show ?thesis
    using StunMsgAttr_decode_wire [OF v(1), of STUN_ATTR_USERNAME pad rest] rdn_attr_wire [of STUN_ATTR_USERNAME ?v pad rest]
      split_username [of l r] assms(1) l
    by (simp add: stun_turn_def Let_def skipped_types_def StunUsernameAttr_decode_def StunUsernameAttr_size_def u
       )
qed

lemma stun_turn_integrity:
  "length tag = 20 \<Longrightarrow> stun_turn (attr_wire STUN_ATTR_MESSAGE_INTEGRITY tag [] @ rest) m
    = Ok (m\<lparr>msg_integrity_attr := Some tag\<rparr>, 24)"
  using StunMsgAttr_decode_wire [of tag STUN_ATTR_MESSAGE_INTEGRITY "[]" rest]
    rdn_attr_wire [of STUN_ATTR_MESSAGE_INTEGRITY tag "[]" rest]
  by (simp add: stun_turn_def Let_def skipped_types_def StunMessageIntegrityAttr_decode_def)

lemma fingerprint_decode_wire:
  "StunFingerPrintAttr_decode (attr_wire STUN_ATTR_FINGERPRINT (be 4 (unat crc)) [] @ rest) = Ok (crc, 8)"
  using StunMsgAttr_decode_wire [of "be 4 (unat crc)" STUN_ATTR_FINGERPRINT "[]" rest]
    rdn_attr_wire [of STUN_ATTR_FINGERPRINT "be 4 (unat crc)" "[]" rest]
  by (simp add: StunFingerPrintAttr_decode_def)

text \<open>One turn of the loop on a message split at the current position.\<close>

lemma stun_loop_turn:
  assumes "stun_turn (w @ rest) m = Ok (m', length w)" "msg_integrity_attr m' = None" "0 < length w"
    and "length (w @ rest) < 2 ^ 63"
  shows "stun_loop (pre @ w @ rest) (length pre) (of_nat (length (w @ rest))) m
    = stun_loop ((pre @ w) @ rest) (length (pre @ w)) (of_nat (length rest)) m'"
proof -
  have "(of_nat (length (w @ rest)) :: u64) \<noteq> 0"
    using assms(3,4) by (intro of_nat_64_not_0) simp_all
  moreover have "(of_nat (length (w @ rest)) :: u64) - of_nat (length w) = of_nat (length rest)" by simp
  ultimately show ?thesis using assms(1,2)
    by (subst stun_loop.simps) simp
qed

lemma stun_loop_last:
  assumes "stun_turn (w @ rest) m = Ok (m', length w)" "msg_integrity_attr m' \<noteq> None" "0 < length w"
    and "length (w @ rest) < 2 ^ 63"
  shows "stun_loop (pre @ w @ rest) (length pre) (of_nat (length (w @ rest))) m
    = Some (Ok (m', length (pre @ w), of_nat (length rest)))"
proof -
  have "(of_nat (length (w @ rest)) :: u64) \<noteq> 0"
    using assms(3,4) by (intro of_nat_64_not_0) simp_all
  moreover have "(of_nat (length (w @ rest)) :: u64) - of_nat (length w) = of_nat (length rest)" by simp
  ultimately show ?thesis using assms(1,2)
    by (subst stun_loop.simps) simp
qed

lemma stun_trailer_wire:
  "stun_trailer pre (length pre) (of_nat (length ([] :: bytes))) m = Ok m"
  "stun_trailer (pre @ attr_wire STUN_ATTR_FINGERPRINT (be 4 (unat crc)) []) (length pre)
     (of_nat (length (attr_wire STUN_ATTR_FINGERPRINT (be 4 (unat crc)) []))) m = Ok (m\<lparr>fingerprint_attr := Some crc\<rparr>)"
  using fingerprint_decode_wire [of crc "[]"] rdn_attr_wire(2) [of STUN_ATTR_FINGERPRINT "be 4 (unat crc)" "[]" "[]"]
  by (simp_all add: stun_trailer_def)

lemma stun_loop_attrs:
  assumes "\<forall>a \<in> set as. plain_attr a" "msg_integrity_attr m = None"
    and "length (concat (map (\<lambda>a. attr_wire (stun_attr_type a) (stun_attr_value a) []) as) @ rest) < 2 ^ 63"
  defines "ws \<equiv> concat (map (\<lambda>a. attr_wire (stun_attr_type a) (stun_attr_value a) []) as)"
  shows "stun_loop (pre @ ws @ rest) (length pre) (of_nat (length (ws @ rest))) m
    = stun_loop ((pre @ ws) @ rest) (length (pre @ ws)) (of_nat (length rest)) (m\<lparr>msg_attrs := msg_attrs m @ as\<rparr>)"
  using assms(1-3) unfolding ws_def
proof (induction as arbitrary: pre m)
  case Nil
  then show ?case by simp
next
  case (Cons a as)
  let ?w = "attr_wire (stun_attr_type a) (stun_attr_value a) []"
  let ?ws = "concat (map (\<lambda>a. attr_wire (stun_attr_type a) (stun_attr_value a) []) as)"
  have pa: "plain_attr a" using Cons.prems(1) by simp
  have "stun_loop (pre @ ?w @ (?ws @ rest)) (length pre) (of_nat (length (?w @ (?ws @ rest)))) m
      = stun_loop ((pre @ ?w) @ (?ws @ rest)) (length (pre @ ?w)) (of_nat (length (?ws @ rest))) (addAttr a m)"
    using stun_turn_plain [OF pa, of "?ws @ rest" m] plain_attr_size [OF pa] Cons.prems(2,3)
    by (intro stun_loop_turn) (auto simp: addAttr_def)
  also have "\<dots> = stun_loop (((pre @ ?w) @ ?ws) @ rest) (length ((pre @ ?w) @ ?ws)) (of_nat (length rest))
      ((addAttr a m)\<lparr>msg_attrs := msg_attrs (addAttr a m) @ as\<rparr>)"
    using Cons.prems by (intro Cons.IH) (auto simp: addAttr_def)
  finally show ?case by (simp add: addAttr_def)
qed


text \<open>Encoding with a user name into a buffer of the announced size.\<close>

lemma stun_attr_encode_plain:
  assumes "plain_attr a" "stun_attr_size a \<le> length free" "length free < 2 ^ 63"
  shows "stun_attr_encode a (pre @ free) (length pre) (of_nat (length free))
    = Ok (pre @ attr_wire (stun_attr_type a) (stun_attr_value a) [] @ drop (stun_attr_size a) free, stun_attr_size a)"
  using attr_encode_fits [of "stun_attr_value a" "length (stun_attr_value a)" free "stun_attr_type a" pre]
    plain_attr_size [OF assms(1)] assms by (simp add: stun_attr_encode_def Let_def)

definition attrs_wire :: "stun_attr list \<Rightarrow> bytes" where
  "attrs_wire as = concat (map (\<lambda>a. attr_wire (stun_attr_type a) (stun_attr_value a) []) as)"

lemma length_attrs_wire: "\<forall>a \<in> set as. plain_attr a \<Longrightarrow> length (attrs_wire as) = sum_list (map stun_attr_size as)"
  by (induction as) (auto simp: attrs_wire_def plain_attr_size)

lemma stun_attrs_encode_plain:
  assumes "\<forall>a \<in> set as. plain_attr a" "length (attrs_wire as) \<le> length free" "length free < 2 ^ 63"
  shows "stun_attrs_encode as (pre @ free) (length pre) (of_nat (length free))
    = Ok (pre @ attrs_wire as @ drop (length (attrs_wire as)) free, length (pre @ attrs_wire as),
          of_nat (length free - length (attrs_wire as)))"
  using assms
proof (induction as arbitrary: pre free)
  case Nil
  then show ?case by (simp add: attrs_wire_def)
next
  case (Cons a as)
  let ?w = "attr_wire (stun_attr_type a) (stun_attr_value a) []"
  have aw: "attrs_wire (a # as) = ?w @ attrs_wire as" by (simp add: attrs_wire_def)
  have pa: "plain_attr a" and sz: "stun_attr_size a = length ?w"
    using Cons.prems(1) plain_attr_size [of a] by auto
  have le: "length ?w \<le> length free" "length (attrs_wire as) \<le> length (drop (length ?w) free)"
    using Cons.prems(2) unfolding aw by simp_all
  have "stun_attrs_encode (a # as) (pre @ free) (length pre) (of_nat (length free))
      = stun_attrs_encode as ((pre @ ?w) @ drop (length ?w) free) (length (pre @ ?w)) (of_nat (length (drop (length ?w) free)))"
    using stun_attr_encode_plain [OF pa _ Cons.prems(3), of pre] le(1) unfolding sz
    by (simp add: of_nat_diff del: length_attr_wire)
  also have "\<dots> = Ok ((pre @ ?w) @ attrs_wire as @ drop (length (attrs_wire as)) (drop (length ?w) free),
      length ((pre @ ?w) @ attrs_wire as), of_nat (length (drop (length ?w) free) - length (attrs_wire as)))"
    using Cons.prems le by (intro Cons.IH) auto
  finally show ?case unfolding aw by (simp add: add.commute)
qed

lemma StunUsernameAttr_encode_ok:
  assumes "username_ok u" "StunUsernameAttr_size u \<le> length free" "length free < 2 ^ 63"
  shows "\<exists>pad. length pad = pad4 (length (username_value u)) - length (username_value u) \<and>
    StunUsernameAttr_encode u (pre @ free) (length pre) (of_nat (length free))
    = Ok (pre @ attr_wire STUN_ATTR_USERNAME (username_value u) pad @ drop (StunUsernameAttr_size u) free,
          StunUsernameAttr_size u)"
proof -
  let ?v = "username_value u"
  have v: "length ?v < 65536" using assms(1) by (simp add: username_ok_def)
  have l: "unat (of_nat (length ?v) :: u16) = length ?v" using v by (simp add: unat_of_nat)
  let ?pad = "take (pad4 (length ?v) - length ?v) (drop (4 + length ?v) free)"
  have "length ?pad = pad4 (length ?v) - length ?v"
    using assms(2) pad4_bounds(1) [of "length ?v"] by (simp add: StunUsernameAttr_size_def)
  then show ?thesis
    using attr_encode_fits [OF v pad4_bounds(1), of free STUN_ATTR_USERNAME pre] assms
    by (intro exI [of _ ?pad]) (simp add: StunUsernameAttr_encode_def Let_def l StunUsernameAttr_size_def)
qed


text \<open>The HMAC covers everything in front of the integrity attribute, with the length field patched.\<close>

lemma integrity_hmac_eval:
  assumes "length a = 2" "length b = 2" "n = length (a @ b @ r)" "n < 2 ^ 62"
    and "len = of_nat (n + 24 + (if fp then 8 else 0))"
  shows "integrity_hmac hmac pwd fp (a @ b @ r @ s) len = Ok (hmac (bytes_of_str pwd) (a @ be 2 (n + 4) @ r))"
proof -
  let ?c = "len - 20 - (if fp then 8 else 0)"
  have c: "?c = of_nat (n + 4)" using assms(5) by (cases fp) (simp_all add: algebra_simps)
  have uc: "unat ?c = n + 4" unfolding c using assms(4) by (intro unat_of_nat_64) simp
  have "?c + 20 - 24 = of_nat n" unfolding c by simp
  then have un: "unat (?c + 20 - 24) = n" using assms(4) by (simp add: unat_of_nat_64)
  have w: "wr (a @ b @ r @ s) 2 (be 2 (n + 4)) = Ok (a @ be 2 (n + 4) @ r @ s)"
    using wr_append [of "be 2 (n + 4)" "b @ r @ s" a] assms(1,2) by simp
  have rd: "rdn (a @ be 2 (n + 4) @ r @ s) 0 n = Ok (a @ be 2 (n + 4) @ r)"
    using assms(1-3) by simp
  show ?thesis unfolding integrity_hmac_def Let_def uc un w by (simp add: rd)
qed

definition header_wire :: "stun_header \<Rightarrow> nat \<Rightarrow> bytes" where
  "header_wire h l = be 2 (unat (stun_type h)) @ be 2 l @ be 4 (unat (magic_cookie h)) @ transaction_id h"

definition header_ok :: "stun_header \<Rightarrow> bool" where
  "header_ok h \<longleftrightarrow> stun_type h AND 0xC0 = 0 \<and> magic_cookie h = STUN_MAGIC_COOKIE \<and> length (transaction_id h) = 12"

lemma length_header_wire [simp]: "header_ok h \<Longrightarrow> length (header_wire h l) = 20"
  by (simp add: header_wire_def header_ok_def)

lemma header_decode_wire:
  assumes "header_ok h"
  shows "StunMsgHeader_decode h0 (header_wire h l @ rest)
    = Ok (h0\<lparr>stun_type := stun_type h, magic_cookie := magic_cookie h, transaction_id := transaction_id h\<rparr>, 20)"
  using assms by (simp add: StunMsgHeader_decode_def header_wire_def header_ok_def Let_def)

lemma header_encode_ok:
  assumes "header_ok h" "20 \<le> length buf" "length buf < 2 ^ 63"
  shows "StunMsgHeader_encode h buf 0 (of_nat (length buf)) = Ok (header_wire h (unat (stun_length h)) @ drop 20 buf, 20)"
proof -
  have "\<not> (of_nat (length buf) :: u64) < 20" using assms of_nat_less_64 [of "length buf" 20] by simp
  moreover have "wr ([] @ buf) (length ([] :: bytes)) (header_wire h (unat (stun_length h)))
      = Ok ([] @ header_wire h (unat (stun_length h)) @ drop (length (header_wire h (unat (stun_length h)))) buf)"
    using assms by (intro wr_append) simp
  ultimately show ?thesis using assms(1) by (simp add: StunMsgHeader_encode_def header_wire_def header_ok_def)
qed

text \<open>The wire form of a message with a user name, an integrity attribute and perhaps a fingerprint.\<close>

definition stun_wire ::
  "(bytes \<Rightarrow> bytes \<Rightarrow> bytes) \<Rightarrow> string \<Rightarrow> bool \<Rightarrow> stun_header \<Rightarrow> bytes \<Rightarrow> bytes" where
  "stun_wire hmac pwd fp h content =
     (let l = length content + 24 + (if fp then 8 else 0);
          tag = hmac (bytes_of_str pwd) (header_wire h (length content + 24) @ content);
          w = header_wire h l @ content @ attr_wire STUN_ATTR_MESSAGE_INTEGRITY tag [] in
      w @ (if fp then attr_wire STUN_ATTR_FINGERPRINT (be 4 (unat (StunFingerPrintAttr_crc w))) [] else []))"

text \<open>The last two attributes, written behind \<open>pre\<close> into exactly the room they need.\<close>

lemma integrity_encode_ok:
  assumes "length tag = 20" "24 \<le> length free" "length free < 2 ^ 63"
  shows "StunMessageIntegrityAttr_encode tag (pre @ free) (length pre) (of_nat (length free))
    = Ok (pre @ attr_wire STUN_ATTR_MESSAGE_INTEGRITY tag [] @ drop 24 free, 24)"
  using attr_encode_fits [of tag 20 free STUN_ATTR_MESSAGE_INTEGRITY pre] assms
  by (simp add: StunMessageIntegrityAttr_encode_def)

lemma fingerprint_encode_ok:
  assumes "length free = 8"
  shows "StunFingerPrintAttr_encode crc (pre @ free) (length pre) 8
    = Ok (pre @ attr_wire STUN_ATTR_FINGERPRINT (be 4 (unat crc)) [], 8)"
  using attr_encode_fits [of "be 4 (unat crc)" 4 free STUN_ATTR_FINGERPRINT pre] assms
  by (simp add: StunFingerPrintAttr_encode_def)

text \<open>The four stages of the encoder for a message with a user name.\<close>

lemma StunMsg_encode_stages:
  assumes "username_attr m = Some u"
    and "l = of_nat (StunUsernameAttr_size u + sum_list (map stun_attr_size (msg_attrs m))) + 24 + (if fp then 8 else 0)"
    and "StunMsgHeader_encode ((msg_header m)\<lparr>stun_length := l\<rparr>) buf 0 (of_nat (length buf)) = Ok (b1, 20)"
    and "StunUsernameAttr_encode u b1 20 (of_nat (length buf) - 20) = Ok (b2, su)"
    and "stun_attrs_encode (msg_attrs m) b2 (20 + su) (of_nat (length buf) - 20 - of_nat su) = Ok (b3, pos, len)"
    and "integrity_hmac hmac pwd fp b3 (of_nat (unat l + 20)) = Ok tag"
    and "StunMessageIntegrityAttr_encode tag b3 pos len = Ok (b4, 24)"
  shows "StunMsg_encode hmac True pwd fp m buf =
    (if fp then obind (rdn b4 0 (pos + 24)) (\<lambda>prefix.
       obind (or_code (-4) (StunFingerPrintAttr_encode (StunFingerPrintAttr_crc prefix) b4 (pos + 24) (len - 24)))
         (\<lambda>(b, c). Ok (b, pos + 24 + c)))
     else Ok (b4, pos + 24))"
  using assms by (simp add: StunMsg_encode_def Let_def)

lemma of_nat_diff_64: "m \<le> n \<Longrightarrow> (of_nat n :: u64) - of_nat m = of_nat (n - m)"
  by (simp add: of_nat_diff)

text \<open>The front of the message: header, user name and attributes, with the room for the last attributes left.\<close>

lemma StunMsg_encode_front:
  assumes "header_ok h" "username_ok u" "\<forall>a \<in> set as. plain_attr a" "length (attrs_wire as) = na"
    and "length buf = 20 + StunUsernameAttr_size u + na + t" "length buf < 65536"
  shows "\<exists>pad b1 b2 f. length pad = pad4 (length (username_value u)) - length (username_value u) \<and> length f = t \<and>
    StunMsgHeader_encode h buf 0 (of_nat (length buf)) = Ok (b1, 20) \<and>
    StunUsernameAttr_encode u b1 20 (of_nat (length buf) - 20) = Ok (b2, StunUsernameAttr_size u) \<and>
    stun_attrs_encode as b2 (20 + StunUsernameAttr_size u)
        (of_nat (length buf) - 20 - of_nat (StunUsernameAttr_size u)) =
      Ok (header_wire h (unat (stun_length h)) @ attr_wire STUN_ATTR_USERNAME (username_value u) pad @ attrs_wire as @ f,
          20 + StunUsernameAttr_size u + na, of_nat t)"
proof -
  define su where "su = StunUsernameAttr_size u"
  let ?H = "header_wire h (unat (stun_length h))" and ?A = "attrs_wire as"
  let ?f1 = "drop 20 buf" and ?f2 = "drop (20 + su) buf" and ?f3 = "drop (20 + su + na) buf"
  have lH: "length ?H = 20" using assms(1) by simp
  have l1: "length ?f1 = su + na + t" and l2: "length ?f2 = na + t" and l3: "length ?f3 = t"
    using assms(5) by (simp_all add: su_def)
  have e1: "StunMsgHeader_encode h buf 0 (of_nat (length buf)) = Ok (?H @ ?f1, 20)"
    using assms by (intro header_encode_ok) auto
  obtain pad where pad: "length pad = pad4 (length (username_value u)) - length (username_value u)"
    and e2: "StunUsernameAttr_encode u (?H @ ?f1) (length ?H) (of_nat (length ?f1))
      = Ok (?H @ attr_wire STUN_ATTR_USERNAME (username_value u) pad @ drop su ?f1, su)"
    using StunUsernameAttr_encode_ok [OF assms(2), of ?f1 ?H] l1 assms(5,6) unfolding su_def by auto
  define U where "U = attr_wire STUN_ATTR_USERNAME (username_value u) pad"
  have lU: "length U = su"
    using pad pad4_bounds(1) [of "length (username_value u)"] by (simp add: U_def su_def StunUsernameAttr_size_def)
  have d1: "(of_nat (length buf) :: u64) - 20 = of_nat (length ?f1)"
    using of_nat_diff_64 [of 20 "length buf"] assms(5) by simp
  have d2: "(of_nat (length ?f1) :: u64) - of_nat su = of_nat (length ?f2)"
    using of_nat_diff_64 [of su "length ?f1"] l1 l2 by simp
  have e3: "stun_attrs_encode as ((?H @ U) @ ?f2) (length (?H @ U)) (of_nat (length ?f2))
      = Ok ((?H @ U) @ ?A @ drop (length ?A) ?f2, length ((?H @ U) @ ?A), of_nat (length ?f2 - length ?A))"
    using l2 assms(4,5,6) by (intro stun_attrs_encode_plain [OF assms(3)]) auto
  have e2': "StunUsernameAttr_encode u (?H @ ?f1) 20 (of_nat (length buf) - 20) = Ok (?H @ U @ ?f2, su)"
    using e2 unfolding d1 lH U_def by (simp add: add.commute)
  have d3: "(of_nat (length buf) :: u64) - 20 - of_nat su = of_nat (length ?f2)" unfolding d1 d2 ..
  have "length (?H @ U) = 20 + su" "length ((?H @ U) @ ?A) = 20 + su + na" using lH lU assms(4) by simp_all
  moreover have "drop (length ?A) ?f2 = ?f3" "length ?f2 - length ?A = t"
    using assms(4) l2 by (simp_all add: add.commute)
  ultimately have "stun_attrs_encode as (?H @ U @ ?f2) (20 + su) (of_nat (length buf) - 20 - of_nat su)
      = Ok (?H @ U @ ?A @ ?f3, 20 + su + na, of_nat t)"
    using e3 unfolding d3 by simp
  then show ?thesis unfolding su_def [symmetric]
    using pad e1 e2' l3 by (intro exI [of _ pad] exI [of _ "?H @ ?f1"] exI [of _ "?H @ U @ ?f2"] exI [of _ ?f3])
      (simp add: U_def)
qed


lemma StunMsg_encode_wire:
  assumes "header_ok (msg_header m)" "username_attr m = Some u" "username_ok u" "\<forall>a \<in> set (msg_attrs m). plain_attr a"
    and "length buf = StunMsg_size True fp m" "StunMsg_size True fp m < 65536" "\<forall>k d. length (hmac k d) = 20"
  shows "\<exists>pad. length pad = pad4 (length (username_value u)) - length (username_value u) \<and>
    StunMsg_encode hmac True pwd fp m buf
      = Ok (stun_wire hmac pwd fp (msg_header m)
              (attr_wire STUN_ATTR_USERNAME (username_value u) pad @ attrs_wire (msg_attrs m)), length buf)"
proof -
  define na where "na = length (attrs_wire (msg_attrs m))"
  define t where "t = 24 + (if fp then 8 else 0 :: nat)"
  define n where "n = StunUsernameAttr_size u + na"
  have na: "sum_list (map stun_attr_size (msg_attrs m)) = na"
    using length_attrs_wire [OF assms(4)] by (simp add: na_def)
  have sz: "length buf = 20 + StunUsernameAttr_size u + na + t"
    using assms(2,5) na by (simp add: StunMsg_size_def t_def)
  define l where "l = (of_nat (StunUsernameAttr_size u + na) :: u16) + 24 + (if fp then 8 else 0)"
  define h where "h = (msg_header m)\<lparr>stun_length := l\<rparr>"
  have "l = of_nat (n + t)" by (simp add: l_def n_def t_def)
  then have "unat l = (n + t) mod 65536" by (simp only: unat_of_nat) simp
  then have ul: "unat l = n + t" using sz assms(5,6) by (simp add: n_def)
  have hok: "header_ok h" using assms(1) by (simp add: h_def header_ok_def)
  obtain pad b1 b2 f where f: "length pad = pad4 (length (username_value u)) - length (username_value u)" "length f = t"
    "StunMsgHeader_encode h buf 0 (of_nat (length buf)) = Ok (b1, 20)"
    "StunUsernameAttr_encode u b1 20 (of_nat (length buf) - 20) = Ok (b2, StunUsernameAttr_size u)"
    "stun_attrs_encode (msg_attrs m) b2 (20 + StunUsernameAttr_size u)
        (of_nat (length buf) - 20 - of_nat (StunUsernameAttr_size u)) =
      Ok (header_wire h (unat (stun_length h)) @ attr_wire STUN_ATTR_USERNAME (username_value u) pad @
          attrs_wire (msg_attrs m) @ f, 20 + StunUsernameAttr_size u + na, of_nat t)"
    using StunMsg_encode_front [OF hok assms(3,4) na_def [symmetric] sz] assms(5,6) by auto
  define C where "C = attr_wire STUN_ATTR_USERNAME (username_value u) pad @ attrs_wire (msg_attrs m)"
  define H where "H = header_wire h (n + t)"
  define tag where "tag = hmac (bytes_of_str pwd) (header_wire h (n + 24) @ C)"
  define W where "W = H @ C @ attr_wire STUN_ATTR_MESSAGE_INTEGRITY tag []"
  have lC: "length C = n"
    using f(1) pad4_bounds(1) [of "length (username_value u)"] by (simp add: C_def n_def na_def StunUsernameAttr_size_def)
  have lH: "length H = 20" using hok by (simp add: H_def)
  have lW: "length W = 20 + n + 24" using assms(7) by (simp add: W_def lH lC tag_def)
  have tag: "integrity_hmac hmac pwd fp (H @ C @ f) (of_nat (unat l + 20)) = Ok tag"
    using integrity_hmac_eval [of "be 2 (unat (stun_type h))" "be 2 (n + t)" "20 + n"
        "be 4 (unat (magic_cookie h)) @ transaction_id h @ C" "of_nat (unat l + 20)" fp hmac pwd f] hok lC sz assms(5,6) ul
    by (simp add: H_def header_wire_def header_ok_def tag_def t_def n_def add.commute add.left_commute)
  have "StunMessageIntegrityAttr_encode tag ((H @ C) @ f) (length (H @ C)) (of_nat (length f))
      = Ok ((H @ C) @ attr_wire STUN_ATTR_MESSAGE_INTEGRITY tag [] @ drop 24 f, 24)"
    using assms(7) by (intro integrity_encode_ok) (auto simp: tag_def f(2) t_def)
  then have mi: "StunMessageIntegrityAttr_encode tag (H @ C @ f) (20 + n) (of_nat t) = Ok (W @ drop 24 f, 24)"
    by (simp add: lH lC f(2) W_def)
  have st: "StunMsg_encode hmac True pwd fp m buf =
    (if fp then obind (rdn (W @ drop 24 f) 0 (20 + n + 24)) (\<lambda>prefix.
       obind (or_code (-4) (StunFingerPrintAttr_encode (StunFingerPrintAttr_crc prefix) (W @ drop 24 f) (20 + n + 24)
           (of_nat t - 24))) (\<lambda>(b, c). Ok (b, 20 + n + 24 + c)))
     else Ok (W @ drop 24 f, 20 + n + 24))"
    by (rule StunMsg_encode_stages [OF assms(2) _ f(3) [unfolded h_def] f(4) _ tag mi])
      (use f(5) ul in \<open>simp_all add: l_def na h_def H_def C_def n_def\<close>)
  have "StunMsg_encode hmac True pwd fp m buf = Ok (W @ (if fp then attr_wire STUN_ATTR_FINGERPRINT
      (be 4 (unat (StunFingerPrintAttr_crc W))) [] else []), 20 + n + t)"
    using st fingerprint_encode_ok [of "drop 24 f" _ W] lW f(2) by (cases fp) (simp_all add: t_def)
  moreover have "length buf = 20 + n + t" using sz by (simp add: n_def)
  moreover have "stun_wire hmac pwd fp (msg_header m) C = W @ (if fp then attr_wire STUN_ATTR_FINGERPRINT
      (be 4 (unat (StunFingerPrintAttr_crc W))) [] else [])"
  proof -
    have hw: "header_wire (msg_header m) k = header_wire h k" for k by (simp add: h_def header_wire_def)
    have nt: "n + 24 + (if fp then 8 else 0) = n + t" by (simp add: t_def)
    show ?thesis unfolding stun_wire_def Let_def lC hw nt W_def H_def tag_def by simp
  qed
  ultimately show ?thesis using f(1) by (intro exI [of _ pad]) (simp add: C_def)
qed


text \<open>Decoding the wire form: the attribute loop over user name, plain attributes and integrity.\<close>

lemma stun_loop_wire:
  assumes "username_ok u" "\<forall>a \<in> set as. plain_attr a" "length tag = 20" "msg_integrity_attr m = None"
    and "length pad = pad4 (length (username_value u)) - length (username_value u)"
    and "length (attrs_wire as) < 65536" "length F < 65536"
  defines "U \<equiv> attr_wire STUN_ATTR_USERNAME (username_value u) pad"
  defines "M \<equiv> attr_wire STUN_ATTR_MESSAGE_INTEGRITY tag []"
  shows "stun_loop (H @ U @ attrs_wire as @ M @ F) (length H) (of_nat (length (U @ attrs_wire as @ M @ F))) m
    = Some (Ok (m\<lparr>username_attr := Some u, msg_attrs := msg_attrs m @ as, msg_integrity_attr := Some tag\<rparr>,
        length (H @ U @ attrs_wire as @ M), of_nat (length F)))"
proof -
  let ?m2 = "m\<lparr>username_attr := Some u\<rparr>"
  let ?m3 = "?m2\<lparr>msg_attrs := msg_attrs ?m2 @ as\<rparr>"
  have lU: "length U = StunUsernameAttr_size u"
    using assms(5) pad4_bounds(1) [of "length (username_value u)"] by (simp add: U_def StunUsernameAttr_size_def)
  have tU: "stun_turn (U @ R) m = Ok (?m2, length U)" for R
    using stun_turn_username [OF assms(1,5), of R m] lU by (simp add: U_def)
  have tM: "stun_turn (M @ R) m' = Ok (m'\<lparr>msg_integrity_attr := Some tag\<rparr>, length M)" for R m'
    using stun_turn_integrity [OF assms(3), of R m'] assms(3) by (simp add: M_def)
  have lM: "length M = 24" and pos: "0 < length U" using assms(3) by (simp_all add: M_def U_def)
  have "length (username_value u) < 65532" using assms(1) by (simp add: username_ok_def)
  then have "length U < 65540" using pad4_bounds(2) [of "length (username_value u)"] assms(5) by (simp add: U_def)
  then have tot: "length (U @ attrs_wire as @ M @ F) < 2 ^ 63" using assms(6,7) lM by simp
  have "stun_loop (H @ U @ (attrs_wire as @ M @ F)) (length H) (of_nat (length (U @ attrs_wire as @ M @ F))) m
      = stun_loop ((H @ U) @ attrs_wire as @ M @ F) (length (H @ U)) (of_nat (length (attrs_wire as @ M @ F))) ?m2"
    by (rule stun_loop_turn [OF tU]) (use tot pos assms(4) in simp_all)
  also have "\<dots> = stun_loop (((H @ U) @ attrs_wire as) @ M @ F) (length ((H @ U) @ attrs_wire as)) (of_nat (length (M @ F))) ?m3"
    unfolding attrs_wire_def
    by (rule stun_loop_attrs) (use assms(2,4) tot in \<open>auto simp: attrs_wire_def\<close>)
  also have "\<dots> = Some (Ok (?m3\<lparr>msg_integrity_attr := Some tag\<rparr>, length (((H @ U) @ attrs_wire as) @ M), of_nat (length F)))"
    by (rule stun_loop_last [OF tM]) (use lM tot in simp_all)
  finally show ?thesis by simp
qed

definition decoded_header :: "stun_header \<Rightarrow> stun_header \<Rightarrow> stun_header" where
  "decoded_header h0 h = h0\<lparr>stun_type := stun_type h, magic_cookie := magic_cookie h, transaction_id := transaction_id h\<rparr>"

lemma StunMsg_decode_wire:
  fixes pwd fp
  assumes "header_ok h" "username_ok u" "\<forall>a \<in> set as. plain_attr a" "\<forall>k d. length (hmac k d) = 20"
    and "length pad = pad4 (length (username_value u)) - length (username_value u)"
    and "length (attrs_wire as) < 65536" "msg_integrity_attr m0 = None"
  defines "C \<equiv> attr_wire STUN_ATTR_USERNAME (username_value u) pad @ attrs_wire as"
  defines "tag \<equiv> hmac (bytes_of_str pwd) (header_wire h (length C + 24) @ C)"
  defines "W \<equiv> header_wire h (length C + 24 + (if fp then 8 else 0)) @ C @ attr_wire STUN_ATTR_MESSAGE_INTEGRITY tag []"
  shows "StunMsg_decode (stun_wire hmac pwd fp h C) m0 = Some (Ok (m0\<lparr>
      msg_header := decoded_header (msg_header m0) h,
      msg_attrs := msg_attrs m0 @ as, username_attr := Some u, msg_integrity_attr := Some tag,
      fingerprint_attr := if fp then Some (StunFingerPrintAttr_crc W) else fingerprint_attr m0\<rparr>))"
proof -
  define H where "H = header_wire h (length C + 24 + (if fp then 8 else 0))"
  define F where "F = (if fp then attr_wire STUN_ATTR_FINGERPRINT (be 4 (unat (StunFingerPrintAttr_crc W))) [] else [])"
  define U where "U = attr_wire STUN_ATTR_USERNAME (username_value u) pad"
  define M where "M = attr_wire STUN_ATTR_MESSAGE_INTEGRITY tag []"
  let ?D = "stun_wire hmac pwd fp h C" and ?h = "decoded_header (msg_header m0) h"
  let ?m4 = "m0\<lparr>msg_header := ?h, username_attr := Some u, msg_attrs := msg_attrs m0 @ as, msg_integrity_attr := Some tag\<rparr>"
  have D: "?D = H @ U @ attrs_wire as @ M @ F"
    by (simp add: stun_wire_def Let_def C_def tag_def W_def H_def F_def U_def M_def)
  have DW: "?D = W @ F" by (simp add: stun_wire_def Let_def tag_def W_def F_def)
  have W: "W = H @ U @ attrs_wire as @ M" using D DW by simp
  have lH: "length H = 20" using assms(1) by (simp add: H_def)
  have lF: "length F < 65536" by (simp add: F_def)
  have lt: "length tag = 20" using assms(4) by (simp add: tag_def)
  have hd: "StunMsgHeader_decode (msg_header m0) ?D = Ok (?h, 20)"
    unfolding D using header_decode_wire [OF assms(1)] by (simp add: H_def decoded_header_def)
  have "(of_nat (length ?D) :: u64) - of_nat 20 = of_nat (length (U @ attrs_wire as @ M @ F))"
    unfolding D by (simp add: lH)
  then have loop: "stun_loop ?D 20 (of_nat (length ?D) - of_nat 20) (m0\<lparr>msg_header := ?h\<rparr>)
      = Some (Ok (?m4, length W, of_nat (length F)))"
    using stun_loop_wire [OF assms(2,3) lt _ assms(5,6) lF, of "m0\<lparr>msg_header := ?h\<rparr>" H] assms(7)
    by (simp add: D W lH U_def M_def)
  have "stun_trailer ?D (length W) (of_nat (length F)) ?m4
      = Ok (?m4\<lparr>fingerprint_attr := if fp then Some (StunFingerPrintAttr_crc W) else fingerprint_attr ?m4\<rparr>)"
    unfolding DW F_def using stun_trailer_wire(2) [of W "StunFingerPrintAttr_crc W" ?m4] stun_trailer_wire(1) [of W ?m4]
    by (cases fp) simp_all
  with hd loop show ?thesis by (simp add: StunMsg_decode_def)
qed


lemma length_stun_wire:
  assumes "header_ok h" "\<forall>k d. length (hmac k d) = 20"
  shows "length (stun_wire hmac pwd fp h C) = 20 + length C + 24 + (if fp then 8 else 0)"
  using assms by (simp add: stun_wire_def Let_def)

lemma checkMsgIntegrity_wire:
  assumes "header_ok h" "\<forall>k d. length (hmac k d) = 20" "length C < 65536"
    and "msg_integrity_attr m = Some (hmac (bytes_of_str pwd) (header_wire h (length C + 24) @ C))"
    and "fingerprint_attr m \<noteq> None \<longleftrightarrow> fp"
  shows "checkMsgIntegrity hmac m (stun_wire hmac pwd fp h C) pwd = Ok True"
proof -
  define l where "l = length C + 24 + (if fp then 8 else 0)"
  define r where "r = be 4 (unat (magic_cookie h)) @ transaction_id h @ C"
  obtain s where s: "stun_wire hmac pwd fp h C = be 2 (unat (stun_type h)) @ be 2 l @ r @ s"
    by (simp add: stun_wire_def Let_def header_wire_def r_def l_def)
  have n: "20 + length C = length (be 2 (unat (stun_type h)) @ be 2 l @ r)"
    using assms(1) by (simp add: r_def header_ok_def)
  have "integrity_hmac hmac pwd fp (stun_wire hmac pwd fp h C) (of_nat (length (stun_wire hmac pwd fp h C)))
      = Ok (hmac (bytes_of_str pwd) (be 2 (unat (stun_type h)) @ be 2 (20 + length C + 4) @ r))"
    unfolding length_stun_wire [OF assms(1,2)] unfolding s
    by (rule integrity_hmac_eval) (use n assms(3) in simp_all)
  also have "be 2 (unat (stun_type h)) @ be 2 (20 + length C + 4) @ r = header_wire h (length C + 24) @ C"
    by (simp add: header_wire_def r_def add.commute)
  finally show ?thesis using assms(4,5) by (simp add: checkMsgIntegrity_def)
qed

lemma checkFingerPrint_eval:
  assumes "length s = 8" "length d < 2 ^ 62"
  shows "checkFingerPrint m (d @ s) = Ok (case fingerprint_attr m of None \<Rightarrow> True | Some crc \<Rightarrow> crc = StunFingerPrintAttr_crc d)"
proof -
  have "(of_nat (length (d @ s)) :: u64) - 8 = of_nat (length d)" using assms(1) by simp
  then have "unat ((of_nat (length (d @ s)) :: u64) - 8) = length d" using assms(2) by (simp add: unat_of_nat_64)
  then show ?thesis by (simp add: checkFingerPrint_def split: option.splits)
qed

lemma stun_turn_consumes:
  "stun_turn d m = Ok (m', c) \<Longrightarrow>
     2 \<le> length d \<and> ((of_nat (unbe (take 2 d)) :: u16) \<in> set skipped_types \<or> 4 \<le> c)"
  by (auto simp: stun_turn_def Let_def outcome_iffs add_attr_def StunMappedAddressAttr_decode_def
      StunGoogNetworkInfoAttr_decode_def StunIcePriorityAttr_decode_def StunIceUseCandidateAttr_decode_def
      StunUsernameAttr_decode_def StunMessageIntegrityAttr_decode_def tie_breaker_decode_def rdn_def
      split: if_splits)

lemma stun_loop_returns:
  assumes "\<forall>i \<ge> pos. (of_nat (unbe (take 2 (drop i d))) :: u16) \<notin> set skipped_types"
  shows "\<exists>r. stun_loop d pos len m = Some r"
  using assms
proof (induction "length d - pos" arbitrary: pos len m rule: less_induct)
  case less
  show ?case
  proof (cases "len = 0 \<or> (\<forall>r. stun_turn (drop pos d) m \<noteq> Ok r)")
    case True
    then show ?thesis by (subst stun_loop.simps) (auto split: outcome.splits)
  next
    case False
    then obtain m' c where t: "len \<noteq> 0" "stun_turn (drop pos d) m = Ok (m', c)" by force
    then have c: "pos + 2 \<le> length d" "4 \<le> c" using stun_turn_consumes [OF t(2)] less.prems by auto
    have "\<exists>r. stun_loop d (pos + c) (len - of_nat c) m' = Some r"
      using c less.prems by (intro less.hyps) auto
    then show ?thesis using t by (subst stun_loop.simps) auto
  qed
qed

lemma stun_loop_hangs:
  assumes "len \<noteq> 0" "msg_integrity_attr m = None" "stun_turn (drop pos d) m = Ok (m, 0)"
  shows "stun_loop d pos len m = None"
proof (rule ccontr)
  assume "stun_loop d pos len m \<noteq> None"
  then obtain r where "stun_loop d pos len m = Some r" by blast
  then have "\<not> (len \<noteq> 0 \<and> msg_integrity_attr m = None \<and> stun_turn (drop pos d) m = Ok (m, 0))"
    by (rule stun_loop.raw_induct [of "\<lambda>d pos len m _. \<not> (len \<noteq> 0 \<and> msg_integrity_attr m = None \<and>
        stun_turn (drop pos d) m = Ok (m, 0))", rotated]) (fastforce split: if_splits)
  with assms show False by blast
qed

text \<open>Encoding, transport and decoding of an authenticated message in one step.\<close>

lemma StunMsg_authenticated:
  assumes "header_ok (msg_header m)" "username_attr m = Some u" "username_ok u" "\<forall>a \<in> set (msg_attrs m). plain_attr a"
    and "length buf = StunMsg_size True fp m" "StunMsg_size True fp m < 65536" "\<forall>k d. length (hmac k d) = 20"
  shows "\<exists>w m'. StunMsg_encode hmac True pwd fp m buf = Ok (w, length buf) \<and> length w = length buf
    \<and> take 2 w = be 2 (unat (stun_type (msg_header m)))
    \<and> StunMsg_decode w (StunMsg_new junk) = Some (Ok m')
    \<and> stun_type (msg_header m') = stun_type (msg_header m)
    \<and> transaction_id (msg_header m') = transaction_id (msg_header m)
    \<and> username_attr m' = Some u \<and> msg_attrs m' = msg_attrs m
    \<and> checkMsgIntegrity hmac m' w pwd = Ok True \<and> checkFingerPrint m' w = Ok True"
proof -
  note hmac = assms(7)
  obtain pad where pad: "length pad = pad4 (length (username_value u)) - length (username_value u)"
    and enc: "StunMsg_encode hmac True pwd fp m buf = Ok (stun_wire hmac pwd fp (msg_header m)
      (attr_wire STUN_ATTR_USERNAME (username_value u) pad @ attrs_wire (msg_attrs m)), length buf)"
    using StunMsg_encode_wire [OF assms] by blast
  define C where "C = attr_wire STUN_ATTR_USERNAME (username_value u) pad @ attrs_wire (msg_attrs m)"
  let ?w = "stun_wire hmac pwd fp (msg_header m) C"
  have lA: "length (attrs_wire (msg_attrs m)) < 65536"
    using length_attrs_wire [OF assms(4)] assms(6) by (simp add: StunMsg_size_def)
  have lC: "length C + 44 + (if fp then 8 else 0) = length buf"
    using pad pad4_bounds(1) [of "length (username_value u)"] length_attrs_wire [OF assms(4)] assms(2,5)
    by (simp add: C_def StunMsg_size_def StunUsernameAttr_size_def)
  let ?tag = "hmac (bytes_of_str pwd) (header_wire (msg_header m) (length C + 24) @ C)"
  let ?W = "header_wire (msg_header m) (length C + 24 + (if fp then 8 else 0)) @ C @ attr_wire STUN_ATTR_MESSAGE_INTEGRITY ?tag []"
  let ?m = "(StunMsg_new junk)\<lparr>msg_header := decoded_header (msg_header (StunMsg_new junk)) (msg_header m),
      msg_attrs := msg_attrs m, username_attr := Some u, msg_integrity_attr := Some ?tag,
      fingerprint_attr := if fp then Some (StunFingerPrintAttr_crc ?W) else None\<rparr>"
  have dec: "StunMsg_decode ?w (StunMsg_new junk) = Some (Ok ?m)"
    using StunMsg_decode_wire [OF assms(1,3,4) hmac pad lA, of "StunMsg_new junk" pwd fp]
    by (simp add: StunMsg_new_def C_def)
  have mi: "checkMsgIntegrity hmac ?m ?w pwd = Ok True"
    using lC assms(5,6) by (intro checkMsgIntegrity_wire [OF assms(1) hmac]) simp_all
  have "checkFingerPrint ?m ?w = Ok True"
  proof (cases fp)
    case True
    then show ?thesis
      using checkFingerPrint_eval [of "attr_wire STUN_ATTR_FINGERPRINT (be 4 (unat (StunFingerPrintAttr_crc ?W))) []" ?W ?m]
        lC assms(1,5,6) hmac by (simp add: stun_wire_def Let_def)
  qed (simp add: checkFingerPrint_def)
  moreover have "take 2 ?w = be 2 (unat (stun_type (msg_header m)))"
    by (simp add: stun_wire_def header_wire_def Let_def)
  ultimately show ?thesis
    using enc dec mi length_stun_wire [OF assms(1) hmac, of pwd fp C] lC
    by (intro exI [of _ ?w] exI [of _ ?m]) (simp add: C_def decoded_header_def add.commute add.left_commute)
qed

section \<open>Properties\<close>

text \<open>Claim C4: An authenticated STUN message survives the network: a message with a user name is encoded
  into exactly the announced number of bytes, and the receiver that decodes them gets the same
  type, transaction id, user name and attributes, and its integrity check with the same password
  and its fingerprint check succeed, for any HMAC of 20 bytes.\<close>

theorem stun_message_authenticated:
  assumes "header_ok (msg_header m)" "username_attr m = Some u" "username_ok u" "\<forall>a \<in> set (msg_attrs m). plain_attr a"
    and "length buf = StunMsg_size True fp m" "StunMsg_size True fp m < 65536" "\<forall>k d. length (hmac k d) = 20"
  shows "\<exists>w m'. StunMsg_encode hmac True pwd fp m buf = Ok (w, length buf) \<and> length w = length buf
    \<and> take 2 w = be 2 (unat (stun_type (msg_header m)))
    \<and> StunMsg_decode w (StunMsg_new junk) = Some (Ok m')
    \<and> stun_type (msg_header m') = stun_type (msg_header m)
    \<and> transaction_id (msg_header m') = transaction_id (msg_header m)
    \<and> username_attr m' = Some u \<and> msg_attrs m' = msg_attrs m
    \<and> checkMsgIntegrity hmac m' w pwd = Ok True \<and> checkFingerPrint m' w = Ok True"
  using assms by (rule StunMsg_authenticated)

definition demo_stun_header :: stun_header where
  "demo_stun_header = \<lparr>stun_type = STUN_BINDING_RESPONSE, stun_length = 0, magic_cookie = STUN_MAGIC_COOKIE,
     transaction_id = replicate 12 5\<rparr>"

definition demo_stun_msg :: stun_msg where
  "demo_stun_msg = \<lparr>msg_header = demo_stun_header, msg_attrs = [StunMappedAddressAttr 1 5000 0x7f000001],
     username_attr = Some (''loc'', ''rem''), msg_integrity_attr = None, fingerprint_attr = None\<rparr>"

theorem stun_message_authenticated_witness:
  "\<exists>w m'. StunMsg_encode (\<lambda>k d. replicate 20 7) True ''pwd'' True demo_stun_msg (replicate 76 0) = Ok (w, 76)
    \<and> StunMsg_decode w (StunMsg_new demo_stun_header) = Some (Ok m')
    \<and> msg_attrs m' = [StunMappedAddressAttr 1 5000 0x7f000001]
    \<and> checkMsgIntegrity (\<lambda>k d. replicate 20 7) m' w ''pwd'' = Ok True \<and> checkFingerPrint m' w = Ok True"
proof -
  have "header_ok (msg_header demo_stun_msg)" "username_ok (''loc'', ''rem'')"
    "\<forall>a \<in> set (msg_attrs demo_stun_msg). plain_attr a" "StunMsg_size True True demo_stun_msg = 76"
    by code_simp+
  moreover have "username_attr demo_stun_msg = Some (''loc'', ''rem'')"
    "msg_attrs demo_stun_msg = [StunMappedAddressAttr 1 5000 0x7f000001]" by (simp_all add: demo_stun_msg_def)
  ultimately show ?thesis
    using stun_message_authenticated [of demo_stun_msg "(''loc'', ''rem'')" "replicate 76 0" True
        "\<lambda>k d. replicate 20 7" "''pwd''" demo_stun_header] by auto
qed





text \<open>Two truncated attributes make the decoder read past the datagram: a user name shorter than
  its length field says, and a tie breaker of which only four to seven bytes arrived.\<close>

theorem stun_decode_overread:
  assumes "header_ok h" "v \<noteq> []" "length v < k" "k < 65536" "4 \<le> length t" "length t < 8"
  shows "StunMsg_decode (header_wire h l @ be 2 (unat STUN_ATTR_USERNAME) @ be 2 k @ v) m = Some Fault
    \<and> StunMsg_decode (header_wire h l @ be 2 (unat STUN_ICE_ATTR_ICE_CONTROLLED) @ be 2 8 @ t) m = Some Fault"
proof -
  have faults: "StunMsg_decode (header_wire h l @ d) m = Some Fault"
    if "\<And>m. stun_turn d m = Fault" "d \<noteq> []" "length d < 2 ^ 62" for d
  proof -
    let ?d = "header_wire h l @ d"
    have "(of_nat (length ?d) :: u64) - of_nat 20 = of_nat (length d)"
      using of_nat_diff_64 [of 20 "length ?d"] assms(1) by simp
    moreover have "(of_nat (length d) :: u64) \<noteq> 0"
      using that(2,3) by (intro of_nat_64_not_0) simp_all
    ultimately show ?thesis
      using header_decode_wire [OF assms(1), of "msg_header m" l d] that(1) assms(1)
      by (simp add: StunMsg_decode_def stun_loop.simps)
  qed
  have "unat (of_nat k :: u16) = k" using assms(4) by (simp add: unat_of_nat)
  then have "stun_turn (be 2 (unat STUN_ATTR_USERNAME) @ be 2 k @ v) m' = Fault" for m'
    using assms(2-4) by (simp add: stun_turn_def Let_def skipped_types_def StunUsernameAttr_decode_def
        StunMsgAttr_decode_def rdn_def outcome_iffs)
  moreover have "stun_turn (be 2 (unat STUN_ICE_ATTR_ICE_CONTROLLED) @ be 2 8 @ t) m' = Fault" for m'
    using assms(5,6) by (simp add: stun_turn_def Let_def skipped_types_def tie_breaker_decode_def add_attr_def
        StunMsgAttr_decode_def rdn_def)
  ultimately show ?thesis
    using assms(3-6) by (intro conjI faults) (auto simp flip: length_greater_0_conv)
qed

theorem stun_decode_overread_witness:
  "StunMsg_decode (header_wire demo_stun_header 8 @ be 2 (unat STUN_ATTR_USERNAME) @ be 2 100 @ [97, 98]) demo_stun_msg
     = Some Fault"
  using stun_decode_overread [of demo_stun_header "[97, 98]" 100 "[1, 2, 3, 4]" 8 demo_stun_msg]
  by (simp add: demo_stun_header_def header_ok_def)

text \<open>Claim C37: The answer of the STUN server to a binding request is always written past the end of its
  buffer: without a user name the encoder skips the length of the header twice.\<close>

theorem stun_server_overflows:
  assumes "length (transaction_id (msg_header m)) = 12"
  shows "processBindMsg hmac junk heap ep m = Fault"
proof -
  let ?r = "addAttr (StunMappedAddressAttr 0x01 (snd ep) (fst ep)) (StunBindingResponseMsg junk m)"
  have sz: "StunMsg_size False False ?r = 32"
    by (simp add: StunMsg_size_def addAttr_def StunBindingResponseMsg_def StunMsg_new_def Let_def)
  let ?buf = "map heap [0..<32]"
  have hok: "header_ok ((msg_header ?r)\<lparr>stun_length := l\<rparr>)" for l
    using assms by (simp add: header_ok_def addAttr_def StunBindingResponseMsg_def StunMsg_new_def Let_def)
  have "StunMsg_encode hmac False [] False ?r ?buf = Fault"
    using header_encode_ok [OF hok, of ?buf 12] hok [of 12]
    by (simp add: StunMsg_encode_def Let_def addAttr_def StunBindingResponseMsg_def StunMsg_new_def
        stun_attr_encode_def attr_encode_def StunMsgAttr_encode_def wr_def)
  then show ?thesis by (simp add: processBindMsg_def Let_def sz)
qed

theorem stun_server_overflows_witness:
  "StunServer_onUdpSocketRecv (\<lambda>k d. []) demo_stun_header (\<lambda>_. 0) (0x7f000001, 5000)
     (header_wire (demo_stun_header\<lparr>stun_type := STUN_BINDING_REQUEST\<rparr>) 0) = Some Fault"
proof -
  let ?d = "header_wire (demo_stun_header\<lparr>stun_type := STUN_BINDING_REQUEST\<rparr>) 0"
  let ?m = "(StunMsg_new demo_stun_header)\<lparr>msg_header := demo_stun_header\<lparr>stun_type := STUN_BINDING_REQUEST\<rparr>\<rparr>"
  have "StunMsg_decode ?d (StunMsg_new demo_stun_header) = Some (Ok ?m)"
    using header_decode_wire [of "demo_stun_header\<lparr>stun_type := STUN_BINDING_REQUEST\<rparr>" "demo_stun_header" 0 "[]"]
    by (simp add: StunMsg_decode_def StunMsg_new_def demo_stun_header_def header_ok_def stun_loop.simps stun_trailer_def)
  then show ?thesis
    using stun_server_overflows [of ?m]
    by (simp add: StunServer_onUdpSocketRecv_def demo_stun_header_def)
qed

end
