(* ===== verification/Rtp.thy ===== *)
theory Rtp
  imports Mms_Prelude
begin

text \<open>
  The RTP packets of \<open>src/protocol/rtp\<close>: the header with its extension, the packet, the H.264 payload
  header, the classification of SRTP and SRTCP packets, and the depacketizer that collects the
  fragments of a NAL unit.  Fields that the source leaves uninitialised keep their value of the
  argument.  The \<open>std::map\<close> from sequence numbers to packets is a list sorted by its keys.
\<close>

section \<open>Classification\<close>

definition is_rtp_or_rtcp :: "bytes \<Rightarrow> bool" where
  "is_rtp_or_rtcp d \<longleftrightarrow> 12 \<le> length d \<and> (d ! 0 AND 0xC0) = 0x80"

definition isRtcpPacket :: "bytes \<Rightarrow> bool outcome" where
  "isRtcpPacket d =
     (if length d < 2 then Ok False
      else obind (rd8 d 1) (\<lambda>b. Ok (is_rtp_or_rtcp d \<and> 192 \<le> b \<and> b \<le> 223)))"

definition isRtp :: "bytes \<Rightarrow> bool outcome" where
  "isRtp d = obind (rd8 d 1) (\<lambda>b. Ok (is_rtp_or_rtcp d \<and> \<not> (192 \<le> b \<and> b \<le> 223)))"

definition parsePt :: "bytes \<Rightarrow> byte outcome" where
  "parsePt d = obind (rd8 d 1) (\<lambda>b. Ok (b AND 0x7F))"

section \<open>Header\<close>

record rtp_header_extention =
  ext_profile :: u16
  ext_length :: u16
  header_extension :: bytes

text \<open>The extension body is copied, but only the four bytes in front of it count as consumed.\<close>

definition RtpHeaderExtention_decode :: "bytes \<Rightarrow> (rtp_header_extention \<times> nat) outcome" where
  "RtpHeaderExtention_decode d =
     (if length d < 2 then Err (-1)
      else obind (rdn d 0 2) (\<lambda>p.
        if length d - 2 < 2 then Err (-2)
        else obind (rdn d 2 2) (\<lambda>l.
          let l = (of_nat (unbe l) :: u16) in
          if length d - 4 < unat l * 4 then Err (-3)
          else obind (rdn d 4 (unat l * 4)) (\<lambda>body.
            Ok (\<lparr>ext_profile = of_nat (unbe p), ext_length = l, header_extension = body\<rparr>, 4)))))"

definition RtpHeaderExtention_size :: "rtp_header_extention \<Rightarrow> nat" where
  "RtpHeaderExtention_size e = 4 + unat (ext_length e) * 4"

record rtp_header =
  rtp_csrc :: byte
  rtp_extension :: byte
  rtp_padding :: byte
  rtp_version :: byte
  rtp_pt :: byte
  rtp_marker :: byte
  rtp_seqnum :: u16
  rtp_timestamp :: u32
  rtp_ssrc :: u32
  rtp_csrcs :: "u32 list"
  rtp_header_extension :: "rtp_header_extention option"

fun csrc_loop :: "nat \<Rightarrow> bytes \<Rightarrow> u32 list \<Rightarrow> (u32 list \<times> bytes) outcome" where
  "csrc_loop 0 d cs = Ok (cs, d)"
| "csrc_loop (Suc n) d cs =
     (if length d < 4 then Err (-5)
      else obind (rdn d 0 4) (\<lambda>c. csrc_loop n (drop 4 d) (cs @ [of_nat (unbe c)])))"

definition fixed_fields :: "rtp_header \<Rightarrow> byte \<Rightarrow> byte \<Rightarrow> bytes \<Rightarrow> bytes \<Rightarrow> bytes \<Rightarrow> rtp_header" where
  "fixed_fields h v1 v2 seq ts src =
     h\<lparr>rtp_csrc := v1 AND 0x0F, rtp_extension := drop_bit 4 v1 AND 0x01,
       rtp_padding := drop_bit 5 v1 AND 0x01, rtp_version := drop_bit 6 v1 AND 0x03,
       rtp_marker := drop_bit 7 v2 AND 0x01, rtp_pt := v2 AND 0x7F,
       rtp_seqnum := of_nat (unbe seq), rtp_timestamp := of_nat (unbe ts), rtp_ssrc := of_nat (unbe src)\<rparr>"

definition RtpHeader_decode :: "rtp_header \<Rightarrow> bytes \<Rightarrow> (rtp_header \<times> nat) outcome" where
  "RtpHeader_decode h d =
     (if length d < 1 then Err (-1)
      else obind (rd8 d 0) (\<lambda>v1.
        if length d - 1 < 1 then Err (-2)
        else obind (rd8 d 1) (\<lambda>v2.
          if length d - 2 < 2 then Err (-3)
          else obind (rdn d 2 2) (\<lambda>seq.
            if length d - 4 < 4 then Err (-4)
            else obind (rdn d 4 4) (\<lambda>ts.
              if length d - 8 < 4 then Err (-4)
              else obind (rdn d 8 4) (\<lambda>src.
                let h = fixed_fields h v1 v2 seq ts src in
                obind (csrc_loop (unat (rtp_csrc h)) (drop 12 d) (rtp_csrcs h)) (\<lambda>(cs, rest).
                  let h = h\<lparr>rtp_csrcs := cs\<rparr>; pos = length d - length rest in
                  if rtp_extension h \<noteq> 0 then
                    obind (or_code (-5) (RtpHeaderExtention_decode rest)) (\<lambda>(e, c).
                      Ok (h\<lparr>rtp_header_extension := Some e\<rparr>, pos + c))
                  else Ok (h, pos))))))))"

section \<open>Packets\<close>

record rtp_packet =
  pkt_header :: rtp_header
  pkt_payload :: bytes

definition RtpPacket_decode :: "rtp_packet \<Rightarrow> bytes \<Rightarrow> (rtp_packet \<times> nat) outcome" where
  "RtpPacket_decode p d =
     obind (or_code (-1) (RtpHeader_decode (pkt_header p) d)) (\<lambda>(h, c).
       Ok (p\<lparr>pkt_header := h, pkt_payload := drop c d\<rparr>, length d))"

definition getSeqNum :: "'a rtp_packet_scheme \<Rightarrow> u16" where
  "getSeqNum p = rtp_seqnum (pkt_header p)"

definition getTimestamp :: "'a rtp_packet_scheme \<Rightarrow> u32" where
  "getTimestamp p = rtp_timestamp (pkt_header p)"

record h264_rtp_packet = rtp_packet +
  nalu_type :: byte
  h264_type :: byte
  start_bit :: byte
  end_bit :: byte

abbreviation (input) H264_RTP_PAYLOAD_FU_A :: byte where "H264_RTP_PAYLOAD_FU_A \<equiv> 28"

definition isSingleNALU :: "h264_rtp_packet \<Rightarrow> bool" where
  "isSingleNALU p \<longleftrightarrow> 1 \<le> h264_type p \<and> h264_type p \<le> 23"

definition isStartFU :: "h264_rtp_packet \<Rightarrow> bool" where
  "isStartFU p \<longleftrightarrow> start_bit p \<noteq> 0"

definition isEndFU :: "h264_rtp_packet \<Rightarrow> bool" where
  "isEndFU p \<longleftrightarrow> end_bit p \<noteq> 0"

text \<open>A failure of the packet decoder is noticed only by the payload staying empty.\<close>

definition H264RtpPacket_decode :: "h264_rtp_packet \<Rightarrow> bytes \<Rightarrow> (h264_rtp_packet \<times> nat) outcome" where
  "H264RtpPacket_decode p d =
     (case RtpPacket_decode \<lparr>pkt_header = pkt_header p, pkt_payload = []\<rparr> d of
        Fault \<Rightarrow> Fault
      | Err _ \<Rightarrow> Err (-1)
      | Ok (q, consumed) \<Rightarrow>
          if length (pkt_payload q) < 1 then Err (-1)
          else obind (rd8 (pkt_payload q) 0) (\<lambda>b.
            let ty = b AND 0x1F;
                p = p\<lparr>pkt_header := pkt_header q, pkt_payload := pkt_payload q, h264_type := ty\<rparr> in
            if ty = H264_RTP_PAYLOAD_FU_A then
              obind (rd8 (pkt_payload q) 1) (\<lambda>fu.
                Ok (p\<lparr>start_bit := drop_bit 7 fu AND 0x01, end_bit := drop_bit 6 fu AND 0x01,
                      nalu_type := fu AND 0x1F\<rparr>, consumed))
            else if 1 \<le> ty \<and> ty \<le> 23 then Ok (p\<lparr>nalu_type := ty\<rparr>, consumed)
            else Ok (p, consumed)))"

section \<open>Depacketizer\<close>

type_synonym seq_map = "(u16 \<times> h264_rtp_packet) list"

text \<open>The loop over the packets behind the first: \<open>prev_seq\<close> is never updated.\<close>

fun fragments_complete :: "u16 \<Rightarrow> bool \<Rightarrow> seq_map \<Rightarrow> bool option" where
  "fragments_complete prev_seq find_end_fu [] = Some find_end_fu"
| "fragments_complete prev_seq find_end_fu ((_, p) # m) =
     (if unat (getSeqNum p) \<noteq> unat prev_seq + 1 then None
      else fragments_complete prev_seq (find_end_fu \<or> isEndFU p) m)"

definition onPacket ::
  "h264_rtp_packet \<Rightarrow> (u32 \<Rightarrow> seq_map) \<Rightarrow> seq_map option \<times> (u32 \<Rightarrow> seq_map)" where
  "onPacket p buf =
     (if isSingleNALU p then (Some [(getSeqNum p, p)], buf)
      else
        let pkts_map = map_insert (getSeqNum p) p (buf (getTimestamp p));
            buf = buf(getTimestamp p := pkts_map) in
        case pkts_map of
          [] \<Rightarrow> (None, buf)
        | (_, first) # rest \<Rightarrow>
            if \<not> isStartFU first then (None, buf)
            else case fragments_complete (getSeqNum first) False rest of
                Some True \<Rightarrow> (Some pkts_map, buf)
              | _ \<Rightarrow> (None, buf))"

section \<open>Lemmas\<close>

lemma be_4_unbe: "length c = 4 \<Longrightarrow> be 4 (unat (of_nat (unbe c) :: u32)) = c"
proof -
  assume c: "length c = 4"
  then have "unbe c < 2 ^ 32" using unbe_less [of c] by simp
  then have "unat (of_nat (unbe c) :: u32) = unbe c" by (simp add: unat_of_nat)
  then show ?thesis using be_unbe [of c] c by simp
qed

lemma be_2_unbe: "length c = 2 \<Longrightarrow> be 2 (unat (of_nat (unbe c) :: u16)) = c"
proof -
  assume c: "length c = 2"
  then have "unbe c < 2 ^ 16" using unbe_less [of c] by simp
  then have "unat (of_nat (unbe c) :: u16) = unbe c" by (simp add: unat_of_nat)
  then show ?thesis using be_unbe [of c] c by simp
qed

definition csrcs_wire :: "u32 list \<Rightarrow> bytes" where
  "csrcs_wire cs = concat (map (\<lambda>c. be 4 (unat c)) cs)"

lemma length_csrcs_wire [simp]: "length (csrcs_wire cs) = 4 * length cs"
  by (induction cs) (simp_all add: csrcs_wire_def)

lemma csrc_loop_Ok:
  "csrc_loop n d cs = Ok (cs', rest) \<Longrightarrow> \<exists>es. cs' = cs @ es \<and> length es = n \<and> d = csrcs_wire es @ rest"
proof (induction n d cs rule: csrc_loop.induct)
  case (1 d cs)
  then show ?case by (simp add: csrcs_wire_def)
next
  case (2 n d cs)
  then have d: "4 \<le> length d" by (auto split: if_splits)
  with 2 obtain es where "cs' = (cs @ [of_nat (unbe (take 4 d))]) @ es" "length es = n" "drop 4 d = csrcs_wire es @ rest"
    by fastforce
  moreover have "d = be 4 (unat (of_nat (unbe (take 4 d)) :: u32)) @ drop 4 d" using d by (simp add: be_4_unbe)
  ultimately show ?case
    by (intro exI [of _ "of_nat (unbe (take 4 d)) # es"]) (simp add: csrcs_wire_def)
qed

lemma csrc_loop_total: "csrc_loop n d cs \<noteq> Fault" "4 * n \<le> length d \<Longrightarrow> \<exists>r. csrc_loop n d cs = Ok r"
  by (induction n d cs rule: csrc_loop.induct) auto

lemma RtpHeader_decode_not_Fault: "RtpHeader_decode h d \<noteq> Fault"
  by (auto simp: RtpHeader_decode_def RtpHeaderExtention_decode_def Let_def outcome_iffs csrc_loop_total
      split: if_splits)

text \<open>The wire format of a header (RFC 3550), without the body of the extension.\<close>

definition rtp_wire :: "rtp_header \<Rightarrow> bytes" where
  "rtp_wire h =
     [push_bit 6 (rtp_version h) OR push_bit 5 (rtp_padding h) OR push_bit 4 (rtp_extension h) OR rtp_csrc h,
      push_bit 7 (rtp_marker h) OR rtp_pt h] @ be 2 (unat (rtp_seqnum h)) @ be 4 (unat (rtp_timestamp h))
     @ be 4 (unat (rtp_ssrc h)) @ csrcs_wire (rtp_csrcs h)
     @ (case rtp_header_extension h of
          Some e \<Rightarrow> be 2 (unat (ext_profile e)) @ be 2 (unat (ext_length e)) | None \<Rightarrow> [])"

lemma byte_eqI: "x = b" if "bit x 0 = bit b 0" "bit x 1 = bit b 1" "bit x 2 = bit b 2" "bit x 3 = bit b 3"
  "bit x 4 = bit b 4" "bit x 5 = bit b 5" "bit x 6 = bit b 6" "bit x 7 = bit b 7" for x b :: byte
proof (rule bit_word_eqI)
  fix n assume "n < LENGTH(8)"
  then have "n \<in> {0, 1, 2, 3, 4, 5, 6, 7}" by auto
  with that show "bit x n = bit b n" by auto
qed

lemma first_bytes:
  "push_bit 6 (drop_bit 6 b AND 0x03) OR push_bit 5 (drop_bit 5 b AND 0x01) OR push_bit 4 (drop_bit 4 b AND 0x01)
     OR (b AND 0x0F) = b"
  "push_bit 7 (drop_bit 7 b AND 0x01) OR (b AND 0x7F) = (b :: byte)"
  by (rule byte_eqI; simp add: bit_or_iff bit_push_bit_iff bit_and_iff bit_drop_bit_eq)+

lemma ext_decode_Ok:
  assumes "RtpHeaderExtention_decode d = Ok (e, c)"
  shows "c = 4" "d = be 2 (unat (ext_profile e)) @ be 2 (unat (ext_length e)) @ header_extension e @
      drop (4 + 4 * unat (ext_length e)) d" "length (header_extension e) = 4 * unat (ext_length e)"
proof -
  have l: "4 + 4 * unat (ext_length e) \<le> length d" and c: "c = 4" and
    e: "ext_profile e = of_nat (unbe (take 2 d))" "ext_length e = of_nat (unbe (take 2 (drop 2 d)))"
    "header_extension e = take (4 * unat (ext_length e)) (drop 4 d)"
    using assms by (auto simp: RtpHeaderExtention_decode_def Let_def outcome_iffs rdn_def mult.commute split: if_splits)
  show "c = 4" by (rule c)
  show "length (header_extension e) = 4 * unat (ext_length e)" using l e(3) by simp
  have "be 2 (unat (ext_profile e)) @ be 2 (unat (ext_length e)) = take 4 d"
    using l e(1,2) take_add [of 2 2 d] by (simp add: be_2_unbe)
  then have "be 2 (unat (ext_profile e)) @ be 2 (unat (ext_length e)) @ header_extension e = take (4 + 4 * unat (ext_length e)) d"
    using e(3) by (simp add: take_add flip: append_assoc)
  then show "d = be 2 (unat (ext_profile e)) @ be 2 (unat (ext_length e)) @ header_extension e @
      drop (4 + 4 * unat (ext_length e)) d"
    using append_take_drop_id [of "4 + 4 * unat (ext_length e)" d] by (metis append_assoc)
qed

text \<open>A decoded header, written out again, is the front of the packet.\<close>

lemma fixed_fields_wire:
  assumes "12 \<le> length d" "rtp_header_extension h0 = None"
  shows "rtp_wire ((fixed_fields h0 (d ! 0) (d ! 1) (take 2 (drop 2 d)) (take 4 (drop 4 d)) (take 4 (drop 8 d)))
      \<lparr>rtp_csrcs := cs\<rparr>) = take 12 d @ csrcs_wire cs"
proof -
  have "take 2 d = [d ! 0, d ! 1]" using assms(1) by (cases d; cases "tl d") auto
  then have "take 12 d = [d ! 0, d ! 1] @ take 2 (drop 2 d) @ take 4 (drop 4 d) @ take 4 (drop 8 d)"
    using take_add [of 2 2 d] take_add [of 4 4 d] take_add [of 8 4 d] by simp
  then show ?thesis using assms first_bytes
    by (simp add: rtp_wire_def fixed_fields_def be_2_unbe be_4_unbe)
qed

lemma rtp_wire_ext:
  "rtp_header_extension h = None \<Longrightarrow> rtp_wire (h\<lparr>rtp_header_extension := Some e\<rparr>)
     = rtp_wire h @ be 2 (unat (ext_profile e)) @ be 2 (unat (ext_length e))"
  by (simp add: rtp_wire_def)

lemma RtpHeader_decode_eq:
  fixes h0 :: rtp_header
  assumes "12 \<le> length d"
  defines "g \<equiv> fixed_fields h0 (d ! 0) (d ! 1) (take 2 (drop 2 d)) (take 4 (drop 4 d)) (take 4 (drop 8 d))"
  shows "RtpHeader_decode h0 d = obind (csrc_loop (unat (rtp_csrc g)) (drop 12 d) (rtp_csrcs g)) (\<lambda>(cs, rest).
      if rtp_extension g \<noteq> 0 then obind (or_code (-5) (RtpHeaderExtention_decode rest)) (\<lambda>(e, c).
           Ok (g\<lparr>rtp_csrcs := cs, rtp_header_extension := Some e\<rparr>, length d - length rest + c))
      else Ok (g\<lparr>rtp_csrcs := cs\<rparr>, length d - length rest))"
proof -
  have "\<not> length d < 1" "\<not> length d - 1 < 1" "\<not> length d - 2 < 2" "\<not> length d - 4 < 4" "\<not> length d - 8 < 4"
    using assms(1) by linarith+
  moreover have "rd8 d 0 = Ok (d ! 0)" "rd8 d 1 = Ok (d ! 1)" "rdn d 2 2 = Ok (take 2 (drop 2 d))"
    "rdn d 4 4 = Ok (take 4 (drop 4 d))" "rdn d 8 4 = Ok (take 4 (drop 8 d))"
    using assms(1) by (auto simp: rd8_def)
  ultimately show ?thesis
    unfolding RtpHeader_decode_def g_def by (simp only: if_False obind.simps Let_def) (simp add: fixed_fields_def cong: if_cong)
qed

lemma RtpHeader_decode_Ok:
  assumes "RtpHeader_decode h0 d = Ok (h, n)" "rtp_csrcs h0 = []" "rtp_header_extension h0 = None"
  shows "n = length (rtp_wire h) \<and> d = rtp_wire h @ drop n d
    \<and> (\<forall>e. rtp_header_extension h = Some e \<longrightarrow> header_extension e = take (4 * unat (ext_length e)) (drop n d)
          \<and> 4 * unat (ext_length e) \<le> length (drop n d))"
proof -
  define g where "g = fixed_fields h0 (d ! 0) (d ! 1) (take 2 (drop 2 d)) (take 4 (drop 4 d)) (take 4 (drop 8 d))"
  have l: "12 \<le> length d" using assms(1) by (auto simp: RtpHeader_decode_def outcome_iffs split: if_splits)
  have g: "rtp_csrcs g = []" "rtp_header_extension g = None" using assms(2,3) by (simp_all add: g_def fixed_fields_def)
  note dec = assms(1) [unfolded RtpHeader_decode_eq [OF l] g_def [symmetric] g(1)]
  obtain cs rest where cs: "csrc_loop (unat (rtp_csrc g)) (drop 12 d) [] = Ok (cs, rest)"
    using dec by (auto simp: obind_Ok_iff)
  then have rest: "drop 12 d = csrcs_wire cs @ rest" using csrc_loop_Ok by fastforce
  let ?w = "rtp_wire (g\<lparr>rtp_csrcs := cs\<rparr>)"
  have d: "d = ?w @ rest"
    using fixed_fields_wire [OF l assms(3), of cs] rest append_take_drop_id [of 12 d] by (simp add: g_def)
  have lw: "length d - length rest = length ?w" using arg_cong [OF d, of length] by simp
  show ?thesis
  proof (cases "rtp_extension g \<noteq> 0")
    case True
    then obtain e c where e: "RtpHeaderExtention_decode rest = Ok (e, c)"
      "h = g\<lparr>rtp_csrcs := cs, rtp_header_extension := Some e\<rparr>" "n = length ?w + c"
      using dec cs lw by (auto simp: obind_Ok_iff)
    have w: "rtp_wire h = ?w @ be 2 (unat (ext_profile e)) @ be 2 (unat (ext_length e))"
      using rtp_wire_ext [of "g\<lparr>rtp_csrcs := cs\<rparr>" e] g(2) e(2) by simp
    note x = ext_decode_Ok [OF e(1)]
    have d': "d = rtp_wire h @ header_extension e @ drop (4 + 4 * unat (ext_length e)) rest"
      unfolding w using d x(2) by (metis append_assoc)
    have n: "n = length (rtp_wire h)" unfolding w using e(3) x(1) by simp
    have "drop n d = header_extension e @ drop (4 + 4 * unat (ext_length e)) rest"
      unfolding n by (subst d') simp
    moreover have "rtp_header_extension h = Some e" using e(2) by simp
    ultimately show ?thesis using n d' x(3) by simp
  next
    case False
    then have "h = g\<lparr>rtp_csrcs := cs\<rparr>" "n = length ?w" using dec cs lw by (auto simp: obind_Ok_iff)
    moreover from this have "drop n d = rest" by (subst d) simp
    ultimately show ?thesis using d g(2) by simp
  qed
qed


subsection \<open>The fragment map\<close>

definition seq_map_wf :: "seq_map \<Rightarrow> bool" where
  "seq_map_wf m \<longleftrightarrow> sorted_wrt (<) (map fst m) \<and> (\<forall>(k, p) \<in> set m. getSeqNum p = k)"

lemma map_insert_wf: "seq_map_wf m \<Longrightarrow> seq_map_wf (map_insert (getSeqNum p) p m)"
proof (induction "getSeqNum p" p m rule: map_insert.induct)
  case (2 p k' p' m)
  have tl: "seq_map_wf m" "\<forall>k \<in> set (map fst m). k' < k" "getSeqNum p' = k'"
    using 2(2) by (auto simp: seq_map_wf_def)
  have "seq_map_wf ((k', p') # map_insert (getSeqNum p) p m)" if "k' < getSeqNum p"
    using 2(1) [OF _ _ tl(1)] that tl map_insert_keys [of "getSeqNum p" p m]
    by (auto simp: seq_map_wf_def simp del: set_map)
  then show ?case using 2(2) tl by (auto simp: seq_map_wf_def)
qed (simp add: seq_map_wf_def)

text \<open>Behind the first packet at most one can follow.\<close>

lemma unat_succ_iff: "unat k = unat s + 1 \<longleftrightarrow> k = s + 1 \<and> unat s + 1 < 65536" for k s :: u16
proof -
  have s: "of_nat (unat s + 1) = s + 1" by simp
  have "unat k < 65536" using unsigned_less [of k] by simp
  moreover have "k = s + 1" if "unat k = unat s + 1" using arg_cong [OF that, of "of_nat :: nat \<Rightarrow> u16"] by simp
  moreover have "unat (s + 1) = unat s + 1" if "unat s + 1 < 65536"
    using that unat_of_nat [of "unat s + 1", where ?'a = 16] unfolding s by simp
  ultimately show ?thesis by fastforce
qed

lemma fragments_complete_iff:
  assumes "seq_map_wf ((s, p) # m)"
  shows "fragments_complete s False m = Some True \<longleftrightarrow>
    (\<exists>q. m = [(s + 1, q)] \<and> unat s + 1 < 65536 \<and> isEndFU q)"
proof (cases m)
  case (Cons a m')
  obtain k q where a: "a = (k, q)" by (cases a)
  have k: "getSeqNum q = k" using assms Cons a by (auto simp: seq_map_wf_def)
  have "m' = [] \<or> unat k \<noteq> unat s + 1 \<or> fragments_complete s (isEndFU q) m' = None"
  proof (cases m')
    case (Cons b m'')
    then obtain j r where "b = (j, r)" "getSeqNum r = j" "k < j"
      using assms \<open>m = a # m'\<close> a by (cases b) (auto simp: seq_map_wf_def)
    then show ?thesis using Cons by (simp add: word_less_nat_alt)
  qed simp
  then show ?thesis using Cons a k unat_succ_iff [of k s] by auto
qed simp

text \<open>A packet that is not a single NAL unit never empties a map, and the map of its time stamp is the
  one the decision is taken on.\<close>

lemma onPacket_fragment:
  assumes "\<not> isSingleNALU p" "seq_map_wf (buf (getTimestamp p))"
  defines "m \<equiv> map_insert (getSeqNum p) p (buf (getTimestamp p))"
  shows "onPacket p buf = (if \<exists>s f q. m = [(s, f), (s + 1, q)] \<and> unat s + 1 < 65536 \<and> isStartFU f \<and> isEndFU q
      then Some m else None, buf(getTimestamp p := m))"
proof -
  have wf: "seq_map_wf m" unfolding m_def using assms(2) by (rule map_insert_wf)
  have "m \<noteq> []" using map_insert_keys [of "getSeqNum p" p "buf (getTimestamp p)"] by (auto simp: m_def)
  then obtain s f r where m: "m = (s, f) # r" by (cases m) auto
  have s: "getSeqNum f = s" using wf m by (auto simp: seq_map_wf_def)
  have "onPacket p buf = (if isStartFU f \<and> fragments_complete s False r = Some True then Some m else None,
      buf(getTimestamp p := m))"
    using assms(1) m s by (auto simp: onPacket_def m_def Let_def split: option.splits bool.splits)
  then show ?thesis using fragments_complete_iff [of s f r] wf m by auto
qed

section \<open>Properties\<close>

text \<open>Decoding an RTP packet never reads outside the datagram, and what it decodes is exact: the
  header written out again in the format of RFC 3550 is the front of the datagram.\<close>

theorem rtp_header_exact:
  assumes "rtp_csrcs h0 = []" "rtp_header_extension h0 = None"
  shows "RtpHeader_decode h0 d \<noteq> Fault
    \<and> (RtpHeader_decode h0 d = Ok (h, n) \<longrightarrow> n = length (rtp_wire h) \<and> d = rtp_wire h @ drop n d)"
  using RtpHeader_decode_not_Fault RtpHeader_decode_Ok [OF _ assms] by blast

definition demo_rtp_header :: rtp_header where
  "demo_rtp_header = \<lparr>rtp_csrc = 0, rtp_extension = 0, rtp_padding = 0, rtp_version = 2, rtp_pt = 0, rtp_marker = 0,
     rtp_seqnum = 0, rtp_timestamp = 0, rtp_ssrc = 0, rtp_csrcs = [], rtp_header_extension = None\<rparr>"

theorem rtp_header_exact_witness:
  "\<exists>h. RtpHeader_decode demo_rtp_header [0x80, 0x66, 0, 7, 0, 0, 0, 1, 0, 0, 0, 2, 0x1c] = Ok (h, 12)
     \<and> rtp_seqnum h = 7 \<and> rtp_pt h = 0x66 \<and> rtp_wire h = [0x80, 0x66, 0, 7, 0, 0, 0, 1, 0, 0, 0, 2]"
proof -
  let ?d = "[0x80, 0x66, 0, 7, 0, 0, 0, 1, 0, 0, 0, 2, 0x1c] :: bytes"
  let ?h = "demo_rtp_header\<lparr>rtp_seqnum := 7, rtp_pt := 0x66, rtp_timestamp := 1, rtp_ssrc := 2\<rparr>"
  have d: "RtpHeader_decode demo_rtp_header ?d = Ok (?h, 12)" by code_simp
  have "rtp_csrcs demo_rtp_header = []" "rtp_header_extension demo_rtp_header = None" by (simp_all add: demo_rtp_header_def)
  from rtp_header_exact [OF this, of ?d ?h 12] d
  have "?d = rtp_wire ?h @ drop 12 ?d" "12 = length (rtp_wire ?h)" by auto
  then have "rtp_wire ?h = take 12 ?d" by (metis append_eq_conv_conj)
  with d show ?thesis by (intro exI [of _ ?h]) simp
qed

text \<open>The extension of an RTP header is not skipped: the payload of a packet with an extension
  starts with the body of the extension.\<close>

theorem rtp_extension_left_in_payload:
  assumes "RtpPacket_decode p0 d = Ok (p, n)" "rtp_csrcs (pkt_header p0) = []" "rtp_header_extension (pkt_header p0) = None"
    and "rtp_header_extension (pkt_header p) = Some e"
  shows "n = length d \<and> take (4 * unat (ext_length e)) (pkt_payload p) = header_extension e
    \<and> d = rtp_wire (pkt_header p) @ pkt_payload p"
proof -
  obtain h c where "RtpHeader_decode (pkt_header p0) d = Ok (h, c)" "p = p0\<lparr>pkt_header := h, pkt_payload := drop c d\<rparr>"
    "n = length d"
    using assms(1) by (auto simp: RtpPacket_decode_def obind_Ok_iff)
  then show ?thesis using RtpHeader_decode_Ok [of "pkt_header p0" d h c] assms(2-4) by auto
qed

theorem rtp_extension_left_in_payload_witness:
  "\<exists>p. RtpPacket_decode \<lparr>pkt_header = demo_rtp_header, pkt_payload = []\<rparr>
       [0x90, 0x66, 0, 7, 0, 0, 0, 1, 0, 0, 0, 2, 0xbe, 0xde, 0, 1, 9, 9, 9, 9, 0x41, 5] = Ok (p, 22)
     \<and> take 4 (pkt_payload p) = [9, 9, 9, 9] \<and> pkt_payload p = [9, 9, 9, 9, 0x41, 5]"
proof -
  let ?d = "[0x90, 0x66, 0, 7, 0, 0, 0, 1, 0, 0, 0, 2, 0xbe, 0xde, 0, 1, 9, 9, 9, 9, 0x41, 5] :: bytes"
  let ?e = "\<lparr>ext_profile = 0xbede, ext_length = 1, header_extension = [9, 9, 9, 9]\<rparr>"
  let ?p = "\<lparr>pkt_header = demo_rtp_header\<lparr>rtp_seqnum := 7, rtp_pt := 0x66, rtp_timestamp := 1, rtp_ssrc := 2,
       rtp_extension := 1, rtp_header_extension := Some ?e\<rparr>, pkt_payload = [9, 9, 9, 9, 0x41, 5]\<rparr>"
  have d: "RtpPacket_decode \<lparr>pkt_header = demo_rtp_header, pkt_payload = []\<rparr> ?d = Ok (?p, 22)" by code_simp
  from rtp_extension_left_in_payload [OF this, of ?e]
  have "take 4 (pkt_payload ?p) = [9, 9, 9, 9]" by (simp add: demo_rtp_header_def)
  with d show ?thesis by (intro exI [of _ ?p]) simp
qed

text \<open>Claim C31: The depacketizer delivers a fragmented NAL unit exactly when its time stamp has collected
  two packets, a start and an end with consecutive sequence numbers: a unit of three or more
  fragments, or one that crosses the sequence number 65535, is never delivered; nothing that was
  collected is ever released.\<close>

theorem depacketizer_delivers_only_pairs:
  assumes "\<forall>t. seq_map_wf (buf t)" "\<not> isSingleNALU p"
  defines "m \<equiv> map_insert (getSeqNum p) p (buf (getTimestamp p))"
  shows "(\<forall>t. seq_map_wf (snd (onPacket p buf) t))
    \<and> (fst (onPacket p buf) = Some out \<longleftrightarrow> out = m \<and>
         (\<exists>s f q. m = [(s, f), (s + 1, q)] \<and> unat s + 1 < 65536 \<and> isStartFU f \<and> isEndFU q))
    \<and> (\<forall>t. set (map fst (buf t)) \<subseteq> set (map fst (snd (onPacket p buf) t)))"
proof -
  have "seq_map_wf m" unfolding m_def using assms(1) by (intro map_insert_wf) blast
  moreover have "set (map fst (buf (getTimestamp p))) \<subseteq> set (map fst m)"
    unfolding m_def map_insert_keys by blast
  ultimately show ?thesis
    using onPacket_fragment [OF assms(2)] assms(1) by (auto simp: m_def)
qed

definition demo_fragment :: "u16 \<Rightarrow> byte \<Rightarrow> byte \<Rightarrow> h264_rtp_packet" where
  "demo_fragment s start_b end_b = \<lparr>pkt_header = demo_rtp_header\<lparr>rtp_seqnum := s\<rparr>, pkt_payload = [28, 0], nalu_type = 5,
     h264_type = 28, start_bit = start_b, end_bit = end_b\<rparr>"

theorem depacketizer_delivers_only_pairs_witness:
  "fst (onPacket (demo_fragment 3 0 1) (\<lambda>_. [(1, demo_fragment 1 1 0), (2, demo_fragment 2 0 0)])) = None"
proof -
  let ?b = "\<lambda>_ :: u32. [(1, demo_fragment 1 1 0), (2, demo_fragment 2 0 0)]" and ?p = "demo_fragment 3 0 1"
  have "\<forall>t. seq_map_wf (?b t)" by (simp add: seq_map_wf_def demo_fragment_def getSeqNum_def)
  moreover have "\<not> isSingleNALU ?p" by (simp add: isSingleNALU_def demo_fragment_def)
  moreover have "length (map_insert (getSeqNum ?p) ?p (?b (getTimestamp ?p))) = 3"
    by (simp add: demo_fragment_def getSeqNum_def)
  ultimately have "fst (onPacket ?p ?b) \<noteq> Some out" for out
    using depacketizer_delivers_only_pairs [of ?b ?p out] by force
  then show ?thesis by (cases "fst (onPacket ?p ?b)") auto
qed

text \<open>Two unguarded reads in the classification of media packets: a one-byte datagram, and a
  fragment header of which only the first byte arrived.\<close>

theorem rtp_unguarded_reads:
  assumes "length d \<le> 1" "RtpHeader_decode (pkt_header p) e = Ok (h, c)" "drop c e = [b]" "b AND 0x1F = 28"
  shows "isRtcpPacket d = Ok False \<and> isRtp d = Fault \<and> H264RtpPacket_decode p e = Fault"
  using assms by (simp add: isRtcpPacket_def isRtp_def H264RtpPacket_decode_def RtpPacket_decode_def Let_def rd8_def)

theorem rtp_unguarded_reads_witness:
  "isRtp [0x80] = Fault
    \<and> H264RtpPacket_decode (demo_fragment 0 0 0) [0x80, 0x66, 0, 7, 0, 0, 0, 1, 0, 0, 0, 2, 0x7c] = Fault"
proof -
  let ?e = "[0x80, 0x66, 0, 7, 0, 0, 0, 1, 0, 0, 0, 2, 0x7c] :: bytes"
  have "RtpHeader_decode (pkt_header (demo_fragment 0 0 0)) ?e
      = Ok (demo_rtp_header\<lparr>rtp_seqnum := 7, rtp_pt := 0x66, rtp_timestamp := 1, rtp_ssrc := 2\<rparr>, 12)" by code_simp
  from rtp_unguarded_reads [where d = "[0x80]" and b = "0x7c", OF _ this] show ?thesis by simp
qed

end
