(* ===== verification/Dtls_Define.thy ===== *)
theory Dtls_Define
  imports Mms_Prelude
begin

text \<open>
  The DTLS messages of \<open>src/server/dtls\<close>: protocol version, random, record header, the handshake
  messages with their extensions, and the plain record that carries them.

  A decoder is given the readable bytes behind its pointer; the \<open>size_t len\<close> of the source is their
  number, because no decoder here moves its pointer past the buffer without reading there or
  returning (the one exception, an unknown extension, is followed by a read in every case).  An
  encoder is a function on a buffer and a position and is put together from guards and writes; a
  write outside the buffer is a \<open>Fault\<close>.
\<close>

section \<open>Writing into a buffer\<close>

type_synonym writer = "bytes \<times> nat \<Rightarrow> (bytes \<times> nat) outcome"

text \<open>A guard \<^verbatim>\<open>if (len < n) return e;\<close> and an unguarded write.\<close>

definition room :: "nat \<Rightarrow> int \<Rightarrow> writer" where
  "room n e = (\<lambda>(buf, pos). if length buf - pos < n then Err e else Ok (buf, pos))"

definition put :: "bytes \<Rightarrow> writer" where
  "put bs = (\<lambda>(buf, pos).
     if pos + length bs \<le> length buf
     then Ok (take pos buf @ bs @ drop (pos + length bs) buf, pos + length bs) else Fault)"

fun steps :: "writer list \<Rightarrow> writer" where
  "steps [] s = Ok s"
| "steps (w # ws) s = obind (w s) (steps ws)"

text \<open>A call whose negative result is replaced by \<open>e\<close>.\<close>

definition call :: "int \<Rightarrow> writer \<Rightarrow> writer" where
  "call e w s = or_code e (w s)"

text \<open>\<open>writes w bs n\<close>: with \<open>n\<close> bytes of room \<open>w\<close> succeeds and writes exactly \<open>bs\<close>.\<close>

definition writes :: "writer \<Rightarrow> bytes \<Rightarrow> nat \<Rightarrow> bool" where
  "writes w bs n \<longleftrightarrow> length bs \<le> n \<and> (\<forall>pre free. n \<le> length free \<longrightarrow>
     w (pre @ free, length pre) = Ok (pre @ bs @ drop (length bs) free, length pre + length bs))"

lemma writesD: "writes w bs n \<Longrightarrow> n \<le> length free \<Longrightarrow>
    w (pre @ free, length pre) = Ok (pre @ bs @ drop (length bs) free, length pre + length bs)"
  by (simp add: writes_def)

lemma writes_room: "writes (room n e) [] n"
  by (simp add: writes_def room_def)

lemma writes_put: "writes (put bs) bs (length bs)"
  by (simp add: writes_def put_def)

lemma writes_call: "writes w bs n \<Longrightarrow> writes (call e w) bs n"
  by (simp add: writes_def call_def)

lemma writes_nil: "writes (steps []) [] 0"
  by (simp add: writes_def)

lemma writes_cons:
  assumes "writes w xs n" "writes (steps ws) ys m"
  shows "writes (steps (w # ws)) (xs @ ys) (max n (length xs + m))"
  unfolding writes_def
proof (intro conjI allI impI)
  show "length (xs @ ys) \<le> max n (length xs + m)" using assms(2) by (auto simp: writes_def intro: le_trans)
  fix pre free :: bytes
  assume "max n (length xs + m) \<le> length free"
  then have n: "n \<le> length free" "m \<le> length (drop (length xs) free)" by auto
  have "steps (w # ws) (pre @ free, length pre)
      = steps ws ((pre @ xs) @ drop (length xs) free, length (pre @ xs))"
    using writesD [OF assms(1) n(1)] by simp
  also have "\<dots> = Ok ((pre @ xs) @ ys @ drop (length ys) (drop (length xs) free), length (pre @ xs) + length ys)"
    by (rule writesD [OF assms(2) n(2)])
  finally show "steps (w # ws) (pre @ free, length pre)
      = Ok (pre @ (xs @ ys) @ drop (length (xs @ ys)) free, length pre + length (xs @ ys))"
    by (simp add: add.commute add.assoc)
qed

lemma writes_mono: "writes w bs n \<Longrightarrow> n \<le> m \<Longrightarrow> writes w bs m"
  by (simp add: writes_def)

lemma writes_eq: "writes w bs n \<Longrightarrow> bs = cs \<Longrightarrow> n = m \<Longrightarrow> writes w cs m"
  by simp

lemmas writes_intros = writes_room writes_put writes_call writes_nil writes_cons

text \<open>A buffer of exactly the written size is filled.\<close>

lemma writes_exact:
  assumes "writes w bs (length bs)" "length buf = length bs"
  shows "w (buf, 0) = Ok (bs, length bs)"
  using writesD [OF assms(1), of buf "[]"] assms(2) by simp

section \<open>Version, random, record header\<close>

abbreviation (input) change_cipher_spec :: byte where "change_cipher_spec \<equiv> 20"
abbreviation (input) handshake :: byte where "handshake \<equiv> 22"
abbreviation (input) DTLS_HEADER_SIZE :: nat where "DTLS_HEADER_SIZE \<equiv> 13"

type_synonym dtls_version = "byte \<times> byte"

abbreviation (input) DTLS_1_2 :: dtls_version where "DTLS_1_2 \<equiv> (0xfe, 0xfd)"

definition DtlsProtocolVersion_decode :: "bytes \<Rightarrow> (dtls_version \<times> nat) outcome" where
  "DtlsProtocolVersion_decode d =
     (if length d < 2 then Err (-1)
      else obind (rd8 d 0) (\<lambda>ma. obind (rd8 d 1) (\<lambda>mi. Ok ((ma, mi), 2))))"

definition DtlsProtocolVersion_encode :: "dtls_version \<Rightarrow> writer" where
  "DtlsProtocolVersion_encode v = steps [room 2 (-1), put [fst v, snd v]]"

text \<open>\<open>random_raw\<close> is the whole 32 bytes; \<open>Random::encode\<close> stores it too.\<close>

record dtls_random =
  gmt_unix_time :: u32
  random_bytes :: bytes
  random_raw :: bytes

definition Random_decode :: "bytes \<Rightarrow> (dtls_random \<times> nat) outcome" where
  "Random_decode d =
     (if length d < 4 then Err (-1)
      else obind (rdn d 0 4) (\<lambda>t.
        if length d - 4 < 28 then Err (-2)
        else obind (rdn d 4 28) (\<lambda>r. obind (rdn d 0 32) (\<lambda>raw.
          Ok (\<lparr>gmt_unix_time = of_nat (unbe t), random_bytes = r, random_raw = raw\<rparr>, 32)))))"

definition Random_encode :: "dtls_random \<Rightarrow> writer" where
  "Random_encode r = steps [room 4 (-1), put (be 4 (unat (gmt_unix_time r))), room 28 (-2), put (random_bytes r)]"

definition Random_stored :: "dtls_random \<Rightarrow> dtls_random" where
  "Random_stored r = r\<lparr>random_raw := be 4 (unat (gmt_unix_time r)) @ random_bytes r\<rparr>"

record dtls_header =
  hd_type :: byte
  hd_version :: dtls_version
  hd_epoch :: u16
  hd_sequence_number :: u64
  hd_length :: u16

definition DtlsHeader_decode :: "bytes \<Rightarrow> (dtls_header \<times> nat) outcome" where
  "DtlsHeader_decode d =
     (if length d < 1 then Err (-1)
      else obind (rd8 d 0) (\<lambda>ty.
        obind (or_code (-2) (DtlsProtocolVersion_decode (drop 1 d))) (\<lambda>(v, _).
          if length d - 3 < 2 then Err (-3)
          else obind (rdn d 3 2) (\<lambda>ep.
            if length d - 5 < 6 then Err (-4)
            else obind (rdn d 5 6) (\<lambda>seq.
              if length d - 11 < 2 then Err (-3)
              else obind (rdn d 11 2) (\<lambda>l.
                Ok (\<lparr>hd_type = ty, hd_version = v, hd_epoch = of_nat (unbe ep),
                  hd_sequence_number = of_nat (unbe seq), hd_length = of_nat (unbe l)\<rparr>, 13)))))))"

definition DtlsHeader_encode :: "dtls_header \<Rightarrow> writer" where
  "DtlsHeader_encode h =
     steps [room 1 (-1), put [hd_type h], call (-2) (DtlsProtocolVersion_encode (hd_version h)),
       room 2 (-3), put (be 2 (unat (hd_epoch h))), room 6 (-4), put (be 6 (unat (hd_sequence_number h))),
       room 2 (-5), put (be 2 (unat (hd_length h)))]"

section \<open>Lists and extensions of the hello messages\<close>

fun read_u16s :: "nat \<Rightarrow> bytes \<Rightarrow> u16 list outcome" where
  "read_u16s 0 d = Ok []"
| "read_u16s (Suc n) d = obind (rdn d 0 2) (\<lambda>w. obind (read_u16s n (drop 2 d)) (\<lambda>ws. Ok (of_nat (unbe w) # ws)))"

definition CipherSuites_decode :: "bytes \<Rightarrow> (u16 list \<times> nat) outcome" where
  "CipherSuites_decode d =
     (if length d < 2 then Err (-1)
      else obind (rdn d 0 2) (\<lambda>l.
        let l = unbe l in
        if length d - 2 < l then Err (-2)
        else obind (read_u16s (l div 2) (drop 2 d)) (\<lambda>cs. Ok (cs, 2 + 2 * (l div 2)))))"

definition CompressionMethods_decode :: "bytes \<Rightarrow> (bytes \<times> nat) outcome" where
  "CompressionMethods_decode d =
     (if length d < 1 then Err (-1)
      else obind (rd8 d 0) (\<lambda>l.
        if length d - 1 < unat l then Err (-2)
        else obind (rdn d 1 (unat l)) (\<lambda>ms. Ok (ms, 1 + unat l))))"

definition DtlsExtensionHeader_decode :: "nat \<Rightarrow> bytes \<Rightarrow> ((u16 \<times> u16) \<times> nat) outcome" where
  "DtlsExtensionHeader_decode len d =
     (if len < 2 then Err (-1)
      else obind (rdn d 0 2) (\<lambda>t.
        if len - 2 < 2 then Err (-2)
        else obind (rdn d 2 2) (\<lambda>l. Ok ((of_nat (unbe t), of_nat (unbe l)), 4))))"

definition DtlsExtensionHeader_encode :: "u16 \<Rightarrow> u16 \<Rightarrow> writer" where
  "DtlsExtensionHeader_encode ty l = steps [room 4 (-1), put (be 2 (unat ty) @ be 2 (unat l))]"

abbreviation (input) signature_algorithms :: u16 where "signature_algorithms \<equiv> 0x000D"
abbreviation (input) use_srtp :: u16 where "use_srtp \<equiv> 0x000E"
abbreviation (input) SRTP_AES128_CM_HMAC_SHA1_80 :: u16 where "SRTP_AES128_CM_HMAC_SHA1_80 \<equiv> 0x0001"

record use_srtp_ext =
  srtp_profiles :: "u16 list"
  srtp_mki :: bytes

text \<open>The loop over \<open>n\<close> protection profiles, guarded in every turn; \<open>len\<close> is the room behind the length field.\<close>

fun srtp_profile_loop :: "nat \<Rightarrow> nat \<Rightarrow> bytes \<Rightarrow> u16 list outcome" where
  "srtp_profile_loop 0 len d = Ok []"
| "srtp_profile_loop (Suc n) len d =
     (if len < 2 then Err (-3)
      else obind (rdn d 0 2) (\<lambda>p. obind (srtp_profile_loop n (len - 2) (drop 2 d)) (\<lambda>ps. Ok (of_nat (unbe p) # ps))))"

text \<open>\<open>left_length\<close> is a 16-bit signed integer; what is left counts as the key identifier, its own length
  byte included.\<close>

definition UseSRtpExt_decode :: "bytes \<Rightarrow> (use_srtp_ext \<times> nat) outcome" where
  "UseSRtpExt_decode d =
     obind (or_code (-1) (DtlsExtensionHeader_decode (length d) d)) (\<lambda>((_, hl), _).
       if length d - 4 < 2 then Err (-2)
       else obind (rdn d 4 2) (\<lambda>l.
         let n = unbe l div 2; p = 6 + 2 * n; left_length = sint (hl - (of_nat (unbe l) + 2) :: u16) in
         obind (srtp_profile_loop n (length d - 6) (drop 6 d)) (\<lambda>ps.
           if 0 < left_length
           then obind (rdn d p (nat left_length)) (\<lambda>m. Ok (\<lparr>srtp_profiles = ps, srtp_mki = m\<rparr>, p + nat left_length))
           else Ok (\<lparr>srtp_profiles = ps, srtp_mki = []\<rparr>, p))))"

text \<open>\<open>size\<close> also stores the length field, which \<open>encode\<close> writes.\<close>

definition UseSRtpExt_size :: "use_srtp_ext \<Rightarrow> nat" where
  "UseSRtpExt_size e = 4 + 2 + length (srtp_profiles e) * 2 + (length (srtp_mki e) + 1)"

definition UseSRtpExt_encode :: "use_srtp_ext \<Rightarrow> writer" where
  "UseSRtpExt_encode e =
     steps ([call (-1) (DtlsExtensionHeader_encode use_srtp (of_nat (UseSRtpExt_size e - 4))),
       put (be 2 (length (srtp_profiles e) * 2))]
       @ map (\<lambda>p. put (be 2 (unat p))) (srtp_profiles e)
       @ [put [of_nat (length (srtp_mki e))], put (srtp_mki e)])"

fun sha_loop :: "nat \<Rightarrow> nat \<Rightarrow> bytes \<Rightarrow> (byte \<times> byte) list outcome" where
  "sha_loop 0 len d = Ok []"
| "sha_loop (Suc n) len d =
     (if len < 2 then Err (-3)
      else obind (rd8 d 0) (\<lambda>h. obind (rd8 d 1) (\<lambda>s.
        obind (sha_loop n (len - 2) (drop 2 d)) (\<lambda>hs. Ok ((h, s) # hs)))))"

text \<open>The caller passes the length of the extension block as \<open>len\<close>, not the number of readable bytes.\<close>

definition SignatureAndHashAlgorithmExt_decode :: "nat \<Rightarrow> bytes \<Rightarrow> ((byte \<times> byte) list \<times> nat) outcome" where
  "SignatureAndHashAlgorithmExt_decode len d =
     obind (or_code (-1) (DtlsExtensionHeader_decode len d)) (\<lambda>_.
       if len - 4 < 2 then Err (-2)
       else obind (rdn d 4 2) (\<lambda>l.
         let n = unbe l div 2 in
         obind (sha_loop n (len - 6) (drop 6 d)) (\<lambda>hs. Ok (hs, 6 + 2 * n))))"

definition UnknownExtItem_decode :: "bytes \<Rightarrow> nat outcome" where
  "UnknownExtItem_decode d =
     obind (or_code (-1) (DtlsExtensionHeader_decode (length d) d)) (\<lambda>((_, l), _). Ok (4 + unat l))"

text \<open>One extension: how many bytes it takes.  What was decoded is dropped.\<close>

definition extension_turn :: "u16 \<Rightarrow> bytes \<Rightarrow> nat outcome" where
  "extension_turn len d =
     obind (rdn d 0 2) (\<lambda>t.
       let t = (of_nat (unbe t) :: u16) in
       if t = use_srtp then obind (or_code (-1) (UseSRtpExt_decode d)) (\<lambda>(_, c). Ok c)
       else if t = signature_algorithms
       then obind (or_code (-2) (SignatureAndHashAlgorithmExt_decode (unat len) d)) (\<lambda>(_, c). Ok c)
       else or_code (-3) (UnknownExtItem_decode d))"

lemma extension_turn_consumes: "extension_turn len d = Ok c \<Longrightarrow> 2 \<le> length d \<and> 4 \<le> c"
  by (auto simp: extension_turn_def UseSRtpExt_decode_def SignatureAndHashAlgorithmExt_decode_def
      UnknownExtItem_decode_def DtlsExtensionHeader_decode_def Let_def outcome_iffs rdn_def split: if_splits)

function extension_loop :: "u16 \<Rightarrow> nat \<Rightarrow> bytes \<Rightarrow> nat outcome" where
  "extension_loop len pos d =
     (if len = 0 then Ok pos
      else obind (extension_turn len (drop pos d)) (\<lambda>c. extension_loop (len - of_nat c) (pos + c) d))"
  by pat_completeness auto
termination
  by (relation "measure (\<lambda>(_, pos, d). length d - pos)") (auto dest: extension_turn_consumes)

definition DtlsExtension_decode :: "bytes \<Rightarrow> nat outcome" where
  "DtlsExtension_decode d = obind (rdn d 0 2) (\<lambda>l. extension_loop (of_nat (unbe l)) 2 d)"

definition DtlsExtension_size :: "use_srtp_ext list \<Rightarrow> nat" where
  "DtlsExtension_size es = (if es = [] then 0 else 2 + sum_list (map UseSRtpExt_size es))"

definition DtlsExtension_encode :: "use_srtp_ext list \<Rightarrow> writer" where
  "DtlsExtension_encode es =
     (if es = [] then steps []
      else steps ([room 2 (-1), put (be 2 (DtlsExtension_size es - 2))] @ map (\<lambda>e. call (-2) (UseSRtpExt_encode e)) es))"

section \<open>Handshake messages\<close>

record client_hello_msg =
  client_version :: dtls_version
  ch_random :: dtls_random
  ch_session_id :: bytes
  ch_cookie :: bytes
  ch_cipher_suites :: "u16 list"
  ch_compression_methods :: bytes

text \<open>The session id and the cookie are read without a check of the remaining length.\<close>

definition ClientHello_decode :: "bytes \<Rightarrow> (client_hello_msg \<times> nat) outcome" where
  "ClientHello_decode d =
     obind (or_code (-1) (DtlsProtocolVersion_decode d)) (\<lambda>(v, _).
     obind (or_code (-2) (Random_decode (drop 2 d))) (\<lambda>(r, _).
     obind (rd8 d 34) (\<lambda>sl.
     obind (rdn d 35 (unat sl)) (\<lambda>sid.
     let p = 35 + unat sl in
     obind (rd8 d p) (\<lambda>cl.
     obind (rdn d (p + 1) (unat cl)) (\<lambda>cookie.
     let p = p + 1 + unat cl in
     obind (or_code (-3) (CipherSuites_decode (drop p d))) (\<lambda>(cs, c).
     let p = p + c in
     obind (or_code (-4) (CompressionMethods_decode (drop p d))) (\<lambda>(ms, c).
     let p = p + c; m = \<lparr>client_version = v, ch_random = r, ch_session_id = sid, ch_cookie = cookie,
           ch_cipher_suites = cs, ch_compression_methods = ms\<rparr> in
     if 0 < length d - p
     then obind (or_code (-5) (DtlsExtension_decode (drop p d))) (\<lambda>c. Ok (m, p + c))
     else Ok (m, p)))))))))"

record server_hello_msg =
  server_version :: dtls_version
  sh_random :: dtls_random
  sh_session_id :: bytes
  sh_cipher_suite :: u16
  sh_compression_method :: byte
  sh_extensions :: "use_srtp_ext list"

definition ServerHello_decode :: "bytes \<Rightarrow> (server_hello_msg \<times> nat) outcome" where
  "ServerHello_decode d =
     obind (or_code (-1) (DtlsProtocolVersion_decode d)) (\<lambda>(v, _).
     obind (or_code (-2) (Random_decode (drop 2 d))) (\<lambda>(r, _).
     obind (rd8 d 34) (\<lambda>sl.
     obind (rdn d 35 (unat sl)) (\<lambda>sid.
     let p = 35 + unat sl in
     if length d - p < 2 then Err (-3)
     else obind (rdn d p 2) (\<lambda>cs.
       obind (rd8 d (p + 2)) (\<lambda>cm.
         let p = p + 3; m = \<lparr>server_version = v, sh_random = r, sh_session_id = sid, sh_cipher_suite = of_nat (unbe cs),
               sh_compression_method = cm, sh_extensions = []\<rparr> in
         if 0 < length d - p
         then obind (or_code (-5) (DtlsExtension_decode (drop p d))) (\<lambda>c. Ok (m, p + c))
         else Ok (m, p)))))))"

definition ServerHello_encode :: "server_hello_msg \<Rightarrow> writer" where
  "ServerHello_encode m =
     steps [call (-1) (DtlsProtocolVersion_encode (server_version m)), call (-2) (Random_encode (sh_random m)),
       put [of_nat (length (sh_session_id m))], room (unat (of_nat (length (sh_session_id m)) :: byte)) (-3),
       put (take (unat (of_nat (length (sh_session_id m)) :: byte)) (sh_session_id m)),
       room 2 (-4), put (be 2 (unat (sh_cipher_suite m))), room 1 (-5), put [sh_compression_method m],
       call (-6) (DtlsExtension_encode (sh_extensions m))]"

definition ServerHello_size :: "server_hello_msg \<Rightarrow> nat" where
  "ServerHello_size m = 2 + 32 + (length (sh_session_id m) + 1) + 2 + 1 + DtlsExtension_size (sh_extensions m)"

definition HelloVerifyRequest_encode :: "dtls_version \<Rightarrow> bytes \<Rightarrow> writer" where
  "HelloVerifyRequest_encode v cookie =
     steps [call (-1) (DtlsProtocolVersion_encode v), put [of_nat (length cookie)], room (length cookie) (-2), put cookie]"

definition HelloVerifyRequest_size :: "bytes \<Rightarrow> nat" where
  "HelloVerifyRequest_size cookie = 2 + 1 + length cookie"

definition Certificate_encode :: "bytes \<Rightarrow> writer" where
  "Certificate_encode c = steps [room 3 (-1), put (be 3 (length c)), room (length c) (-2), put c]"

text \<open>The total length is stored by \<open>size\<close>, which runs before \<open>encode\<close>.\<close>

definition ServerCertificate_size :: "bytes list \<Rightarrow> nat" where
  "ServerCertificate_size cs = 3 + sum_list (map (\<lambda>c. 3 + length c) cs)"

definition ServerCertificate_encode :: "bytes list \<Rightarrow> writer" where
  "ServerCertificate_encode cs =
     steps ([room 3 (-1), put (be 3 (ServerCertificate_size cs - 3))] @ map (\<lambda>c. call (-2) (Certificate_encode c)) cs)"

definition ClientKeyExchange_decode :: "bytes \<Rightarrow> (bytes \<times> nat) outcome" where
  "ClientKeyExchange_decode d =
     (if length d < 2 then Err (-1)
      else obind (rdn d 0 2) (\<lambda>l.
        if length d - 2 < unbe l then Err (-2)
        else obind (rdn d 2 (unbe l)) (\<lambda>s. Ok (s, 2 + unbe l))))"

definition DtlsFinished_decode :: "bytes \<Rightarrow> (bytes \<times> nat) outcome" where
  "DtlsFinished_decode d = Ok (d, length d)"

text \<open>\<open>memcpy\<close> of twelve bytes out of the string and into the buffer, neither of them checked.\<close>

definition DtlsFinished_encode :: "bytes \<Rightarrow> writer" where
  "DtlsFinished_encode v s = (if length v < 12 then Fault else put (take 12 v) s)"

definition PreMasterSecret_decode :: "bytes \<Rightarrow> ((dtls_version \<times> bytes) \<times> nat) outcome" where
  "PreMasterSecret_decode d =
     obind (or_code (-1) (DtlsProtocolVersion_decode d)) (\<lambda>(v, _).
       if length d - 2 < 46 then Err (-2)
       else obind (rdn d 2 46) (\<lambda>r. Ok ((v, r), 48)))"

abbreviation (input) client_hello :: byte where "client_hello \<equiv> 1"
abbreviation (input) server_hello :: byte where "server_hello \<equiv> 2"
abbreviation (input) hello_verify_request :: byte where "hello_verify_request \<equiv> 3"
abbreviation (input) certificate :: byte where "certificate \<equiv> 11"
abbreviation (input) server_hello_done :: byte where "server_hello_done \<equiv> 14"
abbreviation (input) client_key_exchange :: byte where "client_key_exchange \<equiv> 16"
abbreviation (input) finished :: byte where "finished \<equiv> 20"

datatype handshake_body =
    ClientHello client_hello_msg
  | ServerHello server_hello_msg
  | HelloVerifyRequest dtls_version bytes
  | ServerCertificate "bytes list"
  | ServerHelloDone
  | ClientKeyExchange bytes
  | DtlsFinished bytes

record hand_shake =
  msg_type :: byte
  message_seq :: u16
  hs_msg :: handshake_body

fun handshake_body_encode :: "handshake_body \<Rightarrow> writer" where
  "handshake_body_encode (ClientHello _) = steps []"
| "handshake_body_encode (ServerHello m) = ServerHello_encode m"
| "handshake_body_encode (HelloVerifyRequest v c) = HelloVerifyRequest_encode v c"
| "handshake_body_encode (ServerCertificate cs) = ServerCertificate_encode cs"
| "handshake_body_encode ServerHelloDone = steps []"
| "handshake_body_encode (ClientKeyExchange _) = steps []"
| "handshake_body_encode (DtlsFinished v) = DtlsFinished_encode v"

fun handshake_body_size :: "handshake_body \<Rightarrow> nat" where
  "handshake_body_size (ClientHello m) = 2 + 32 + (length (ch_session_id m) + 1) + (length (ch_cookie m) + 1)
     + (2 + length (ch_cipher_suites m) * 2) + (1 + length (ch_compression_methods m))"
| "handshake_body_size (ServerHello m) = ServerHello_size m"
| "handshake_body_size (HelloVerifyRequest _ c) = HelloVerifyRequest_size c"
| "handshake_body_size (ServerCertificate cs) = ServerCertificate_size cs"
| "handshake_body_size ServerHelloDone = 0"
| "handshake_body_size (ClientKeyExchange _) = 0"
| "handshake_body_size (DtlsFinished _) = 12"

definition as_body :: "('m \<Rightarrow> handshake_body) \<Rightarrow> ('m \<times> nat) outcome \<Rightarrow> (handshake_body \<times> nat) outcome" where
  "as_body mk r = obind r (\<lambda>(m, c). Ok (mk m, c))"

definition handshake_body_decode :: "byte \<Rightarrow> bytes \<Rightarrow> (handshake_body \<times> nat) outcome" where
  "handshake_body_decode ty d =
     (if ty = client_hello then or_code (-7) (as_body ClientHello (ClientHello_decode d))
      else if ty = server_hello then or_code (-7) (as_body ServerHello (ServerHello_decode d))
      else if ty = client_key_exchange then or_code (-7) (as_body ClientKeyExchange (ClientKeyExchange_decode d))
      else if ty = finished then or_code (-7) (as_body DtlsFinished (DtlsFinished_decode d))
      else Err (-6))"

text \<open>The length and fragment fields are read and never looked at again: the body is decoded from
  everything that follows.\<close>

definition HandShake_decode :: "bytes \<Rightarrow> (hand_shake \<times> nat) outcome" where
  "HandShake_decode d =
     (if length d < 1 then Err (-1)
      else obind (rd8 d 0) (\<lambda>ty.
        if length d - 1 < 3 then Err (-2)
        else if length d - 4 < 2 then Err (-3)
        else obind (rdn d 4 2) (\<lambda>seq.
          if length d - 6 < 3 then Err (-4)
          else if length d - 9 < 3 then Err (-5)
          else obind (handshake_body_decode ty (drop 12 d)) (\<lambda>(m, c).
            Ok (\<lparr>msg_type = ty, message_seq = of_nat (unbe seq), hs_msg = m\<rparr>, 12 + c)))))"

text \<open>The three length fields are filled in behind the body; the fragment is the whole message.\<close>

definition HandShake_encode :: "hand_shake \<Rightarrow> writer" where
  "HandShake_encode h = (\<lambda>(buf, pos).
     obind (steps [room 1 (-1), put [msg_type h], room 3 (-2), put [0, 0, 0], room 2 (-3),
              put (be 2 (unat (message_seq h))), room 3 (-4), put [0, 0, 0], room 3 (-5), put [0, 0, 0],
              call (-2) (handshake_body_encode (hs_msg h))] (buf, pos)) (\<lambda>(buf, p).
       let content_len = p - (pos + 12) in
       obind (put (be 3 content_len) (buf, pos + 1)) (\<lambda>(buf, _).
       obind (put (be 3 content_len) (buf, pos + 9)) (\<lambda>(buf, _).
       obind (put (be 3 0) (buf, pos + 6)) (\<lambda>(buf, _). Ok (buf, p))))))"

definition HandShake_size :: "hand_shake \<Rightarrow> nat" where
  "HandShake_size h = 12 + handshake_body_size (hs_msg h)"

section \<open>Plain records\<close>

datatype dtls_msg = HandShake hand_shake | ChangeCipherSpec byte

record dtls_plaintext =
  pt_header :: dtls_header
  pt_msg :: dtls_msg

text \<open>The length field of the header does not bound the message; the copy into \<open>raw_data\<close> reads everything
  that counted as consumed.\<close>

definition DTLSPlaintext_decode :: "bytes \<Rightarrow> (dtls_plaintext \<times> nat) outcome" where
  "DTLSPlaintext_decode d =
     obind (or_code (-1) (DtlsHeader_decode d)) (\<lambda>(h, _).
       let fin = (\<lambda>m c. obind (rdn d 0 (13 + c)) (\<lambda>_. Ok (\<lparr>pt_header = h, pt_msg = m\<rparr>, 13 + c))) in
       if hd_epoch h = 0 \<and> hd_type h = handshake
       then obind (or_code (-3) (HandShake_decode (drop 13 d))) (\<lambda>(m, c). fin (HandShake m) c)
       else if hd_epoch h = 0 \<and> hd_type h = change_cipher_spec
       then (if length (drop 13 d) < 1 then Err (-3)
             else obind (rd8 (drop 13 d) 0) (\<lambda>ty. fin (ChangeCipherSpec ty) 1))
       else Err (-2))"

fun dtls_msg_size :: "dtls_msg \<Rightarrow> nat" where
  "dtls_msg_size (HandShake h) = HandShake_size h"
| "dtls_msg_size (ChangeCipherSpec _) = 1"

fun dtls_msg_encode :: "dtls_msg \<Rightarrow> writer" where
  "dtls_msg_encode (HandShake h) = HandShake_encode h"
| "dtls_msg_encode (ChangeCipherSpec ty) = steps [room 1 (-1), put [ty]]"

definition DTLSPlaintext_size :: "dtls_plaintext \<Rightarrow> nat" where
  "DTLSPlaintext_size p = 13 + dtls_msg_size (pt_msg p)"

definition DTLSPlaintext_encode :: "dtls_plaintext \<Rightarrow> writer" where
  "DTLSPlaintext_encode p =
     steps [call (-1) (DtlsHeader_encode ((pt_header p)\<lparr>hd_length := of_nat (dtls_msg_size (pt_msg p))\<rparr>)),
       call (-2) (dtls_msg_encode (pt_msg p))]"

section \<open>Wire format of the messages that the server sends\<close>

definition dtls_header_wire :: "dtls_header \<Rightarrow> bytes" where
  "dtls_header_wire h = [hd_type h, fst (hd_version h), snd (hd_version h)] @ be 2 (unat (hd_epoch h))
     @ be 6 (unat (hd_sequence_number h)) @ be 2 (unat (hd_length h))"

definition random_wire :: "dtls_random \<Rightarrow> bytes" where
  "random_wire r = be 4 (unat (gmt_unix_time r)) @ random_bytes r"

definition use_srtp_wire :: "use_srtp_ext \<Rightarrow> bytes" where
  "use_srtp_wire e = be 2 14 @ be 2 (3 + 2 * length (srtp_profiles e) + length (srtp_mki e))
     @ be 2 (2 * length (srtp_profiles e)) @ concat (map (\<lambda>p. be 2 (unat p)) (srtp_profiles e))
     @ [of_nat (length (srtp_mki e))] @ srtp_mki e"

definition extensions_wire :: "use_srtp_ext list \<Rightarrow> bytes" where
  "extensions_wire es = (if es = [] then []
     else be 2 (sum_list (map UseSRtpExt_size es)) @ concat (map use_srtp_wire es))"

fun body_wire :: "handshake_body \<Rightarrow> bytes" where
  "body_wire (ServerHello m) = [fst (server_version m), snd (server_version m)] @ random_wire (sh_random m)
     @ [of_nat (length (sh_session_id m))] @ sh_session_id m @ be 2 (unat (sh_cipher_suite m))
     @ [sh_compression_method m] @ extensions_wire (sh_extensions m)"
| "body_wire (HelloVerifyRequest v c) = [fst v, snd v, of_nat (length c)] @ c"
| "body_wire (ServerCertificate cs) = be 3 (sum_list (map (\<lambda>c. 3 + length c) cs)) @ concat (map (\<lambda>c. be 3 (length c) @ c) cs)"
| "body_wire (DtlsFinished v) = v"
| "body_wire _ = []"

text \<open>The messages the server sends, with the widths their fields have.\<close>

fun body_ok :: "handshake_body \<Rightarrow> bool" where
  "body_ok (ServerHello m) \<longleftrightarrow> length (random_bytes (sh_random m)) = 28 \<and> length (sh_session_id m) < 256"
| "body_ok (HelloVerifyRequest v c) \<longleftrightarrow> True"
| "body_ok (ServerCertificate cs) \<longleftrightarrow> True"
| "body_ok ServerHelloDone \<longleftrightarrow> True"
| "body_ok (DtlsFinished v) \<longleftrightarrow> length v = 12"
| "body_ok _ \<longleftrightarrow> False"

definition handshake_wire :: "hand_shake \<Rightarrow> bytes" where
  "handshake_wire h = [msg_type h] @ be 3 (length (body_wire (hs_msg h))) @ be 2 (unat (message_seq h))
     @ be 3 0 @ be 3 (length (body_wire (hs_msg h))) @ body_wire (hs_msg h)"

fun dtls_msg_wire :: "dtls_msg \<Rightarrow> bytes" where
  "dtls_msg_wire (HandShake h) = handshake_wire h"
| "dtls_msg_wire (ChangeCipherSpec ty) = [ty]"

fun dtls_msg_ok :: "dtls_msg \<Rightarrow> bool" where
  "dtls_msg_ok (HandShake h) \<longleftrightarrow> body_ok (hs_msg h)"
| "dtls_msg_ok (ChangeCipherSpec _) \<longleftrightarrow> True"

definition record_wire :: "dtls_plaintext \<Rightarrow> bytes" where
  "record_wire p = dtls_header_wire ((pt_header p)\<lparr>hd_length := of_nat (length (dtls_msg_wire (pt_msg p)))\<rparr>) @ dtls_msg_wire (pt_msg p)"

section \<open>The encoders write the wire format\<close>

lemma version_writes: "writes (DtlsProtocolVersion_encode v) [fst v, snd v] 2"
  unfolding DtlsProtocolVersion_encode_def
  by (rule writes_eq, (rule writes_intros)+) simp_all

lemma header_writes: "writes (DtlsHeader_encode h) (dtls_header_wire h) 13"
  unfolding DtlsHeader_encode_def
  by (rule writes_eq, (rule version_writes writes_intros)+) (simp_all add: dtls_header_wire_def)

lemma length_dtls_header_wire [simp]: "length (dtls_header_wire h) = 13"
  by (simp add: dtls_header_wire_def)

lemma random_writes: "length (random_bytes r) = 28 \<Longrightarrow> writes (Random_encode r) (random_wire r) 32"
  unfolding Random_encode_def
  by (rule writes_eq, (rule writes_intros)+) (simp_all add: random_wire_def)

lemma be_mod: "be k (n mod 256 ^ k) = be k n"
  by (metis be_unbe length_be unbe_be)

lemma be_2_of_nat: "be 2 (unat (of_nat n :: u16)) = be 2 n"
  using be_mod [of 2 n] by (simp add: unat_of_nat)

text \<open>A list of writers that need no more than they write.\<close>

lemma steps_single: "steps [w] = w"
proof
  fix s show "steps [w] s = w s" by (cases "w s") simp_all
qed

lemma writes_append:
  assumes "writes (steps us) xs n" "writes (steps ws) ys m"
  shows "writes (steps (us @ ws)) (xs @ ys) (max n (length xs + m))"
proof -
  have "steps (us @ ws) s = obind (steps us s) (steps ws)" for s
    by (induction us arbitrary: s) (auto simp: obind_assoc intro!: obind_cong)
  then have "steps [steps us, steps ws] = steps (us @ ws)" by (intro ext) (simp add: steps_single)
  moreover have "writes (steps [steps us, steps ws]) (xs @ ys @ []) (max n (length xs + max m (length ys + 0)))"
    using assms by (intro writes_cons writes_nil)
  moreover have "max m (length ys + 0) = m" using assms(2) by (simp add: writes_def max_def)
  ultimately show ?thesis by simp
qed

lemma writes_map:
  assumes "\<And>x. x \<in> set xs \<Longrightarrow> writes (w x) (f x) (length (f x))"
  shows "writes (steps (map w xs)) (concat (map f xs)) (length (concat (map f xs)))"
  using assms
proof (induction xs)
  case Nil
  then show ?case using writes_nil by (simp only: list.map concat.simps list.size)
next
  case (Cons x xs)
  have "writes (steps (w x # map w xs)) (f x @ concat (map f xs)) (max (length (f x)) (length (f x) + length (concat (map f xs))))"
    using Cons by (intro writes_cons) simp_all
  then show ?case by (simp del: steps.simps)
qed

lemma length_be_concat: "length (concat (map (\<lambda>p. be k (f p)) ps)) = k * length ps"
  by (induction ps) simp_all

lemma length_use_srtp_wire: "length (use_srtp_wire e) = UseSRtpExt_size e"
  by (simp add: use_srtp_wire_def UseSRtpExt_size_def length_be_concat)

lemma use_srtp_writes: "writes (UseSRtpExt_encode e) (use_srtp_wire e) (UseSRtpExt_size e)"
proof -
  let ?n = "length (srtp_profiles e)" and ?m = "srtp_mki e"
  have a: "writes (steps [call (-1) (DtlsExtensionHeader_encode use_srtp (of_nat (UseSRtpExt_size e - 4))), put (be 2 (?n * 2))])
      ((be 2 14 @ be 2 (3 + 2 * ?n + length ?m)) @ be 2 (2 * ?n)) 6"
    unfolding DtlsExtensionHeader_encode_def be_2_of_nat
    by (rule writes_eq, (rule writes_intros)+) (simp_all add: UseSRtpExt_size_def mult.commute add.assoc)
  have b: "writes (steps (map (\<lambda>p. put (be 2 (unat p))) (srtp_profiles e)))
      (concat (map (\<lambda>p. be 2 (unat p)) (srtp_profiles e))) (2 * ?n)"
    by (rule writes_eq [OF writes_map [where f = "\<lambda>p. be 2 (unat p)"]])
      (simp_all add: length_be_concat writes_put [THEN writes_eq])
  have c: "writes (steps [put [of_nat (length ?m)], put ?m]) ([of_nat (length ?m)] @ ?m) (1 + length ?m)"
    by (rule writes_eq, (rule writes_intros)+) simp_all
  show ?thesis unfolding UseSRtpExt_encode_def
    by (rule writes_eq [OF writes_append [OF a writes_append [OF b c]]])
      (simp_all add: use_srtp_wire_def UseSRtpExt_size_def length_be_concat)
qed

lemma extensions_writes: "writes (DtlsExtension_encode es) (extensions_wire es) (length (extensions_wire es))"
proof (cases "es = []")
  case True
  then show ?thesis using writes_nil by (simp add: DtlsExtension_encode_def extensions_wire_def del: steps.simps)
next
  case False
  have a: "writes (steps [room 2 (-1), put (be 2 (DtlsExtension_size es - 2))]) (be 2 (sum_list (map UseSRtpExt_size es))) 2"
    by (rule writes_eq, (rule writes_intros)+) (use False in \<open>simp_all add: DtlsExtension_size_def\<close>)
  have b: "writes (steps (map (\<lambda>e. call (-2) (UseSRtpExt_encode e)) es)) (concat (map use_srtp_wire es))
      (length (concat (map use_srtp_wire es)))"
    by (rule writes_map) (simp add: length_use_srtp_wire writes_call use_srtp_writes)
  show ?thesis unfolding DtlsExtension_encode_def if_not_P [OF False]
    by (rule writes_eq [OF writes_append [OF a b]]) (use False in \<open>simp_all add: extensions_wire_def\<close>)
qed

lemma length_extensions_wire: "length (extensions_wire es) = DtlsExtension_size es"
  by (simp add: extensions_wire_def DtlsExtension_size_def length_concat comp_def length_use_srtp_wire)

lemma server_hello_writes:
  assumes "body_ok (ServerHello m)"
  shows "writes (ServerHello_encode m) (body_wire (ServerHello m)) (length (body_wire (ServerHello m)))"
proof -
  have l: "unat (of_nat (length (sh_session_id m)) :: byte) = length (sh_session_id m)"
    using assms by (simp add: unat_of_nat)
  have "length (random_bytes (sh_random m)) = 28" using assms by simp
  note w = version_writes random_writes [OF this] extensions_writes writes_intros
  show ?thesis unfolding ServerHello_encode_def l
    by (rule writes_eq, (rule w)+) (use assms in \<open>simp_all add: random_wire_def\<close>)
qed

lemma verify_request_writes:
  "writes (HelloVerifyRequest_encode v c) (body_wire (HelloVerifyRequest v c)) (length (body_wire (HelloVerifyRequest v c)))"
  unfolding HelloVerifyRequest_encode_def
  by (rule writes_eq, (rule version_writes writes_intros)+) simp_all

lemma certificate_writes: "writes (Certificate_encode c) (be 3 (length c) @ c) (length (be 3 (length c) @ c))"
  unfolding Certificate_encode_def by (rule writes_eq, (rule writes_intros)+) simp_all

lemma server_certificate_writes:
  "writes (ServerCertificate_encode cs) (body_wire (ServerCertificate cs)) (length (body_wire (ServerCertificate cs)))"
proof -
  have a: "writes (steps [room 3 (-1), put (be 3 (ServerCertificate_size cs - 3))])
      (be 3 (sum_list (map (\<lambda>c. 3 + length c) cs))) 3"
    by (rule writes_eq, (rule writes_intros)+) (simp_all add: ServerCertificate_size_def)
  have b: "writes (steps (map (\<lambda>c. call (-2) (Certificate_encode c)) cs)) (concat (map (\<lambda>c. be 3 (length c) @ c) cs))
      (length (concat (map (\<lambda>c. be 3 (length c) @ c) cs)))"
    by (rule writes_map) (rule writes_call, rule certificate_writes)
  show ?thesis unfolding ServerCertificate_encode_def
    by (rule writes_eq [OF writes_append [OF a b]]) simp_all
qed

lemma finished_writes: "length v = 12 \<Longrightarrow> writes (DtlsFinished_encode v) v 12"
  using writes_put [of v] by (simp add: writes_def DtlsFinished_encode_def)

lemma body_writes:
  "body_ok b \<Longrightarrow> writes (handshake_body_encode b) (body_wire b) (length (body_wire b))"
proof (cases b)
  case (ServerHello m)
  assume "body_ok b"
  then show ?thesis using server_hello_writes [of m] ServerHello by (simp only: handshake_body_encode.simps)
qed (use verify_request_writes server_certificate_writes finished_writes writes_nil in
    \<open>simp_all del: steps.simps\<close>)

lemma length_body_wire: "body_ok b \<Longrightarrow> length (body_wire b) = handshake_body_size b"
  by (cases b) (simp_all add: ServerHello_size_def random_wire_def length_extensions_wire HelloVerifyRequest_size_def
      ServerCertificate_size_def length_concat comp_def)

text \<open>Writing again over fields that are already there.\<close>

lemma put_over: "length bs = length old \<Longrightarrow> put bs (pre @ old @ post, length pre) = Ok (pre @ bs @ post, length pre + length bs)"
  by (simp add: put_def)

lemma handshake_writes:
  assumes "body_ok (hs_msg h)"
  shows "writes (HandShake_encode h) (handshake_wire h) (length (handshake_wire h))"
  unfolding writes_def
proof (intro conjI allI impI)
  fix pre free :: bytes
  assume l: "length (handshake_wire h) \<le> length free"
  define z :: bytes where "z = [0, 0, 0]"
  define ty where "ty = [msg_type h]"
  let ?b = "body_wire (hs_msg h)" and ?s = "be 2 (unat (message_seq h))" and ?post = "drop (length (handshake_wire h)) free"
  have lz: "length z = 3" "length ty = 1" by (simp_all add: z_def ty_def)
  have lw: "length (handshake_wire h) = 12 + length ?b" by (simp add: handshake_wire_def)
  let ?e = "steps [room 1 (-1), put ty, room 3 (-2), put z, room 2 (-3), put ?s, room 3 (-4),
      put z, room 3 (-5), put z, call (-2) (handshake_body_encode (hs_msg h))]"
  have w: "writes ?e (ty @ z @ ?s @ z @ z @ ?b) (12 + length ?b)"
    by (rule writes_eq, (rule body_writes [OF assms] writes_intros)+) (simp_all add: lz)
  have "?e (pre @ free, length pre) = Ok (pre @ (ty @ z @ ?s @ z @ z @ ?b) @ ?post, length pre + 12 + length ?b)"
    using writesD [OF w, of free pre] l by (simp add: lw lz add.assoc del: steps.simps)
  moreover have "put (be 3 (length ?b)) (pre @ (ty @ z @ ?s @ z @ z @ ?b) @ ?post, length pre + 1)
      = Ok (pre @ (ty @ be 3 (length ?b) @ ?s @ z @ z @ ?b) @ ?post, length pre + 4)"
    using put_over [of "be 3 (length ?b)" z "pre @ ty" "?s @ z @ z @ ?b @ ?post"] by (simp add: lz)
  moreover have "put (be 3 (length ?b)) (pre @ (ty @ be 3 (length ?b) @ ?s @ z @ z @ ?b) @ ?post, length pre + 9)
      = Ok (pre @ (ty @ be 3 (length ?b) @ ?s @ z @ be 3 (length ?b) @ ?b) @ ?post, length pre + 12)"
    using put_over [of "be 3 (length ?b)" z "pre @ ty @ be 3 (length ?b) @ ?s @ z" "?b @ ?post"] by (simp add: lz)
  moreover have "put (be 3 0) (pre @ (ty @ be 3 (length ?b) @ ?s @ z @ be 3 (length ?b) @ ?b) @ ?post, length pre + 6)
      = Ok (pre @ (ty @ be 3 (length ?b) @ ?s @ be 3 0 @ be 3 (length ?b) @ ?b) @ ?post, length pre + 9)"
    using put_over [of "be 3 0" z "pre @ ty @ be 3 (length ?b) @ ?s" "be 3 (length ?b) @ ?b @ ?post"] by (simp add: lz)
  ultimately show "HandShake_encode h (pre @ free, length pre)
      = Ok (pre @ handshake_wire h @ ?post, length pre + length (handshake_wire h))"
    unfolding HandShake_encode_def prod.case Let_def z_def [symmetric] ty_def [symmetric]
    by (simp add: lw del: steps.simps) (simp add: handshake_wire_def ty_def)
qed simp

lemma dtls_msg_writes:
  "dtls_msg_ok m \<Longrightarrow> writes (dtls_msg_encode m) (dtls_msg_wire m) (length (dtls_msg_wire m))"
proof (cases m)
  case (ChangeCipherSpec ty)
  have "writes (steps [room 1 (-1), put [ty]]) [ty] 1"
    by (rule writes_eq, (rule writes_intros)+) simp_all
  then show ?thesis using ChangeCipherSpec by (simp del: steps.simps)
qed (simp add: handshake_writes)

lemma length_dtls_msg_wire: "dtls_msg_ok m \<Longrightarrow> length (dtls_msg_wire m) = dtls_msg_size m"
  by (cases m) (simp_all add: handshake_wire_def HandShake_size_def length_body_wire)

lemma record_writes:
  assumes "dtls_msg_ok (pt_msg p)"
  shows "writes (DTLSPlaintext_encode p) (record_wire p) (DTLSPlaintext_size p)"
  unfolding DTLSPlaintext_encode_def record_wire_def length_dtls_msg_wire [OF assms]
  by (rule writes_eq, (rule header_writes dtls_msg_writes [OF assms] writes_intros)+)
    (use assms in \<open>simp_all add: DTLSPlaintext_size_def length_dtls_msg_wire\<close>)

lemma length_record_wire: "dtls_msg_ok (pt_msg p) \<Longrightarrow> length (record_wire p) = DTLSPlaintext_size p"
  by (simp add: record_wire_def DTLSPlaintext_size_def length_dtls_msg_wire)

section \<open>Decoding the wire format\<close>

declare extension_loop.simps [simp del]

lemma rdn_at: "n = length a \<Longrightarrow> k = length b \<Longrightarrow> rdn (a @ b @ c) n k = Ok b"
  by simp

lemma rd8_at: "n = length a \<Longrightarrow> rd8 (a @ x # c) n = Ok x"
  by simp

lemma drop_at: "n = length a \<Longrightarrow> drop n (a @ c) = c"
  by simp

lemma version_decode_wire: "DtlsProtocolVersion_decode (fst v # snd v # rest) = Ok (v, 2)"
  by (simp add: DtlsProtocolVersion_decode_def)

lemma DtlsHeader_decode_wire:
  assumes "unat (hd_sequence_number h) < 2 ^ 48"
  shows "DtlsHeader_decode (dtls_header_wire h @ rest) = Ok (h, 13)"
proof -
  have "unbe (be 6 (unat (hd_sequence_number h))) = unat (hd_sequence_number h)"
    using assms by (intro unbe_be_small) simp
  then show ?thesis
    by (simp add: DtlsHeader_decode_def dtls_header_wire_def version_decode_wire)
qed

lemma Random_decode_wire:
  assumes "length (random_bytes r) = 28"
  shows "Random_decode (random_wire r @ rest) = Ok (Random_stored r, 32)"
  using assms by (simp add: Random_decode_def random_wire_def Random_stored_def)

lemma srtp_profile_loop_wire:
  "2 * length ps \<le> len \<Longrightarrow> srtp_profile_loop (length ps) len (concat (map (\<lambda>p. be 2 (unat p)) ps) @ rest) = Ok ps"
  by (induction ps arbitrary: len) simp_all

lemma UseSRtpExt_decode_wire:
  assumes "UseSRtpExt_size e < 32768"
  shows "UseSRtpExt_decode (use_srtp_wire e @ rest)
    = Ok (e\<lparr>srtp_mki := of_nat (length (srtp_mki e)) # srtp_mki e\<rparr>, UseSRtpExt_size e)"
proof -
  define n where "n = length (srtp_profiles e)"
  define m where "m = length (srtp_mki e)"
  define P where "P = concat (map (\<lambda>p. be 2 (unat p)) (srtp_profiles e))"
  have b: "6 + 2 * n + m + 1 < 32768" using assms by (simp add: UseSRtpExt_size_def n_def m_def)
  have w: "use_srtp_wire e @ rest = be 2 14 @ be 2 (3 + 2 * n + m) @ be 2 (2 * n) @ P @ (of_nat m # srtp_mki e) @ rest"
    by (simp add: use_srtp_wire_def n_def m_def P_def)
  have lP: "length P = 2 * n" by (simp add: P_def n_def length_be_concat)
  have "(of_nat (3 + 2 * n + m) :: u16) - (of_nat (2 * n) + 2) = of_nat (1 + m)" by simp
  moreover have "sint (of_nat (1 + m) :: u16) = 1 + int m"
    using b by (simp only: signed_of_nat) (simp add: signed_take_bit_int_eq_self)
  ultimately have sl: "sint ((of_nat (3 + 2 * n + m) :: u16) - (of_nat (2 * n) + 2)) = 1 + int m" by (simp only:)
  have h: "DtlsExtensionHeader_decode (length (use_srtp_wire e @ rest)) (use_srtp_wire e @ rest) = Ok ((14, of_nat (3 + 2 * n + m)), 4)"
    unfolding w using b by (simp add: DtlsExtensionHeader_decode_def lP)
  have l: "rdn (use_srtp_wire e @ rest) 4 2 = Ok (be 2 (2 * n))" unfolding w by simp
  have u: "unbe (be 2 (2 * n)) = 2 * n" using b by simp
  have "srtp_profile_loop (length (srtp_profiles e)) (length (use_srtp_wire e @ rest) - 6) (P @ (of_nat m # srtp_mki e) @ rest)
      = Ok (srtp_profiles e)"
    unfolding P_def by (rule srtp_profile_loop_wire) (simp add: w lP n_def)
  then have p: "srtp_profile_loop n (length (use_srtp_wire e @ rest) - 6) (drop 6 (use_srtp_wire e @ rest)) = Ok (srtp_profiles e)"
    unfolding w by (simp add: n_def)
  have k: "rdn (use_srtp_wire e @ rest) (6 + 2 * n) (1 + m) = Ok (of_nat m # srtp_mki e)"
    unfolding w by (simp add: lP m_def)
  have "\<not> length (use_srtp_wire e @ rest) - 4 < 2" unfolding w by (simp add: lP)
  then show ?thesis
    unfolding UseSRtpExt_decode_def h l obind.simps or_code.simps prod.case Let_def u sl
    using p k by (simp add: UseSRtpExt_size_def n_def m_def nat_add_distrib)
qed

lemma extension_loop_wire:
  assumes "\<forall>e \<in> set es. UseSRtpExt_size e < 32768" "sum_list (map UseSRtpExt_size es) < 65536"
  shows "extension_loop (of_nat (sum_list (map UseSRtpExt_size es))) (length pre) (pre @ concat (map use_srtp_wire es) @ rest)
    = Ok (length pre + sum_list (map UseSRtpExt_size es))"
  using assms
proof (induction es arbitrary: pre)
  case Nil
  then show ?case by (subst extension_loop.simps) simp
next
  case (Cons e es)
  let ?s = "sum_list (map UseSRtpExt_size es)" and ?d = "pre @ concat (map use_srtp_wire (e # es)) @ rest"
  have pos: "0 < UseSRtpExt_size e" by (simp add: UseSRtpExt_size_def)
  have "unat (of_nat (UseSRtpExt_size e + ?s) :: u16) = UseSRtpExt_size e + ?s"
    by (simp only: unat_of_nat) (use Cons.prems(2) in simp)
  then have nz: "(of_nat (UseSRtpExt_size e + ?s) :: u16) \<noteq> 0" using pos by (metis add_is_0 less_irrefl unat_0)
  have "use_srtp_wire e = be 2 14 @ drop 2 (use_srtp_wire e)" by (simp add: use_srtp_wire_def)
  then have ty: "rdn (use_srtp_wire e @ r) 0 2 = Ok (be 2 14)" for r by (metis append_assoc length_be append_eq_conv_conj rdn_Ok le_add1 length_append add_0 drop_0)
  have turn: "extension_turn k (drop (length pre) ?d) = Ok (UseSRtpExt_size e)" for k
    using Cons.prems(1) ty UseSRtpExt_decode_wire [of e "concat (map use_srtp_wire es) @ rest"]
    by (simp add: extension_turn_def Let_def)
  have "extension_loop (of_nat (UseSRtpExt_size e + ?s)) (length pre) ?d
      = extension_loop (of_nat ?s) (length (pre @ use_srtp_wire e)) ((pre @ use_srtp_wire e) @ concat (map use_srtp_wire es) @ rest)"
    by (subst extension_loop.simps) (use nz turn in \<open>simp add: length_use_srtp_wire\<close>)
  also have "\<dots> = Ok (length (pre @ use_srtp_wire e) + ?s)" using Cons by (intro Cons.IH) auto
  finally show ?case by (simp add: length_use_srtp_wire)
qed

lemma DtlsExtension_decode_wire:
  assumes "\<forall>e \<in> set es. UseSRtpExt_size e < 32768" "sum_list (map UseSRtpExt_size es) < 65536" "es \<noteq> []"
  shows "DtlsExtension_decode (extensions_wire es @ rest) = Ok (DtlsExtension_size es)"
  using extension_loop_wire [OF assms(1,2), of "be 2 (sum_list (map UseSRtpExt_size es))" rest] assms(2,3)
  by (simp add: DtlsExtension_decode_def extensions_wire_def DtlsExtension_size_def)

text \<open>A server hello as its receiver sees it: the random is complete and the extensions are dropped.\<close>

definition received_hello :: "server_hello_msg \<Rightarrow> server_hello_msg" where
  "received_hello m = m\<lparr>sh_random := Random_stored (sh_random m), sh_extensions := []\<rparr>"

definition hello_ok :: "server_hello_msg \<Rightarrow> bool" where
  "hello_ok m \<longleftrightarrow> length (random_bytes (sh_random m)) = 28 \<and> length (sh_session_id m) < 256
     \<and> (\<forall>e \<in> set (sh_extensions m). UseSRtpExt_size e < 32768) \<and> sum_list (map UseSRtpExt_size (sh_extensions m)) < 65536"

lemma ServerHello_decode_wire:
  assumes "hello_ok m"
  shows "ServerHello_decode (body_wire (ServerHello m)) = Ok (received_hello m, length (body_wire (ServerHello m)))"
proof -
  define S where "S = sh_session_id m"
  define X where "X = extensions_wire (sh_extensions m)"
  define R where "R = random_wire (sh_random m)"
  have l: "length R = 32" "length S < 256" using assms by (simp_all add: R_def S_def random_wire_def hello_ok_def)
  have us: "unat (of_nat (length S) :: byte) = length S" using l(2) by (simp add: unat_of_nat)
  let ?w = "[fst (server_version m), snd (server_version m)] @ R @ [of_nat (length S)] @ S @ be 2 (unat (sh_cipher_suite m))
     @ [sh_compression_method m] @ X"
  have w: "body_wire (ServerHello m) = ?w" by (simp add: R_def S_def X_def)
  have v: "DtlsProtocolVersion_decode ?w = Ok (server_version m, 2)"
    by (simp add: version_decode_wire)
  have r: "Random_decode (drop 2 ?w) = Ok (Random_stored (sh_random m), 32)"
    using Random_decode_wire [of "sh_random m"] assms by (simp add: R_def hello_ok_def)
  let ?v = "[fst (server_version m), snd (server_version m)]" and ?l = "[of_nat (length S)] :: bytes" and ?c = "be 2 (unat (sh_cipher_suite m))"
  have rd: "rd8 ?w 34 = Ok (of_nat (length S))" "rdn ?w 35 (length S) = Ok S" "rdn ?w (35 + length S) 2 = Ok ?c"
    "rd8 ?w (35 + length S + 2) = Ok (sh_compression_method m)" "drop (35 + length S + 3) ?w = X"
    using rd8_at [of 34 "?v @ R" "of_nat (length S)" "S @ ?c @ [sh_compression_method m] @ X"]
      rdn_at [of 35 "?v @ R @ ?l" "length S" S "?c @ [sh_compression_method m] @ X"]
      rdn_at [of "35 + length S" "?v @ R @ ?l @ S" 2 ?c "[sh_compression_method m] @ X"]
      rd8_at [of "35 + length S + 2" "?v @ R @ ?l @ S @ ?c" "sh_compression_method m" X]
      drop_at [of "35 + length S + 3" "?v @ R @ ?l @ S @ ?c @ [sh_compression_method m]" X] l(1) by simp_all
  have x: "X \<noteq> [] \<Longrightarrow> DtlsExtension_decode X = Ok (length X)"
  proof -
    assume "X \<noteq> []"
    then have "sh_extensions m \<noteq> []" by (auto simp: X_def extensions_wire_def)
    then show ?thesis using DtlsExtension_decode_wire [of "sh_extensions m" "[]"] assms
      by (simp add: X_def hello_ok_def length_extensions_wire)
  qed
  have lw: "length ?w = 38 + length S + length X" using l(1) by simp
  show ?thesis unfolding w ServerHello_decode_def v r obind.simps or_code.simps prod.case rd us Let_def lw
    using x by (cases "X = []") (simp_all add: received_hello_def S_def)
qed

lemma HandShake_decode_wire:
  assumes "handshake_body_decode (msg_type h) (body_wire (hs_msg h)) = Ok (b, c)"
  shows "HandShake_decode (handshake_wire h) = Ok (h\<lparr>hs_msg := b\<rparr>, 12 + c)"
proof -
  let ?n = "be 3 (length (body_wire (hs_msg h)))" and ?s = "be 2 (unat (message_seq h))"
  have w: "handshake_wire h = ([msg_type h] @ ?n) @ ?s @ be 3 0 @ ?n @ body_wire (hs_msg h)" by (simp add: handshake_wire_def)
  have "rdn (handshake_wire h) 4 2 = Ok ?s" unfolding w by (rule rdn_at) simp_all
  moreover have "rd8 (handshake_wire h) 0 = Ok (msg_type h)" "drop 12 (handshake_wire h) = body_wire (hs_msg h)"
    "length (handshake_wire h) = 12 + length (body_wire (hs_msg h))" unfolding w by simp_all
  ultimately show ?thesis using assms by (simp add: HandShake_decode_def)
qed

lemma DTLSPlaintext_decode_wire:
  assumes "hd_epoch (pt_header p) = 0" "unat (hd_sequence_number (pt_header p)) < 2 ^ 48"
    and "hd_type (pt_header p) = handshake" "pt_msg p = HandShake h"
    and "HandShake_decode (handshake_wire h) = Ok (h', length (handshake_wire h))"
  shows "DTLSPlaintext_decode (record_wire p)
    = Ok (\<lparr>pt_header = (pt_header p)\<lparr>hd_length := of_nat (length (handshake_wire h))\<rparr>, pt_msg = HandShake h'\<rparr>,
          length (record_wire p))"
proof -
  let ?h = "(pt_header p)\<lparr>hd_length := of_nat (length (handshake_wire h))\<rparr>"
  have w: "record_wire p = dtls_header_wire ?h @ handshake_wire h" using assms(4) by (simp add: record_wire_def)
  have "DtlsHeader_decode (record_wire p) = Ok (?h, 13)"
    unfolding w using assms(2) by (intro DtlsHeader_decode_wire) simp
  then show ?thesis using assms by (simp add: DTLSPlaintext_decode_def w Let_def)
qed

section \<open>Properties\<close>

text \<open>Every record of the server's flights fills the buffer that was allocated for it exactly: no
  encoder writes past it or fails, the bytes are those of the wire format, and the length fields
  are right.\<close>

theorem dtls_records_fill_their_buffer:
  assumes "dtls_msg_ok (pt_msg p)" "length buf = DTLSPlaintext_size p"
  shows "DTLSPlaintext_encode p (buf, 0) = Ok (record_wire p, DTLSPlaintext_size p)
    \<and> length (record_wire p) = 13 + dtls_msg_size (pt_msg p)"
  using writes_exact [of "DTLSPlaintext_encode p" "record_wire p" buf] record_writes [OF assms(1)] assms
  by (simp_all add: length_record_wire DTLSPlaintext_size_def)

definition demo_server_hello :: server_hello_msg where
  "demo_server_hello = \<lparr>server_version = DTLS_1_2,
     sh_random = \<lparr>gmt_unix_time = 7, random_bytes = replicate 28 9, random_raw = []\<rparr>, sh_session_id = [],
     sh_cipher_suite = 0x002F, sh_compression_method = 0,
     sh_extensions = [\<lparr>srtp_profiles = [SRTP_AES128_CM_HMAC_SHA1_80], srtp_mki = []\<rparr>]\<rparr>"

definition demo_hello_record :: dtls_plaintext where
  "demo_hello_record = \<lparr>pt_header = \<lparr>hd_type = handshake, hd_version = DTLS_1_2, hd_epoch = 0, hd_sequence_number = 1, hd_length = 0\<rparr>,
     pt_msg = HandShake \<lparr>msg_type = server_hello, message_seq = 1, hs_msg = ServerHello demo_server_hello\<rparr>\<rparr>"

theorem dtls_records_fill_their_buffer_witness:
  "DTLSPlaintext_encode demo_hello_record (replicate 74 0, 0) = Ok (record_wire demo_hello_record, 74)"
proof -
  have "DTLSPlaintext_size demo_hello_record = 74" "dtls_msg_ok (pt_msg demo_hello_record)" by code_simp+
  then show ?thesis using dtls_records_fill_their_buffer [of demo_hello_record "replicate 74 0"] by simp
qed

text \<open>A server hello record decodes to the hello that was sent, with the 32 bytes of its random, and
  is consumed entirely; its extensions are parsed but dropped.\<close>

theorem server_hello_round_trip:
  assumes "hello_ok m" "hd_epoch h = 0" "unat (hd_sequence_number h) < 2 ^ 48" "hd_type h = handshake"
  shows "DTLSPlaintext_decode (record_wire \<lparr>pt_header = h, pt_msg = HandShake \<lparr>msg_type = server_hello, message_seq = k, hs_msg = ServerHello m\<rparr>\<rparr>)
    = Ok (\<lparr>pt_header = h\<lparr>hd_length := of_nat (12 + ServerHello_size m)\<rparr>,
            pt_msg = HandShake \<lparr>msg_type = server_hello, message_seq = k, hs_msg = ServerHello (received_hello m)\<rparr>\<rparr>,
          25 + ServerHello_size m)"
proof -
  let ?hs = "\<lparr>msg_type = server_hello, message_seq = k, hs_msg = ServerHello m\<rparr>"
  have sz: "length (body_wire (ServerHello m)) = ServerHello_size m"
    using length_body_wire [of "ServerHello m"] assms(1) by (simp add: hello_ok_def)
  have "handshake_body_decode server_hello (body_wire (ServerHello m)) = Ok (ServerHello (received_hello m), ServerHello_size m)"
    using ServerHello_decode_wire [OF assms(1)] sz by (simp add: handshake_body_decode_def as_body_def)
  then have "HandShake_decode (handshake_wire ?hs) = Ok (?hs\<lparr>hs_msg := ServerHello (received_hello m)\<rparr>, 12 + ServerHello_size m)"
    by (intro HandShake_decode_wire) simp
  moreover have "length (handshake_wire ?hs) = 12 + ServerHello_size m" using sz by (simp add: handshake_wire_def)
  ultimately show ?thesis
    using DTLSPlaintext_decode_wire [of "\<lparr>pt_header = h, pt_msg = HandShake ?hs\<rparr>" ?hs] assms(2-4)
    by (simp add: record_wire_def)
qed

theorem server_hello_round_trip_witness:
  "\<exists>p. DTLSPlaintext_decode (record_wire demo_hello_record) = Ok (p, 74)
    \<and> pt_msg p = HandShake \<lparr>msg_type = server_hello, message_seq = 1, hs_msg = ServerHello (received_hello demo_server_hello)\<rparr>"
proof -
  have "hello_ok demo_server_hello" "ServerHello_size demo_server_hello = 49" by code_simp+
  then show ?thesis
    using server_hello_round_trip [of demo_server_hello "pt_header demo_hello_record" 1] by (simp add: demo_hello_record_def)
qed

end
