(* ===== verification/Dtls_Record.thy ===== *)
theory Dtls_Record
  imports Dtls_Define
begin

text \<open>
  Key derivation and the protected records of \<open>src/server/dtls\<close>: the pseudo-random function
  (\<open>tls_prf.cpp\<close>), the key block of the cipher suite (\<open>RSA_AES128_SHA1_Cipher\<close>), and the block-cipher
  record (\<open>GenericBlockCipher\<close>, \<open>DTLSCiperText\<close> of \<open>dtls_define.h\<close>).

  The primitives come from OpenSSL and are the fields of the record \<open>dtls_crypto\<close>; \<open>crypto_ok\<close> states
  what their documentation promises: the lengths of the digests, and that CBC decryption inverts
  encryption on whole blocks.  The source derives keys in a loop that ends because every HMAC is 32
  bytes long; the model gives the loop one turn per byte needed, which is more than enough
  (\<open>length_PRF\<close>).  A string constructor that is given a negative length throws; nothing catches it, so
  it is a \<open>Fault\<close> as well.
\<close>

section \<open>Primitives\<close>

record dtls_crypto =
  hmac_sha1 :: "bytes \<Rightarrow> bytes \<Rightarrow> bytes"
  hmac_sha256 :: "bytes \<Rightarrow> bytes \<Rightarrow> bytes"
  sha256_digest :: "bytes \<Rightarrow> bytes"
  aes_cbc_encrypt :: "bytes \<Rightarrow> bytes \<Rightarrow> bytes \<Rightarrow> bytes"
  aes_cbc_decrypt :: "bytes \<Rightarrow> bytes \<Rightarrow> bytes \<Rightarrow> bytes"
  rsa_size :: nat
  rsa_private_decrypt :: "bytes \<Rightarrow> bytes option"

definition crypto_ok :: "dtls_crypto \<Rightarrow> bool" where
  "crypto_ok c \<longleftrightarrow> (\<forall>k d. length (hmac_sha1 c k d) = 20) \<and> (\<forall>k d. length (hmac_sha256 c k d) = 32)
     \<and> (\<forall>k iv d. length (aes_cbc_encrypt c k iv d) = length d) \<and> (\<forall>k iv d. length (aes_cbc_decrypt c k iv d) = length d)
     \<and> (\<forall>k iv d. 16 dvd length d \<longrightarrow> aes_cbc_decrypt c k iv (aes_cbc_encrypt c k iv d) = d)"

section \<open>The pseudo-random function\<close>

fun prf_loop :: "nat \<Rightarrow> dtls_crypto \<Rightarrow> bytes \<Rightarrow> bytes \<Rightarrow> nat \<Rightarrow> bytes \<Rightarrow> bytes \<Rightarrow> bytes" where
  "prf_loop 0 c secret ls need_bytes Ai0 out = out"
| "prf_loop (Suc fuel) c secret ls need_bytes Ai0 out =
     (if length out < need_bytes
      then let Ai1 = hmac_sha256 c secret Ai0 in
        prf_loop fuel c secret ls need_bytes Ai1 (out @ hmac_sha256 c secret (Ai1 @ ls))
      else out)"

definition PRF :: "dtls_crypto \<Rightarrow> bytes \<Rightarrow> string \<Rightarrow> bytes \<Rightarrow> nat \<Rightarrow> bytes" where
  "PRF c secret label seed need_bytes =
     take need_bytes (prf_loop need_bytes c secret (bytes_of_str label @ seed) need_bytes (bytes_of_str label @ seed) [])"

text \<open>The definition of RFC 5246, section 5.\<close>

primrec prf_A :: "dtls_crypto \<Rightarrow> bytes \<Rightarrow> bytes \<Rightarrow> nat \<Rightarrow> bytes" where
  "prf_A c secret seed 0 = seed"
| "prf_A c secret seed (Suc i) = hmac_sha256 c secret (prf_A c secret seed i)"

definition P_hash :: "dtls_crypto \<Rightarrow> bytes \<Rightarrow> bytes \<Rightarrow> nat \<Rightarrow> bytes" where
  "P_hash c secret seed k = concat (map (\<lambda>i. hmac_sha256 c secret (prf_A c secret seed i @ seed)) [1..<Suc k])"

lemma length_P_hash: "crypto_ok c \<Longrightarrow> length (P_hash c secret seed k) = 32 * k"
  by (induction k) (simp_all add: P_hash_def crypto_ok_def)

lemma P_hash_Suc: "P_hash c secret seed (Suc k)
    = P_hash c secret seed k @ hmac_sha256 c secret (prf_A c secret seed (Suc k) @ seed)"
  by (simp add: P_hash_def)

lemma P_hash_add: "\<exists>r. P_hash c secret seed (j + i) = P_hash c secret seed j @ r"
  by (induction i) (auto simp: P_hash_Suc)

lemma prf_loop_P_hash:
  assumes "crypto_ok c" "need_bytes \<le> 32 * (j + fuel)"
  shows "\<exists>k \<ge> j. need_bytes \<le> 32 * k \<and>
    prf_loop fuel c secret s need_bytes (prf_A c secret s j) (P_hash c secret s j) = P_hash c secret s k"
  using assms(2)
proof (induction fuel arbitrary: j)
  case 0
  then show ?case by auto
next
  case (Suc fuel)
  show ?case
  proof (cases "length (P_hash c secret s j) < need_bytes")
    case True
    have "\<exists>k \<ge> Suc j. need_bytes \<le> 32 * k \<and>
        prf_loop fuel c secret s need_bytes (prf_A c secret s (Suc j)) (P_hash c secret s (Suc j)) = P_hash c secret s k"
      using Suc.prems by (intro Suc.IH) simp
    then show ?thesis using True by (auto simp: P_hash_Suc Let_def dest: Suc_leD)
  next
    case False
    then show ?thesis using length_P_hash [OF assms(1), of secret s j] by auto
  qed
qed

lemma PRF_P_hash:
  assumes "crypto_ok c" "n \<le> 32 * k"
  shows "PRF c secret label seed n = take n (P_hash c secret (bytes_of_str label @ seed) k)"
proof -
  let ?s = "bytes_of_str label @ seed"
  obtain k' where k': "n \<le> 32 * k'" "prf_loop n c secret ?s n ?s [] = P_hash c secret ?s k'"
    using prf_loop_P_hash [OF assms(1), of n 0 n secret ?s] by (auto simp: P_hash_def)
  have ext: "take n (P_hash c secret ?s a) = take n (P_hash c secret ?s (a + b))" if "n \<le> 32 * a" for a b
    using P_hash_add [of c secret ?s a b] length_P_hash [OF assms(1), of secret ?s a] that by auto
  have "take n (P_hash c secret ?s k') = take n (P_hash c secret ?s k)"
  proof (cases "k \<le> k'")
    case True
    then show ?thesis using ext [OF assms(2), of "k' - k"] by (simp only: le_add_diff_inverse)
  next
    case False
    then show ?thesis using ext [OF k'(1), of "k - k'"] by (simp only: le_add_diff_inverse nat_le_linear)
  qed
  then show ?thesis by (simp add: PRF_def k'(2))
qed

lemma length_PRF: "crypto_ok c \<Longrightarrow> length (PRF c secret label seed n) = n"
  using PRF_P_hash [of c n n secret label seed] length_P_hash [of c secret _ n] by simp

section \<open>The cipher suite\<close>

record ciper_suite =
  is_client :: bool
  client_write_MAC_key :: bytes
  server_write_MAC_key :: bytes
  client_write_key :: bytes
  server_write_key :: bytes
  client_write_IV :: bytes
  server_write_IV :: bytes

abbreviation (input) mac_length :: nat where "mac_length \<equiv> 20"
abbreviation (input) mac_key_length :: nat where "mac_key_length \<equiv> 20"
abbreviation (input) record_iv_length :: nat where "record_iv_length \<equiv> 16"
abbreviation (input) enc_key_length :: nat where "enc_key_length \<equiv> 16"
abbreviation (input) block_size :: nat where "block_size \<equiv> 16"

definition RSA_AES128_SHA1_Cipher :: ciper_suite where
  "RSA_AES128_SHA1_Cipher = \<lparr>is_client = False, client_write_MAC_key = [], server_write_MAC_key = [],
     client_write_key = [], server_write_key = [], client_write_IV = [], server_write_IV = []\<rparr>"

definition slice :: "nat \<Rightarrow> nat \<Rightarrow> bytes \<Rightarrow> bytes" where
  "slice off n d = take n (drop off d)"

definition ciper_init :: "dtls_crypto \<Rightarrow> bytes \<Rightarrow> bytes \<Rightarrow> bytes \<Rightarrow> bool \<Rightarrow> ciper_suite \<Rightarrow> ciper_suite" where
  "ciper_init c master_secret client_random server_random client s =
     (let seed = take 32 server_random @ take 32 client_random;
          key_block = PRF c master_secret ''key expansion'' seed (2 * (mac_key_length + enc_key_length + record_iv_length)) in
      s\<lparr>is_client := client,
        client_write_MAC_key := slice 0 mac_key_length key_block, server_write_MAC_key := slice 20 mac_key_length key_block,
        client_write_key := slice 40 enc_key_length key_block, server_write_key := slice 56 enc_key_length key_block,
        client_write_IV := slice 72 record_iv_length key_block, server_write_IV := slice 88 record_iv_length key_block\<rparr>)"

text \<open>\<open>AES_set_decrypt_key\<close> and \<open>AES_set_encrypt_key\<close> read sixteen bytes of the key.\<close>

definition ciper_decrypt :: "dtls_crypto \<Rightarrow> ciper_suite \<Rightarrow> bytes \<Rightarrow> bytes \<Rightarrow> bytes outcome" where
  "ciper_decrypt c s iv d =
     (let key = if is_client s then server_write_key s else client_write_key s in
      obind (rdn key 0 enc_key_length) (\<lambda>key. Ok (aes_cbc_decrypt c key iv d)))"

definition ciper_encrypt :: "dtls_crypto \<Rightarrow> ciper_suite \<Rightarrow> bytes \<Rightarrow> bytes \<Rightarrow> bytes outcome" where
  "ciper_encrypt c s iv d =
     (let key = if is_client s then client_write_key s else server_write_key s in
      obind (rdn key 0 enc_key_length) (\<lambda>key. Ok (aes_cbc_encrypt c key iv d)))"

section \<open>Protected records\<close>

definition mac_input :: "bytes \<Rightarrow> bytes \<Rightarrow> bytes" where
  "mac_input hdr content = slice 3 8 hdr @ slice 0 1 hdr @ slice 1 2 hdr @ be 2 (length content) @ content"

text \<open>What the decrypted text is taken apart into: content and MAC.  \<open>pos\<close> and the padding length come from
  the text itself and are not checked against its length.\<close>

definition block_split :: "bytes \<Rightarrow> (bytes \<times> bytes) outcome" where
  "block_split out =
     (if out = [] then Fault
      else
        let padding_length = unat (last out); pos = length out - 1 in
        if pos < padding_length then Fault
        else
          let pos = pos - padding_length in
          if pos < mac_key_length then Fault
          else Ok (take (pos - mac_key_length) out, slice (pos - mac_key_length) mac_key_length out))"

text \<open>The result code and the content; \<open>d\<close> is the whole record, the header included.\<close>

definition GenericBlockCipher_decode :: "dtls_crypto \<Rightarrow> ciper_suite \<Rightarrow> dtls_header \<Rightarrow> bytes \<Rightarrow> (int \<times> bytes) outcome" where
  "GenericBlockCipher_decode c s h d =
     (if length d - 13 < 16 then Ok (-1, [])
      else obind (rdn d 13 16) (\<lambda>iv.
        if hd_length h < 16 then Fault
        else obind (rdn d 29 (unat (hd_length h) - 16)) (\<lambda>enc.
          obind (ciper_decrypt c s iv enc) (\<lambda>out.
            obind (block_split out) (\<lambda>(content, MAC).
              if hmac_sha1 c (client_write_MAC_key s) (mac_input d content) \<noteq> MAC then Ok (-2, content)
              else Ok (int (unat (hd_length h)), content))))))"

definition DTLSCiperText_decode :: "dtls_crypto \<Rightarrow> ciper_suite \<Rightarrow> bytes \<Rightarrow> (int \<times> bytes) outcome" where
  "DTLSCiperText_decode c s d =
     (case DtlsHeader_decode d of
        Fault \<Rightarrow> Fault
      | Err _ \<Rightarrow> Ok (-1, [])
      | Ok (h, consumed) \<Rightarrow>
          obind (GenericBlockCipher_decode c s h d) (\<lambda>(rc, content).
            if rc < 0 then Ok (-2, content) else Ok (int consumed + rc, content)))"

definition block_cipered_size :: "bytes \<Rightarrow> nat" where
  "block_cipered_size content = ((length content + mac_length) div block_size + 1) * block_size"

definition GenericBlockCipher_size :: "bytes \<Rightarrow> nat" where
  "GenericBlockCipher_size content = record_iv_length + block_cipered_size content"

definition DTLSCiperText_size :: "bytes \<Rightarrow> nat" where
  "DTLSCiperText_size content = 13 + GenericBlockCipher_size content"

text \<open>\<open>iv\<close> is the fresh random vector.  Initialisation vector and cipher text are copied behind the header
  without a check of the room.\<close>

definition DTLSCiperText_encode :: "dtls_crypto \<Rightarrow> ciper_suite \<Rightarrow> bytes \<Rightarrow> dtls_header \<Rightarrow> bytes \<Rightarrow> writer" where
  "DTLSCiperText_encode c s iv h content = (\<lambda>(buf, pos).
     let cipered_size = GenericBlockCipher_size content in
     obind (call (-1) (DtlsHeader_encode (h\<lparr>hd_length := of_nat cipered_size\<rparr>)) (buf, pos)) (\<lambda>(buf, p).
       let MAC = hmac_sha1 c (server_write_MAC_key s) (mac_input (slice pos 13 buf) content);
           padding_length = (of_nat (cipered_size - record_iv_length - length content - length MAC) :: byte);
           pre_enc_data = content @ MAC @ replicate (unat padding_length) (padding_length - 1) in
       obind (ciper_encrypt c s iv pre_enc_data) (\<lambda>out.
         obind (steps [put iv, put out] (buf, p)) (\<lambda>(buf, _). Ok (buf, p + cipered_size)))))"

section \<open>Lemmas\<close>

definition padding_for :: "bytes \<Rightarrow> nat" where
  "padding_for content = block_cipered_size content - (length content + mac_length)"

lemma padding_for: "1 \<le> padding_for content" "padding_for content \<le> 16"
  "length content + 20 + padding_for content = block_cipered_size content" "16 dvd block_cipered_size content"
proof -
  define m where "m = length content + 20"
  have "(m div 16 + 1) * 16 = m - m mod 16 + 16" by (simp add: minus_mod_eq_mult_div)
  moreover have "m mod 16 < 16" "m mod 16 \<le> m" by simp_all
  ultimately show "1 \<le> padding_for content" "padding_for content \<le> 16"
    "length content + 20 + padding_for content = block_cipered_size content"
    unfolding padding_for_def block_cipered_size_def m_def [symmetric] by linarith+
  show "16 dvd block_cipered_size content" by (simp add: block_cipered_size_def)
qed

lemma block_split_padded:
  assumes "length MAC = 20" "1 \<le> pl" "pl \<le> 16"
  shows "block_split (content @ MAC @ replicate pl (of_nat pl - 1)) = Ok (content, MAC)"
proof -
  let ?out = "content @ MAC @ replicate pl (of_nat pl - 1)"
  have "last ?out = of_nat pl - 1" using assms(2) by simp
  moreover have "(of_nat pl - 1 :: byte) = of_nat (pl - 1)" using assms(2) by (simp add: of_nat_diff)
  ultimately have last: "unat (last ?out) = pl - 1" using assms(3) by (simp add: unat_of_nat)
  have len: "length ?out = length content + 20 + pl" using assms(1) by simp
  have "?out \<noteq> []" using assms(2) by auto
  then show ?thesis unfolding block_split_def Let_def last len
    using assms by (simp add: slice_def)
qed

text \<open>The bytes of a protected record.\<close>

definition ciper_wire :: "dtls_crypto \<Rightarrow> ciper_suite \<Rightarrow> bytes \<Rightarrow> dtls_header \<Rightarrow> bytes \<Rightarrow> bytes" where
  "ciper_wire c s iv h content =
     (let hdr = dtls_header_wire (h\<lparr>hd_length := of_nat (GenericBlockCipher_size content)\<rparr>);
          MAC = hmac_sha1 c (server_write_MAC_key s) (mac_input hdr content);
          pl = padding_for content in
      hdr @ iv @ aes_cbc_encrypt c (server_write_key s) iv (content @ MAC @ replicate pl (of_nat pl - 1)))"

lemma length_ciper_wire:
  "crypto_ok c \<Longrightarrow> length iv = 16 \<Longrightarrow> length (ciper_wire c s iv h content) = DTLSCiperText_size content"
  using padding_for(3) [of content]
  by (simp add: ciper_wire_def Let_def crypto_ok_def DTLSCiperText_size_def GenericBlockCipher_size_def)

lemma DTLSCiperText_encode_wire:
  assumes "crypto_ok c" "length iv = 16" "length (server_write_key s) = 16" "\<not> is_client s"
    and "length buf = DTLSCiperText_size content"
  shows "DTLSCiperText_encode c s iv h content (buf, 0) = Ok (ciper_wire c s iv h content, DTLSCiperText_size content)"
proof -
  let ?h = "h\<lparr>hd_length := of_nat (GenericBlockCipher_size content)\<rparr>"
  define MAC where "MAC = hmac_sha1 c (server_write_MAC_key s) (mac_input (dtls_header_wire ?h) content)"
  define pl where "pl = padding_for content"
  define out where "out = aes_cbc_encrypt c (server_write_key s) iv (content @ MAC @ replicate pl (of_nat pl - 1))"
  have lM: "length MAC = 20" using assms(1) by (simp add: MAC_def crypto_ok_def)
  have pl: "GenericBlockCipher_size content - 16 - length content - length MAC = pl" "1 \<le> pl" "pl \<le> 16"
    using padding_for [of content] by (simp_all add: GenericBlockCipher_size_def pl_def lM)
  then have pl': "GenericBlockCipher_size content - (16 + length content + length MAC) = pl" by simp
  have lo: "length out = block_cipered_size content"
    using assms(1) padding_for(3) [of content] by (simp add: out_def crypto_ok_def lM pl_def)
  have upl: "unat (of_nat pl :: byte) = pl" using pl(3) by (simp add: unat_of_nat)
  have h: "call (-1) (DtlsHeader_encode ?h) (buf, 0) = Ok (dtls_header_wire ?h @ drop 13 buf, 13)"
    using writesD [OF writes_call [OF header_writes [of ?h], of "-1"], of buf "[]"] assms(5)
    by (simp add: DTLSCiperText_size_def)
  have enc: "ciper_encrypt c s iv (content @ MAC @ replicate pl (of_nat pl - 1)) = Ok out"
    using assms(3,4) by (simp add: ciper_encrypt_def out_def)
  have "writes (steps [put iv, put out]) (iv @ out @ []) (16 + block_cipered_size content)"
    by (rule writes_eq, (rule writes_intros)+) (simp_all add: assms(2) lo)
  from writesD [OF this, of "drop 13 buf" "dtls_header_wire ?h"] have
    p: "steps [put iv, put out] (dtls_header_wire ?h @ drop 13 buf, 13) = Ok (dtls_header_wire ?h @ iv @ out, 13 + (16 + block_cipered_size content))"
    using assms(2,5) lo by (simp add: DTLSCiperText_size_def GenericBlockCipher_size_def del: steps.simps)
  have "slice 0 13 (dtls_header_wire ?h @ drop 13 buf) = dtls_header_wire ?h" by (simp add: slice_def)
  then show ?thesis
    unfolding DTLSCiperText_encode_def Let_def prod.case h obind.simps
    using enc p by (simp add: MAC_def [symmetric] pl pl' upl ciper_wire_def Let_def out_def pl_def [symmetric] DTLSCiperText_size_def del: steps.simps)
qed

lemma DTLSCiperText_decode_wire:
  assumes "crypto_ok c" "length iv = 16" "length (server_write_key s) = 16" "GenericBlockCipher_size content < 65536"
    and "unat (hd_sequence_number h) < 2 ^ 48"
    and "\<not> is_client r" "client_write_key r = server_write_key s" "client_write_MAC_key r = server_write_MAC_key s"
  shows "DTLSCiperText_decode c r (ciper_wire c s iv h content) = Ok (int (DTLSCiperText_size content), content)"
proof -
  let ?h = "h\<lparr>hd_length := of_nat (GenericBlockCipher_size content)\<rparr>"
  define hdr where "hdr = dtls_header_wire ?h"
  define MAC where "MAC = hmac_sha1 c (server_write_MAC_key s) (mac_input hdr content)"
  define pl where "pl = padding_for content"
  define pre where "pre = content @ MAC @ replicate pl (of_nat pl - 1)"
  define enc where "enc = aes_cbc_encrypt c (server_write_key s) iv pre"
  have w: "ciper_wire c s iv h content = hdr @ iv @ enc"
    by (simp add: ciper_wire_def Let_def hdr_def MAC_def pl_def pre_def enc_def)
  have lM: "length MAC = 20" using assms(1) by (simp add: MAC_def crypto_ok_def)
  have lpre: "length pre = block_cipered_size content" using padding_for(3) [of content] by (simp add: pre_def lM pl_def)
  then have lenc: "length enc = block_cipered_size content" using assms(1) by (simp add: enc_def crypto_ok_def)
  have lh: "length hdr = 13" by (simp add: hdr_def)
  have "unat (of_nat (GenericBlockCipher_size content) :: u16) = GenericBlockCipher_size content"
    using assms(4) by (simp add: unat_of_nat)
  then have ul: "unat (hd_length ?h) = 16 + block_cipered_size content" by (simp add: GenericBlockCipher_size_def)
  have hl: "\<not> hd_length ?h < 16" using ul by (simp add: word_less_nat_alt)
  have hd: "DtlsHeader_decode (hdr @ iv @ enc) = Ok (?h, 13)"
    unfolding hdr_def using assms(5) by (intro DtlsHeader_decode_wire) simp
  have rd: "rdn (hdr @ iv @ enc) 13 16 = Ok iv" "rdn (hdr @ iv @ enc) 29 (block_cipered_size content) = Ok enc"
    using rdn_at [of 13 hdr 16 iv enc] rdn_at [of 29 "hdr @ iv" "block_cipered_size content" enc "[]"] lh lenc assms(2) by simp_all
  have "aes_cbc_decrypt c (server_write_key s) iv enc = pre"
    using assms(1) padding_for(4) [of content] lpre unfolding enc_def crypto_ok_def by metis
  then have dec: "ciper_decrypt c r iv enc = Ok pre" using assms(3,6,7) by (simp add: ciper_decrypt_def)
  have sp: "block_split pre = Ok (content, MAC)"
    unfolding pre_def using padding_for(1,2) [of content] lM by (intro block_split_padded) (simp_all add: pl_def)
  have mi: "mac_input (hdr @ iv @ enc) content = mac_input hdr content" using lh by (simp add: mac_input_def slice_def)
  have "GenericBlockCipher_decode c r ?h (hdr @ iv @ enc) = Ok (16 + int (block_cipered_size content), content)"
    unfolding GenericBlockCipher_decode_def ul
    using hl rd dec sp mi lh assms(2,8) by (simp add: MAC_def [symmetric])
  then show ?thesis unfolding w DTLSCiperText_decode_def hd
    by (simp add: DTLSCiperText_size_def GenericBlockCipher_size_def)
qed

lemma GenericBlockCipher_decode_unsplit:
  assumes "DtlsHeader_decode d = Ok (h, 13)" "29 \<le> length d" "unat (hd_length h) = length d - 13"
    and "ciper_decrypt c s (slice 13 16 d) (drop 29 d) = Ok out" "block_split out = Fault"
  shows "DTLSCiperText_decode c s d = Fault"
proof -
  have "rdn d 29 (unat (hd_length h) - 16) = Ok (drop 29 d)" using assms(2,3) by simp
  moreover have "rdn d 13 16 = Ok (slice 13 16 d)" using assms(2) by (simp add: slice_def)
  moreover have "\<not> hd_length h < 16" using assms(2,3) by (simp add: word_less_nat_alt)
  ultimately have "GenericBlockCipher_decode c s h d = Fault"
    using assms(2,4,5) by (simp add: GenericBlockCipher_decode_def)
  then show ?thesis using assms(1) by (simp add: DTLSCiperText_decode_def)
qed

section \<open>Properties\<close>

text \<open>Claim C15: The key derivation is that of RFC 5246: for every HMAC of 32 bytes the loop yields exactly the
  requested number of bytes of the expansion P\_hash.\<close>

theorem prf_is_rfc5246:
  assumes "crypto_ok c" "n \<le> 32 * k"
  shows "PRF c secret label seed n = take n (P_hash c secret (bytes_of_str label @ seed) k)
    \<and> length (PRF c secret label seed n) = n"
  using PRF_P_hash [OF assms] length_PRF [OF assms(1)] by (intro conjI)

text \<open>Small stand-ins for the primitives with the documented properties.\<close>

definition demo_mac :: "nat \<Rightarrow> bytes \<Rightarrow> bytes \<Rightarrow> bytes" where
  "demo_mac n k d = map (\<lambda>i. foldl (\<lambda>a b. 3 * a + b) (of_nat i) (k @ d)) [0..<n]"

definition demo_crypto :: dtls_crypto where
  "demo_crypto = \<lparr>hmac_sha1 = demo_mac 20, hmac_sha256 = demo_mac 32, sha256_digest = demo_mac 32 [],
     aes_cbc_encrypt = (\<lambda>k iv d. map (\<lambda>b. b + 1) d), aes_cbc_decrypt = (\<lambda>k iv d. map (\<lambda>b. b - 1) d),
     rsa_size = 64, rsa_private_decrypt = (\<lambda>d. Some (take 48 d))\<rparr>"

lemma demo_crypto_ok: "crypto_ok demo_crypto"
  by (simp add: crypto_ok_def demo_crypto_def demo_mac_def comp_def)

theorem prf_is_rfc5246_witness:
  "PRF demo_crypto [1] ''master secret'' [2] 48 = take 48 (P_hash demo_crypto [1] (bytes_of_str ''master secret'' @ [2]) 2)
    \<and> length (PRF demo_crypto [1] ''master secret'' [2] 48) = 48"
  by (rule prf_is_rfc5246 [OF demo_crypto_ok]) simp

text \<open>Claim C14: A protected record arrives: the server writes its record into exactly the announced number of
  bytes, and a receiver that holds the same two keys for that direction takes it apart again to
  the content, with the MAC verified and the padding removed, whatever the content is.\<close>

theorem protected_record_round_trip:
  assumes "crypto_ok c" "length iv = 16" "\<not> is_client s" "length (server_write_key s) = 16"
    and "GenericBlockCipher_size content < 65536" "unat (hd_sequence_number h) < 2 ^ 48"
    and "\<not> is_client r" "client_write_key r = server_write_key s" "client_write_MAC_key r = server_write_MAC_key s"
    and "length buf = DTLSCiperText_size content"
  shows "\<exists>w. DTLSCiperText_encode c s iv h content (buf, 0) = Ok (w, length buf)
    \<and> DTLSCiperText_decode c r w = Ok (int (length buf), content)"
  using DTLSCiperText_encode_wire [OF assms(1,2,4,3,10), of h]
    DTLSCiperText_decode_wire [OF assms(1,2,4,5,6,7,8,9)] assms(10) by simp

definition demo_suite :: ciper_suite where
  "demo_suite = ciper_init demo_crypto [1, 2, 3] (replicate 32 4) (replicate 32 5) False RSA_AES128_SHA1_Cipher"

definition mirrored :: "ciper_suite \<Rightarrow> ciper_suite" where
  "mirrored s = s\<lparr>client_write_key := server_write_key s, client_write_MAC_key := server_write_MAC_key s\<rparr>"

lemma demo_suite_key: "length (server_write_key demo_suite) = 16" "\<not> is_client demo_suite"
  by (simp_all add: demo_suite_def ciper_init_def Let_def slice_def length_PRF [OF demo_crypto_ok])

theorem protected_record_round_trip_witness:
  "\<exists>w. DTLSCiperText_encode demo_crypto demo_suite (replicate 16 7) (pt_header demo_hello_record) [1, 2, 3] (replicate 61 0, 0) = Ok (w, 61)
    \<and> DTLSCiperText_decode demo_crypto (mirrored demo_suite) w = Ok (61, [1, 2, 3])"
proof -
  have "unat (hd_sequence_number (pt_header demo_hello_record)) < 2 ^ 48" by (simp add: demo_hello_record_def)
  then show ?thesis
    using protected_record_round_trip [OF demo_crypto_ok, of "replicate 16 7" demo_suite "[1, 2, 3]" "pt_header demo_hello_record"
        "mirrored demo_suite" "replicate 61 0"] demo_suite_key
    by (simp add: mirrored_def DTLSCiperText_size_def GenericBlockCipher_size_def block_cipered_size_def)
qed

text \<open>The padding length is trusted before the MAC is checked: a record whose decrypted text ends in
  a byte that leaves no room for the MAC makes the receiver read in front of the text, and so does
  an empty text; a record whose length field is below 16 raises an exception.\<close>

theorem record_padding_overread:
  assumes "DtlsHeader_decode d = Ok (h, 13)" "29 \<le> length d"
    and "hd_length h < 16 \<or> unat (hd_length h) = length d - 13 \<and> ciper_decrypt c s (slice 13 16 d) (drop 29 d) = Ok out
      \<and> (out = [] \<or> length out < unat (last out) + 21)"
  shows "DTLSCiperText_decode c s d = Fault"
proof (cases "hd_length h < 16")
  case True
  then show ?thesis using assms(1,2) by (simp add: DTLSCiperText_decode_def GenericBlockCipher_decode_def)
next
  case False
  then have o: "unat (hd_length h) = length d - 13" "ciper_decrypt c s (slice 13 16 d) (drop 29 d) = Ok out"
    "out = [] \<or> length out < unat (last out) + 21" using assms(3) by blast+
  have "block_split out = Fault" using o(3) by (auto simp: block_split_def Let_def)
  then show ?thesis using GenericBlockCipher_decode_unsplit [OF assms(1,2) o(1,2)] by simp
qed

theorem record_padding_overread_witness:
  "DTLSCiperText_decode demo_crypto demo_suite ([22, 0xfe, 0xfd, 0, 1, 0, 0, 0, 0, 0, 0, 0, 3] @ replicate 16 0) = Fault"
proof -
  let ?d = "[22, 0xfe, 0xfd, 0, 1, 0, 0, 0, 0, 0, 0, 0, 3] @ replicate 16 0 :: bytes"
  have "DtlsHeader_decode ?d = Ok (\<lparr>hd_type = 22, hd_version = DTLS_1_2, hd_epoch = 1, hd_sequence_number = 0, hd_length = 3\<rparr>, 13)"
    by code_simp
  from record_padding_overread [OF this, of demo_crypto demo_suite "[]"] show ?thesis by simp
qed

end
