(* ===== verification/Dtls_Session.thy ===== *)
theory Dtls_Session
  imports Dtls_Record
begin

text \<open>
  The server side of the DTLS handshake, \<open>src/server/webrtc/dtls/dtls_session.cpp\<close>: the loop over the
  records of a datagram, the queue for records that came early, the message handlers with the
  flights they send, the derivation of the master secret and of the SRTP keys, and the check of the
  client's Finished message.

  The two function objects \<open>next_msg_handler_\<close> and \<open>next_msg_require_handler_\<close> are values of the type
  \<open>dtls_stage\<close>.  The messages of a record are C++ objects behind base-class pointers; a cast to a class
  the object does not have is a \<open>Fault\<close>.  A handler yields the new session and the boolean of the
  source.  Datagrams that are sent and calls of the completion callback are collected in the
  session.  What is random or comes from the clock (cookie, server random, initialisation vector)
  is in the record \<open>dtls_entropy\<close>, the certificate in \<open>der\<close>.  The record loop moves its pointer backwards
  when a protected record fails to decode, so it is a \<^theory_text>\<open>partial_function\<close>.
\<close>

section \<open>State\<close>

datatype dtls_stage = StClientHello | StClientHelloWithCookie | StClientKeyExchange | StChangeCipherSpec | StDone

record dtls_entropy =
  ent_cookie :: bytes
  ent_time :: u32
  ent_random :: bytes
  ent_iv :: bytes

record dtls_session =
  msg_handler :: dtls_stage
  require_handler :: dtls_stage
  client_hello_rec :: "dtls_plaintext option"
  server_hello_rec :: "server_hello_msg option"
  master_secret :: bytes
  srtp_recv_key :: bytes
  srtp_send_key :: bytes
  suite :: "ciper_suite option"
  unhandled_msgs :: "(u64 \<times> dtls_plaintext) list"
  recv_handshake_map :: "byte \<Rightarrow> bool"
  handshake_data :: bytes
  epoch_receive_seq :: "u16 \<Rightarrow> u32"
  epoch_send_seq :: "u16 \<Rightarrow> u32"
  ciper_state_changed :: bool
  sent_datagrams :: "bytes list"
  handshake_done :: "(u16 \<times> bytes \<times> bytes) list" \<comment> \<open>profile, receive key, send key of every callback\<close>

definition DtlsSession_init :: dtls_session where
  "DtlsSession_init = \<lparr>msg_handler = StClientHello, require_handler = StClientHello, client_hello_rec = None,
     server_hello_rec = None, master_secret = [], srtp_recv_key = [], srtp_send_key = [], suite = None,
     unhandled_msgs = [], recv_handshake_map = (\<lambda>_. False), handshake_data = [],
     epoch_receive_seq = (\<lambda>_. 0), epoch_send_seq = (\<lambda>_. 0), ciper_state_changed = False,
     sent_datagrams = [], handshake_done = []\<rparr>"

type_synonym handler_result = "(dtls_session \<times> bool) outcome"

section \<open>Sending\<close>

text \<open>A record of the flight: encoded into a fresh buffer of its size (\<open>heap\<close>), sent, counted, and
  appended to the handshake transcript where the source does so.\<close>

definition flight_record :: "dtls_msg \<Rightarrow> byte \<Rightarrow> u32 \<Rightarrow> dtls_plaintext" where
  "flight_record m ty seq = \<lparr>pt_header = \<lparr>hd_type = ty, hd_version = DTLS_1_2, hd_epoch = 0,
     hd_sequence_number = ucast seq, hd_length = 0\<rparr>, pt_msg = m\<rparr>"

definition send_record :: "(nat \<Rightarrow> byte) \<Rightarrow> bool \<Rightarrow> dtls_plaintext \<Rightarrow> dtls_session \<Rightarrow> handler_result" where
  "send_record heap transcript p s =
     (let resp_size = DTLSPlaintext_size p in
      case DTLSPlaintext_encode p (map heap [0..<resp_size], 0) of
        Fault \<Rightarrow> Fault
      | Err _ \<Rightarrow> Ok (s, False)
      | Ok (buf, _) \<Rightarrow>
          Ok (s\<lparr>handshake_data := handshake_data s @ (if transcript then drop DTLS_HEADER_SIZE buf else []),
                sent_datagrams := sent_datagrams s @ [buf],
                epoch_send_seq := (epoch_send_seq s)(0 := epoch_send_seq s 0 + 1)\<rparr>, True))"

definition send_handshake :: "(nat \<Rightarrow> byte) \<Rightarrow> bool \<Rightarrow> byte \<Rightarrow> handshake_body \<Rightarrow> dtls_session \<Rightarrow> handler_result" where
  "send_handshake heap transcript ty body s =
     (let seq = epoch_send_seq s 0 in
      send_record heap transcript (flight_record (HandShake \<lparr>msg_type = ty, message_seq = ucast seq, hs_msg = body\<rparr>) handshake seq) s)"

text \<open>Continue with the next step unless the previous one returned false.\<close>

definition and_then :: "handler_result \<Rightarrow> (dtls_session \<Rightarrow> handler_result) \<Rightarrow> handler_result" where
  "and_then r f = obind r (\<lambda>(s, ok). if ok then f s else Ok (s, False))"

section \<open>Handlers\<close>

definition received :: "dtls_plaintext \<Rightarrow> dtls_stage \<Rightarrow> dtls_session \<Rightarrow> dtls_session" where
  "received m st s =
     s\<lparr>epoch_receive_seq := (epoch_receive_seq s)(hd_epoch (pt_header m) := ucast (hd_sequence_number (pt_header m) + 1)),
       require_handler := st, msg_handler := st\<rparr>"

definition processClientHello :: "dtls_entropy \<Rightarrow> (nat \<Rightarrow> byte) \<Rightarrow> dtls_plaintext \<Rightarrow> dtls_session \<Rightarrow> handler_result" where
  "processClientHello ent heap m s =
     and_then (send_handshake heap False hello_verify_request (HelloVerifyRequest DTLS_1_2 (ent_cookie ent))
                 (s\<lparr>client_hello_rec := Some m\<rparr>))
       (\<lambda>s. Ok (received m StClientHelloWithCookie s, True))"

definition make_server_hello :: "dtls_entropy \<Rightarrow> server_hello_msg" where
  "make_server_hello ent = \<lparr>server_version = DTLS_1_2,
     sh_random = \<lparr>gmt_unix_time = ent_time ent, random_bytes = ent_random ent, random_raw = []\<rparr>,
     sh_session_id = [], sh_cipher_suite = 0x002F, sh_compression_method = 0,
     sh_extensions = [\<lparr>srtp_profiles = [SRTP_AES128_CM_HMAC_SHA1_80], srtp_mki = []\<rparr>]\<rparr>"

definition processClientHelloWithCookie ::
  "bytes \<Rightarrow> dtls_entropy \<Rightarrow> (nat \<Rightarrow> byte) \<Rightarrow> dtls_plaintext \<Rightarrow> dtls_session \<Rightarrow> handler_result" where
  "processClientHelloWithCookie der ent heap m s =
     and_then (send_handshake heap True server_hello (ServerHello (make_server_hello ent))
                 (s\<lparr>client_hello_rec := Some m, suite := Some RSA_AES128_SHA1_Cipher\<rparr>)) (\<lambda>s.
     let hello = make_server_hello ent;
         s = s\<lparr>server_hello_rec := Some (hello\<lparr>sh_random := Random_stored (sh_random hello)\<rparr>)\<rparr> in
     and_then (send_handshake heap True certificate (ServerCertificate [der]) s) (\<lambda>s.
     and_then (send_handshake heap True server_hello_done ServerHelloDone s) (\<lambda>s.
     Ok (received m StClientKeyExchange s, True))))"

text \<open>\<open>RSA_private_decrypt\<close> reads as many bytes of the encrypted secret as the key is long.\<close>

definition decryptRSA :: "dtls_crypto \<Rightarrow> bytes \<Rightarrow> bytes option outcome" where
  "decryptRSA c enc_data = obind (rdn enc_data 0 (rsa_size c)) (\<lambda>d. Ok (rsa_private_decrypt c d))"

text \<open>The casts of the source.\<close>

fun as_client_key_exchange :: "dtls_msg \<Rightarrow> bytes outcome" where
  "as_client_key_exchange (HandShake h) = (case hs_msg h of ClientKeyExchange e \<Rightarrow> Ok e | _ \<Rightarrow> Fault)"
| "as_client_key_exchange _ = Fault"

fun as_client_hello :: "dtls_plaintext option \<Rightarrow> client_hello_msg outcome" where
  "as_client_hello (Some p) = (case pt_msg p of HandShake h \<Rightarrow>
      (case hs_msg h of ClientHello m \<Rightarrow> Ok m | _ \<Rightarrow> Fault) | _ \<Rightarrow> Fault)"
| "as_client_hello None = Fault"

fun some_or_fault :: "'a option \<Rightarrow> 'a outcome" where
  "some_or_fault (Some x) = Ok x"
| "some_or_fault None = Fault"

definition srtp_keys :: "dtls_crypto \<Rightarrow> bytes \<Rightarrow> bytes \<Rightarrow> bytes \<times> bytes" where
  "srtp_keys c master randoms =
     (let b = PRF c master ''EXTRACTOR-dtls_srtp'' randoms 60 in
      (slice 0 16 b @ slice 32 14 b, slice 16 16 b @ slice 46 14 b))"

text \<open>A pre-master secret that is too short makes the handler return \<open>-1\<close>, which as a \<open>bool\<close> is true, and
  nothing else has changed.\<close>

definition processClientKeyExchange :: "dtls_crypto \<Rightarrow> dtls_plaintext \<Rightarrow> dtls_session \<Rightarrow> handler_result" where
  "processClientKeyExchange c m s =
     obind (as_client_key_exchange (pt_msg m)) (\<lambda>enc.
     obind (decryptRSA c enc) (\<lambda>dec.
     case dec of
       None \<Rightarrow> Ok (s, False)
     | Some pre_master_secret_raw \<Rightarrow>
       (case PreMasterSecret_decode pre_master_secret_raw of
          Fault \<Rightarrow> Fault
        | Err _ \<Rightarrow> Ok (s, True)
        | Ok ((version, _), _) \<Rightarrow>
          obind (as_client_hello (client_hello_rec s)) (\<lambda>ch.
          if client_version ch \<noteq> version then Ok (s, False)
          else
          obind (some_or_fault (server_hello_rec s)) (\<lambda>sh.
          obind (some_or_fault (suite s)) (\<lambda>cs.
          let cr = random_raw (ch_random ch); sr = random_raw (sh_random sh);
              master = PRF c pre_master_secret_raw ''master secret'' (cr @ sr) 48;
              keys = srtp_keys c master (cr @ sr) in
          Ok (received m StChangeCipherSpec (s\<lparr>master_secret := master, suite := Some (ciper_init c master cr sr False cs),
                srtp_recv_key := fst keys, srtp_send_key := snd keys\<rparr>), True)))))))"

definition processChangeCipherSpec :: "dtls_plaintext \<Rightarrow> dtls_session \<Rightarrow> handler_result" where
  "processChangeCipherSpec m s = Ok (received m StDone (s\<lparr>ciper_state_changed := True\<rparr>), True)"

text \<open>The content of the client's Finished record; a message of another kind is cast all the same, and one
  that does not decode leaves a null pointer.\<close>

definition finished_verify_data :: "bytes \<Rightarrow> bytes outcome" where
  "finished_verify_data content =
     (case HandShake_decode content of
        Ok (h, _) \<Rightarrow> (case hs_msg h of DtlsFinished v \<Rightarrow> Ok v | _ \<Rightarrow> Fault)
      | _ \<Rightarrow> Fault)"

definition send_server_finished ::
  "dtls_crypto \<Rightarrow> dtls_entropy \<Rightarrow> (nat \<Rightarrow> byte) \<Rightarrow> bytes \<Rightarrow> dtls_session \<Rightarrow> handler_result" where
  "send_server_finished c ent heap server_finished s =
     obind (some_or_fault (suite s)) (\<lambda>cs.
     let resp_size = DTLSCiperText_size server_finished;
         h = \<lparr>hd_type = handshake, hd_version = DTLS_1_2, hd_epoch = 1, hd_sequence_number = ucast (epoch_send_seq s 1), hd_length = 0\<rparr> in
     case DTLSCiperText_encode c cs (ent_iv ent) h server_finished (map heap [0..<resp_size], 0) of
       Fault \<Rightarrow> Fault
     | Err _ \<Rightarrow> Ok (s, False)
     | Ok (buf, _) \<Rightarrow>
         Ok (s\<lparr>epoch_send_seq := (epoch_send_seq s)(1 := epoch_send_seq s 1 + 1),
               sent_datagrams := sent_datagrams s @ [buf],
               handshake_done := handshake_done s @ [(SRTP_AES128_CM_HMAC_SHA1_80, srtp_recv_key s, srtp_send_key s)],
               msg_handler := StDone\<rparr>, True))"

definition processHandShakeFinished ::
  "dtls_crypto \<Rightarrow> dtls_entropy \<Rightarrow> (nat \<Rightarrow> byte) \<Rightarrow> bytes \<Rightarrow> dtls_session \<Rightarrow> handler_result" where
  "processHandShakeFinished c ent heap content s =
     obind (finished_verify_data content) (\<lambda>v.
     if PRF c (master_secret s) ''client finished'' (sha256_digest c (handshake_data s)) 12 \<noteq> v then Ok (s, False)
     else
     and_then (send_record heap False (flight_record (ChangeCipherSpec 1) change_cipher_spec (epoch_send_seq s 0)) s) (\<lambda>s.
     let s = s\<lparr>handshake_data := handshake_data s @ content\<rparr>;
         server_verify_data = PRF c (master_secret s) ''server finished'' (sha256_digest c (handshake_data s)) 12;
         finished_msg = \<lparr>msg_type = finished, message_seq = 4, hs_msg = DtlsFinished server_verify_data\<rparr> in
     obind (HandShake_encode finished_msg (replicate (HandShake_size finished_msg) 0, 0)) (\<lambda>(server_finished, _).
       send_server_finished c ent heap server_finished s)))"

section \<open>Records of a datagram\<close>

definition run_handler ::
  "dtls_crypto \<Rightarrow> bytes \<Rightarrow> dtls_entropy \<Rightarrow> (nat \<Rightarrow> byte) \<Rightarrow> dtls_plaintext \<Rightarrow> dtls_session \<Rightarrow> handler_result" where
  "run_handler c der ent heap m s =
     (case msg_handler s of
        StClientHello \<Rightarrow> processClientHello ent heap m s
      | StClientHelloWithCookie \<Rightarrow> processClientHelloWithCookie der ent heap m s
      | StClientKeyExchange \<Rightarrow> processClientKeyExchange c m s
      | StChangeCipherSpec \<Rightarrow> processChangeCipherSpec m s
      | StDone \<Rightarrow> Ok (s, True))"

text \<open>The \<open>require\<close> functions take the first queued record of the expected kind, whatever its sequence
  number.\<close>

fun wanted :: "dtls_stage \<Rightarrow> dtls_plaintext \<Rightarrow> bool" where
  "wanted StClientHello p = (case pt_msg p of HandShake h \<Rightarrow> msg_type h = client_hello | _ \<Rightarrow> False)"
| "wanted StClientHelloWithCookie p = (case pt_msg p of HandShake h \<Rightarrow> msg_type h = client_hello | _ \<Rightarrow> False)"
| "wanted StClientKeyExchange p = (case pt_msg p of HandShake h \<Rightarrow> msg_type h = client_key_exchange | _ \<Rightarrow> False)"
| "wanted StChangeCipherSpec p = (case pt_msg p of ChangeCipherSpec _ \<Rightarrow> True | _ \<Rightarrow> False)"
| "wanted StDone p = False"

fun take_first :: "(dtls_plaintext \<Rightarrow> bool) \<Rightarrow> (u64 \<times> dtls_plaintext) list \<Rightarrow> (dtls_plaintext \<times> (u64 \<times> dtls_plaintext) list) option" where
  "take_first P [] = None"
| "take_first P ((k, p) # q) =
     (if P p then Some (p, q)
      else case take_first P q of None \<Rightarrow> None | Some (r, q') \<Rightarrow> Some (r, (k, p) # q'))"

lemma take_first_shorter: "take_first P q = Some (r, q') \<Longrightarrow> length q' < length q"
  by (induction q arbitrary: q') (auto split: if_splits option.splits)

text \<open>The do-loop over queued records; one turn per queued record is enough, since every turn takes one
  out and no handler adds one.\<close>

fun drain_queue ::
  "nat \<Rightarrow> dtls_crypto \<Rightarrow> bytes \<Rightarrow> dtls_entropy \<Rightarrow> (nat \<Rightarrow> byte) \<Rightarrow> dtls_session \<Rightarrow> dtls_session outcome" where
  "drain_queue 0 c der ent heap s = Ok s"
| "drain_queue (Suc n) c der ent heap s =
     (case take_first (wanted (require_handler s)) (unhandled_msgs s) of
        None \<Rightarrow> Ok s
      | Some (p, q) \<Rightarrow>
          obind (run_handler c der ent heap p (s\<lparr>unhandled_msgs := q\<rparr>)) (\<lambda>(s, process_next).
            if process_next then drain_queue n c der ent heap s else Ok s))"

definition note_handshake :: "dtls_plaintext \<Rightarrow> bytes \<Rightarrow> dtls_session \<Rightarrow> dtls_session" where
  "note_handshake m body s =
     (case pt_msg m of
        HandShake h \<Rightarrow>
          (if recv_handshake_map s (msg_type h)
              \<or> (case hs_msg h of ClientHello ch \<Rightarrow> ch_cookie ch = [] | _ \<Rightarrow> False)
           then s
           else s\<lparr>handshake_data := handshake_data s @ body, recv_handshake_map := (recv_handshake_map s)(msg_type h := True)\<rparr>)
      | _ \<Rightarrow> s)"

text \<open>A record of epoch 0 at the front of \<open>d\<close>: the session, and how many bytes it took, or \<open>None\<close> if the
  datagram is given up.\<close>

definition plain_record ::
  "dtls_crypto \<Rightarrow> bytes \<Rightarrow> dtls_entropy \<Rightarrow> (nat \<Rightarrow> byte) \<Rightarrow> bytes \<Rightarrow> dtls_session \<Rightarrow> (dtls_session \<times> nat option) outcome" where
  "plain_record c der ent heap d s =
     (case DTLSPlaintext_decode d of
        Fault \<Rightarrow> Fault
      | Err _ \<Rightarrow> Ok (s, None)
      | Ok (m, consumed) \<Rightarrow>
          let s = note_handshake m (slice 13 (consumed - 13) d) s;
              seq = hd_sequence_number (pt_header m);
              next_receive_seq = ucast (epoch_receive_seq s (hd_epoch (pt_header m))) in
          if seq < next_receive_seq then Ok (s, Some consumed)
          else
            obind (if seq = next_receive_seq then run_handler c der ent heap m s
                   else Ok (s\<lparr>unhandled_msgs := map_insert seq m (unhandled_msgs s)\<rparr>, True)) (\<lambda>(s, ok).
              if \<not> ok then Ok (s, None)
              else if ciper_state_changed s then Ok (s, Some consumed)
              else obind (drain_queue (length (unhandled_msgs s)) c der ent heap s) (\<lambda>s. Ok (s, Some consumed))))"

text \<open>A protected record.  The result code of the decoder is added to the pointer without a check.\<close>

definition ciper_record ::
  "dtls_crypto \<Rightarrow> dtls_entropy \<Rightarrow> (nat \<Rightarrow> byte) \<Rightarrow> bytes \<Rightarrow> dtls_session \<Rightarrow> (dtls_session \<times> int option) outcome" where
  "ciper_record c ent heap d s =
     (case suite s of
        None \<Rightarrow> Ok (s, None)
      | Some cs \<Rightarrow>
          obind (DTLSCiperText_decode c cs d) (\<lambda>(consumed, content).
            obind (processHandShakeFinished c ent heap content s) (\<lambda>(s, ok).
              Ok (s, if ok then Some consumed else None))))"

text \<open>\<open>pos\<close> is the distance of the pointer from the start of the datagram; \<open>len\<close> of the source is what is left
  from there.  The value is \<open>None\<close> if the loop does not end.\<close>

definition dtls_turn ::
  "dtls_crypto \<Rightarrow> bytes \<Rightarrow> dtls_entropy \<Rightarrow> (nat \<Rightarrow> byte) \<Rightarrow> bytes \<Rightarrow> int \<Rightarrow> dtls_session \<Rightarrow> (dtls_session \<times> int option) outcome" where
  "dtls_turn c der ent heap d pos s =
     (if pos + 3 < 0 then Fault
      else obind (rdn d (nat (pos + 3)) 2) (\<lambda>epoch.
        if pos < 0 then Fault
        else if unbe epoch = 0
        then obind (plain_record c der ent heap (drop (nat pos) d) s) (\<lambda>(s, consumed).
               Ok (s, map_option (\<lambda>n. pos + int n) consumed))
        else obind (ciper_record c ent heap (drop (nat pos) d) s) (\<lambda>(s, consumed).
               Ok (s, map_option (\<lambda>n. pos + n) consumed))))"

partial_function (option) dtls_loop ::
  "dtls_crypto \<Rightarrow> bytes \<Rightarrow> dtls_entropy \<Rightarrow> (nat \<Rightarrow> byte) \<Rightarrow> bytes \<Rightarrow> int \<Rightarrow> dtls_session \<Rightarrow> handler_result option" where
  "dtls_loop c der ent heap d pos s =
     (if int (length d) \<le> pos then Some (Ok (s, True))
      else case dtls_turn c der ent heap d pos s of
        Fault \<Rightarrow> Some Fault
      | Err e \<Rightarrow> Some (Err e)
      | Ok (s, None) \<Rightarrow> Some (Ok (s, False))
      | Ok (s, Some pos) \<Rightarrow> dtls_loop c der ent heap d pos s)"

definition DtlsSession_processDtlsPacket ::
  "dtls_crypto \<Rightarrow> bytes \<Rightarrow> dtls_entropy \<Rightarrow> (nat \<Rightarrow> byte) \<Rightarrow> bytes \<Rightarrow> dtls_session \<Rightarrow> handler_result option" where
  "DtlsSession_processDtlsPacket c der ent heap d s = dtls_loop c der ent heap d 0 s"

section \<open>Lemmas on the handlers\<close>

lemma send_record_ok:
  assumes "dtls_msg_ok (pt_msg p)"
  shows "send_record heap tr p s = Ok (s\<lparr>handshake_data := handshake_data s @ (if tr then dtls_msg_wire (pt_msg p) else []),
      sent_datagrams := sent_datagrams s @ [record_wire p],
      epoch_send_seq := (epoch_send_seq s)(0 := epoch_send_seq s 0 + 1)\<rparr>, True)"
proof -
  have "DTLSPlaintext_encode p (map heap [0..<DTLSPlaintext_size p], 0) = Ok (record_wire p, DTLSPlaintext_size p)"
    using writes_exact [of "DTLSPlaintext_encode p" "record_wire p" "map heap [0..<DTLSPlaintext_size p]"]
      record_writes [OF assms] assms by (simp add: length_record_wire)
  moreover have "drop 13 (record_wire p) = dtls_msg_wire (pt_msg p)" by (simp add: record_wire_def)
  ultimately show ?thesis by (simp add: send_record_def Let_def)
qed

definition entropy_ok :: "dtls_entropy \<Rightarrow> bool" where
  "entropy_ok ent \<longleftrightarrow> length (ent_random ent) = 28 \<and> length (ent_iv ent) = 16"

text \<open>The records of the server's flights and the transcript they add.\<close>

definition hs_record :: "byte \<Rightarrow> handshake_body \<Rightarrow> u32 \<Rightarrow> dtls_plaintext" where
  "hs_record ty body seq = flight_record (HandShake \<lparr>msg_type = ty, message_seq = ucast seq, hs_msg = body\<rparr>) handshake seq"

lemma send_handshake_ok:
  "body_ok body \<Longrightarrow> send_handshake heap tr ty body s = Ok (s\<lparr>
      handshake_data := handshake_data s @ (if tr then dtls_msg_wire (pt_msg (hs_record ty body (epoch_send_seq s 0))) else []),
      sent_datagrams := sent_datagrams s @ [record_wire (hs_record ty body (epoch_send_seq s 0))],
      epoch_send_seq := (epoch_send_seq s)(0 := epoch_send_seq s 0 + 1)\<rparr>, True)"
  unfolding send_handshake_def Let_def hs_record_def [symmetric]
  by (subst send_record_ok) (simp_all add: hs_record_def flight_record_def)

lemma processClientHello_ok:
  "processClientHello ent heap m s = Ok (received m StClientHelloWithCookie (s\<lparr>client_hello_rec := Some m,
      sent_datagrams := sent_datagrams s @ [record_wire (hs_record hello_verify_request
        (HelloVerifyRequest DTLS_1_2 (ent_cookie ent)) (epoch_send_seq s 0))],
      epoch_send_seq := (epoch_send_seq s)(0 := epoch_send_seq s 0 + 1)\<rparr>), True)"
  by (simp add: processClientHello_def and_then_def send_handshake_ok)

definition server_flight :: "bytes \<Rightarrow> dtls_entropy \<Rightarrow> u32 \<Rightarrow> dtls_plaintext list" where
  "server_flight der ent seq = [hs_record server_hello (ServerHello (make_server_hello ent)) seq,
     hs_record certificate (ServerCertificate [der]) (seq + 1), hs_record server_hello_done ServerHelloDone (seq + 2)]"

definition flight_transcript :: "bytes \<Rightarrow> dtls_entropy \<Rightarrow> u32 \<Rightarrow> bytes" where
  "flight_transcript der ent seq = concat (map (\<lambda>p. dtls_msg_wire (pt_msg p)) (server_flight der ent seq))"

definition server_random :: "dtls_entropy \<Rightarrow> bytes" where
  "server_random ent = be 4 (unat (ent_time ent)) @ ent_random ent"

lemma processClientHelloWithCookie_ok:
  assumes "entropy_ok ent"
  shows "\<exists>sh. random_raw (sh_random sh) = server_random ent \<and>
    processClientHelloWithCookie der ent heap m s = Ok (received m StClientKeyExchange (s\<lparr>client_hello_rec := Some m,
      suite := Some RSA_AES128_SHA1_Cipher, server_hello_rec := Some sh,
      handshake_data := handshake_data s @ flight_transcript der ent (epoch_send_seq s 0),
      sent_datagrams := sent_datagrams s @ map record_wire (server_flight der ent (epoch_send_seq s 0)),
      epoch_send_seq := (epoch_send_seq s)(0 := epoch_send_seq s 0 + 3)\<rparr>), True)"
proof -
  have ok: "body_ok (ServerHello (make_server_hello ent))"
    using assms by (simp add: entropy_ok_def make_server_hello_def)
  let ?h = "make_server_hello ent"
  have "random_raw (sh_random (?h\<lparr>sh_random := Random_stored (sh_random ?h)\<rparr>)) = server_random ent"
    by (simp add: make_server_hello_def Random_stored_def server_random_def)
  moreover have "processClientHelloWithCookie der ent heap m s = Ok (received m StClientKeyExchange (s\<lparr>client_hello_rec := Some m,
      suite := Some RSA_AES128_SHA1_Cipher, server_hello_rec := Some (?h\<lparr>sh_random := Random_stored (sh_random ?h)\<rparr>),
      handshake_data := handshake_data s @ flight_transcript der ent (epoch_send_seq s 0),
      sent_datagrams := sent_datagrams s @ map record_wire (server_flight der ent (epoch_send_seq s 0)),
      epoch_send_seq := (epoch_send_seq s)(0 := epoch_send_seq s 0 + 3)\<rparr>), True)"
    unfolding processClientHelloWithCookie_def
    by (subst send_handshake_ok [OF ok])
      (simp add: and_then_def send_handshake_ok Let_def flight_transcript_def server_flight_def add.assoc)
  ultimately show ?thesis by blast
qed

lemma take_first_Nil [simp]: "unhandled_msgs s = [] \<Longrightarrow> drain_queue n c der ent heap s = Ok s"
  by (cases n) simp_all

text \<open>A record in sequence, with nothing queued, is handed to the handler of the stage.\<close>

lemma plain_record_in_sequence:
  assumes "DTLSPlaintext_decode d = Ok (m, length d)" "hd_sequence_number (pt_header m) = ucast (epoch_receive_seq s 0)"
    and "hd_epoch (pt_header m) = 0" "unhandled_msgs s = []"
    and "run_handler c der ent heap m (note_handshake m (drop 13 d) s) = Ok (s', True)" "unhandled_msgs s' = []"
  shows "plain_record c der ent heap d s = Ok (s', Some (length d))"
proof -
  have "epoch_receive_seq (note_handshake m x s) = epoch_receive_seq s" for x
    by (simp add: note_handshake_def split: dtls_msg.splits)
  moreover have "slice 13 (length d - 13) d = drop 13 d" by (simp add: slice_def)
  ultimately show ?thesis using assms by (simp add: plain_record_def Let_def)
qed

lemma DtlsHeader_decode_epoch:
  "DtlsHeader_decode d = Ok (h, k) \<Longrightarrow> 13 \<le> length d \<and> k = 13 \<and> hd_epoch h = of_nat (unbe (take 2 (drop 3 d)))"
  by (auto simp: DtlsHeader_decode_def outcome_iffs rdn_def split: if_splits)

lemma DTLSPlaintext_decode_epoch:
  assumes "DTLSPlaintext_decode d = Ok (m, n)"
  shows "hd_epoch (pt_header m) = 0" "13 \<le> n" "n \<le> length d" "rdn d 3 2 = Ok [0, 0]"
proof -
  obtain h k where h: "DtlsHeader_decode d = Ok (h, k)" "pt_header m = h" "hd_epoch h = 0" "13 \<le> n" "n \<le> length d"
    using assms by (auto simp: DTLSPlaintext_decode_def Let_def outcome_iffs rdn_def split: if_splits)
  have e: "(of_nat (unbe (take 2 (drop 3 d))) :: u16) = 0" "13 \<le> length d"
    using DtlsHeader_decode_epoch [OF h(1)] h(3) by simp_all
  have l: "length (take 2 (drop 3 d)) = 2" using e(2) by simp
  then have "unbe (take 2 (drop 3 d)) < 65536" using unbe_less [of "take 2 (drop 3 d)"] by simp
  then have "unat (of_nat (unbe (take 2 (drop 3 d))) :: u16) = unbe (take 2 (drop 3 d))" by (simp add: unat_of_nat)
  then have "unbe (take 2 (drop 3 d)) = 0" using e(1) by simp
  then have "take 2 (drop 3 d) = be 2 0" using be_unbe [of "take 2 (drop 3 d)"] l by simp
  then show "rdn d 3 2 = Ok [0, 0]" using e(2) by (simp add: wire_simps)
  show "hd_epoch (pt_header m) = 0" "13 \<le> n" "n \<le> length d" using h by simp_all
qed

lemma plain_datagram:
  assumes "DTLSPlaintext_decode d = Ok (m, length d)" "plain_record c der ent heap d s = Ok (s', Some (length d))"
  shows "DtlsSession_processDtlsPacket c der ent heap d s = Some (Ok (s', True))"
proof -
  note e = DTLSPlaintext_decode_epoch [OF assms(1)]
  have "d \<noteq> []" "unbe [0, 0 :: byte] = 0" using e(2) by (auto simp: unbe_def)
  then show ?thesis unfolding DtlsSession_processDtlsPacket_def
    by (subst dtls_loop.simps, subst dtls_loop.simps) (simp add: dtls_turn_def e(4) assms(2))
qed

section \<open>A complete handshake\<close>

text \<open>The datagrams of a client one after the other.\<close>

primrec dtls_feed ::
  "dtls_crypto \<Rightarrow> bytes \<Rightarrow> dtls_entropy \<Rightarrow> (nat \<Rightarrow> byte) \<Rightarrow> bytes list \<Rightarrow> dtls_session \<Rightarrow> dtls_session outcome option" where
  "dtls_feed c der ent heap [] s = Some (Ok s)"
| "dtls_feed c der ent heap (d # ds) s =
     (case DtlsSession_processDtlsPacket c der ent heap d s of
        Some (Ok (s, _)) \<Rightarrow> dtls_feed c der ent heap ds s
      | Some Fault \<Rightarrow> Some Fault
      | Some (Err e) \<Rightarrow> Some (Err e)
      | None \<Rightarrow> None)"

text \<open>The peer's view of the keys.\<close>

definition swapped :: "ciper_suite \<Rightarrow> ciper_suite" where
  "swapped s = s\<lparr>client_write_MAC_key := server_write_MAC_key s, server_write_MAC_key := client_write_MAC_key s,
     client_write_key := server_write_key s, server_write_key := client_write_key s\<rparr>"

definition at_stage :: "dtls_stage \<Rightarrow> u32 \<Rightarrow> u32 \<Rightarrow> bytes \<Rightarrow> dtls_session \<Rightarrow> bool" where
  "at_stage st rs ss data s \<longleftrightarrow> msg_handler s = st \<and> unhandled_msgs s = [] \<and> epoch_receive_seq s 0 = rs
     \<and> epoch_send_seq s 0 = ss \<and> epoch_send_seq s 1 = 0 \<and> handshake_data s = data \<and> handshake_done s = []"

definition plain_msg :: "bytes \<Rightarrow> u64 \<Rightarrow> dtls_msg \<Rightarrow> dtls_plaintext \<Rightarrow> bool" where
  "plain_msg d seq m p \<longleftrightarrow> DTLSPlaintext_decode d = Ok (p, length d) \<and> hd_sequence_number (pt_header p) = seq \<and> pt_msg p = m"

lemma plain_datagram_in_sequence:
  assumes "plain_msg d seq m p" "at_stage st rs ss data s" "seq = ucast rs"
    and "run_handler c der ent heap p (note_handshake p (drop 13 d) s) = Ok (s', True)" "unhandled_msgs s' = []"
  shows "DtlsSession_processDtlsPacket c der ent heap d s = Some (Ok (s', True))"
proof -
  note p = assms(1) [unfolded plain_msg_def]
  have "plain_record c der ent heap d s = Ok (s', Some (length d))"
    using assms p DTLSPlaintext_decode_epoch(1) [of d p]
    by (intro plain_record_in_sequence [of d p]) (auto simp: at_stage_def)
  then show ?thesis using p plain_datagram by blast
qed

lemma first_hello:
  assumes "plain_msg d 0 (HandShake h) p" "hs_msg h = ClientHello ch" "ch_cookie ch = []"
  shows "\<exists>s. DtlsSession_processDtlsPacket c der ent heap d DtlsSession_init = Some (Ok (s, True))
    \<and> at_stage StClientHelloWithCookie 1 1 [] s \<and> recv_handshake_map s = (\<lambda>_. False)"
proof -
  let ?s = "received p StClientHelloWithCookie (DtlsSession_init\<lparr>client_hello_rec := Some p,
      sent_datagrams := [record_wire (hs_record hello_verify_request (HelloVerifyRequest DTLS_1_2 (ent_cookie ent)) 0)],
      epoch_send_seq := (epoch_send_seq DtlsSession_init)(0 := 1)\<rparr>)"
  have n: "note_handshake p (drop 13 d) DtlsSession_init = DtlsSession_init"
    using assms by (simp add: note_handshake_def plain_msg_def)
  have e: "hd_epoch (pt_header p) = 0" using assms(1) DTLSPlaintext_decode_epoch(1) by (auto simp: plain_msg_def)
  have "run_handler c der ent heap p DtlsSession_init = Ok (?s, True)"
    using processClientHello_ok [of ent heap p DtlsSession_init] by (simp add: run_handler_def DtlsSession_init_def)
  then have "DtlsSession_processDtlsPacket c der ent heap d DtlsSession_init = Some (Ok (?s, True))"
    using assms(1) n by (intro plain_datagram_in_sequence [of d 0 "HandShake h" p StClientHello 0 0 "[]"])
      (simp_all add: at_stage_def DtlsSession_init_def received_def)
  moreover have "at_stage StClientHelloWithCookie 1 1 [] ?s" "recv_handshake_map ?s = (\<lambda>_. False)"
    using assms(1) e by (simp_all add: at_stage_def received_def DtlsSession_init_def plain_msg_def)
  ultimately show ?thesis by blast
qed

lemma second_hello:
  assumes "at_stage StClientHelloWithCookie 1 1 [] s" "recv_handshake_map s = (\<lambda>_. False)" "entropy_ok ent"
    and "plain_msg d 1 (HandShake h) p" "hs_msg h = ClientHello ch" "ch_cookie ch \<noteq> []" "msg_type h = client_hello"
  shows "\<exists>s' sh. DtlsSession_processDtlsPacket c der ent heap d s = Some (Ok (s', True))
    \<and> at_stage StClientKeyExchange 2 4 (drop 13 d @ flight_transcript der ent 1) s'
    \<and> client_hello_rec s' = Some p \<and> server_hello_rec s' = Some sh \<and> random_raw (sh_random sh) = server_random ent
    \<and> suite s' = Some RSA_AES128_SHA1_Cipher \<and> recv_handshake_map s' = (\<lambda>t. t = client_hello)"
proof -
  let ?n = "s\<lparr>handshake_data := drop 13 d, recv_handshake_map := (\<lambda>_. False)(client_hello := True)\<rparr>"
  have n: "note_handshake p (drop 13 d) s = ?n"
    using assms by (simp add: note_handshake_def plain_msg_def at_stage_def)
  have e: "hd_epoch (pt_header p) = 0" using assms(4) DTLSPlaintext_decode_epoch(1) by (auto simp: plain_msg_def)
  obtain sh where sh: "random_raw (sh_random sh) = server_random ent"
    and r: "processClientHelloWithCookie der ent heap p ?n = Ok (received p StClientKeyExchange (?n\<lparr>client_hello_rec := Some p,
      suite := Some RSA_AES128_SHA1_Cipher, server_hello_rec := Some sh,
      handshake_data := handshake_data ?n @ flight_transcript der ent (epoch_send_seq ?n 0),
      sent_datagrams := sent_datagrams ?n @ map record_wire (server_flight der ent (epoch_send_seq ?n 0)),
      epoch_send_seq := (epoch_send_seq ?n)(0 := epoch_send_seq ?n 0 + 3)\<rparr>), True)" (is "_ = Ok (?s, True)")
    using processClientHelloWithCookie_ok [OF assms(3)] by blast
  have "DtlsSession_processDtlsPacket c der ent heap d s = Some (Ok (?s, True))"
    using assms(1,4) n r by (intro plain_datagram_in_sequence [of d 1 "HandShake h" p StClientHelloWithCookie 1 1 "[]"])
      (simp_all add: run_handler_def at_stage_def received_def)
  moreover have "at_stage StClientKeyExchange 2 4 (drop 13 d @ flight_transcript der ent 1) ?s"
    using assms(1,4) e by (simp add: at_stage_def received_def plain_msg_def)
  moreover have "recv_handshake_map ?s = (\<lambda>t. t = client_hello)" by (auto simp: received_def fun_eq_iff)
  ultimately show ?thesis using sh by (intro exI [of _ ?s] exI [of _ sh]) (simp add: received_def)
qed

lemma key_exchange:
  assumes "at_stage StClientKeyExchange 2 4 data s" "recv_handshake_map s = (\<lambda>t. t = client_hello)"
    and "client_hello_rec s = Some q" "pt_msg q = HandShake hq" "hs_msg hq = ClientHello ch"
    and "server_hello_rec s = Some sh" "suite s = Some cs"
    and "plain_msg d 2 (HandShake h) p" "hs_msg h = ClientKeyExchange enc" "msg_type h = client_key_exchange"
    and "length enc = rsa_size c" "rsa_private_decrypt c enc = Some pms" "length pms = 48" "(pms ! 0, pms ! 1) = client_version ch"
  defines "r \<equiv> random_raw (ch_random ch) @ random_raw (sh_random sh)"
  defines "ms \<equiv> PRF c pms ''master secret'' r 48"
  shows "\<exists>s'. DtlsSession_processDtlsPacket c der ent heap d s = Some (Ok (s', True))
    \<and> at_stage StChangeCipherSpec 3 4 (data @ drop 13 d) s' \<and> master_secret s' = ms
    \<and> suite s' = Some (ciper_init c ms (random_raw (ch_random ch)) (random_raw (sh_random sh)) False cs)
    \<and> (srtp_recv_key s', srtp_send_key s') = srtp_keys c ms r"
proof -
  let ?n = "s\<lparr>handshake_data := data @ drop 13 d, recv_handshake_map := (recv_handshake_map s)(client_key_exchange := True)\<rparr>"
  have n: "note_handshake p (drop 13 d) s = ?n"
    using assms by (simp add: note_handshake_def plain_msg_def at_stage_def)
  have e: "hd_epoch (pt_header p) = 0" using assms(8) DTLSPlaintext_decode_epoch(1) by (auto simp: plain_msg_def)
  have pm: "PreMasterSecret_decode pms = Ok ((client_version ch, take 46 (drop 2 pms)), 48)"
    using assms(13,14) by (simp add: PreMasterSecret_decode_def DtlsProtocolVersion_decode_def)
  let ?s = "received p StChangeCipherSpec (?n\<lparr>master_secret := ms,
      suite := Some (ciper_init c ms (random_raw (ch_random ch)) (random_raw (sh_random sh)) False cs),
      srtp_recv_key := fst (srtp_keys c ms r), srtp_send_key := snd (srtp_keys c ms r)\<rparr>)"
  have "processClientKeyExchange c p ?n = Ok (?s, True)"
    using assms pm by (simp add: processClientKeyExchange_def plain_msg_def decryptRSA_def Let_def)
  then have "DtlsSession_processDtlsPacket c der ent heap d s = Some (Ok (?s, True))"
    using assms(1,8) n by (intro plain_datagram_in_sequence [of d 2 "HandShake h" p StClientKeyExchange 2 4 data])
      (simp_all add: run_handler_def at_stage_def received_def)
  moreover have "at_stage StChangeCipherSpec 3 4 (data @ drop 13 d) ?s"
    using assms(1,8) e by (simp add: at_stage_def received_def plain_msg_def)
  ultimately show ?thesis by (intro exI [of _ ?s]) (simp add: received_def)
qed

lemma change_cipher:
  assumes "at_stage StChangeCipherSpec 3 4 data s" "plain_msg d 3 (ChangeCipherSpec ty) p"
  shows "\<exists>s'. DtlsSession_processDtlsPacket c der ent heap d s = Some (Ok (s', True))
    \<and> at_stage StDone 4 4 data s' \<and> master_secret s' = master_secret s \<and> suite s' = suite s
    \<and> srtp_recv_key s' = srtp_recv_key s \<and> srtp_send_key s' = srtp_send_key s"
proof -
  have n: "note_handshake p (drop 13 d) s = s" using assms(2) by (simp add: note_handshake_def plain_msg_def)
  have e: "hd_epoch (pt_header p) = 0" using assms(2) DTLSPlaintext_decode_epoch(1) by (auto simp: plain_msg_def)
  let ?s = "received p StDone (s\<lparr>ciper_state_changed := True\<rparr>)"
  have "DtlsSession_processDtlsPacket c der ent heap d s = Some (Ok (?s, True))"
    using assms n by (intro plain_datagram_in_sequence [of d 3 "ChangeCipherSpec ty" p StChangeCipherSpec 3 4 data])
      (simp_all add: run_handler_def at_stage_def received_def processChangeCipherSpec_def)
  moreover have "at_stage StDone 4 4 data ?s"
    using assms e by (simp add: at_stage_def received_def plain_msg_def)
  ultimately show ?thesis by (intro exI [of _ ?s]) (simp add: received_def)
qed

text \<open>The Finished messages of both sides.\<close>

definition finished_wire :: "u16 \<Rightarrow> bytes \<Rightarrow> bytes" where
  "finished_wire k v = handshake_wire \<lparr>msg_type = finished, message_seq = k, hs_msg = DtlsFinished v\<rparr>"

lemma finished_verify_data_wire: "finished_verify_data (finished_wire k v) = Ok v"
  using HandShake_decode_wire [of "\<lparr>msg_type = finished, message_seq = k, hs_msg = DtlsFinished v\<rparr>" "DtlsFinished v" "length v"]
  by (simp add: finished_verify_data_def finished_wire_def handshake_body_decode_def as_body_def DtlsFinished_decode_def)

lemma finished_wire_encode:
  assumes "length v = 12"
  shows "HandShake_encode \<lparr>msg_type = finished, message_seq = k, hs_msg = DtlsFinished v\<rparr> (replicate 24 0, 0) = Ok (finished_wire k v, 24)"
    and "length (finished_wire k v) = 24"
proof -
  let ?h = "\<lparr>msg_type = finished, message_seq = k, hs_msg = DtlsFinished v\<rparr>"
  show l: "length (finished_wire k v) = 24" using assms by (simp add: finished_wire_def handshake_wire_def)
  show "HandShake_encode ?h (replicate 24 0, 0) = Ok (finished_wire k v, 24)"
    using writes_exact [OF handshake_writes [of ?h], of "replicate 24 0"] l assms by (simp add: finished_wire_def)
qed

lemma GenericBlockCipher_size_24: "length content = 24 \<Longrightarrow> GenericBlockCipher_size content = 64"
  by (simp add: GenericBlockCipher_size_def block_cipered_size_def)

text \<open>The server's answer to a Finished message with the right verify data.\<close>

lemma finished_answer:
  assumes "crypto_ok c" "entropy_ok ent" "at_stage StDone 4 4 data s" "suite s = Some cs" "length (server_write_key cs) = 16"
    and "\<not> is_client cs" "finished_verify_data content = Ok v"
    and "v = PRF c (master_secret s) ''client finished'' (sha256_digest c data) 12"
  defines "sv \<equiv> PRF c (master_secret s) ''server finished'' (sha256_digest c (data @ content)) 12"
  shows "\<exists>s' w. processHandShakeFinished c ent heap content s = Ok (s', True)
    \<and> handshake_done s' = [(SRTP_AES128_CM_HMAC_SHA1_80, srtp_recv_key s, srtp_send_key s)]
    \<and> last (sent_datagrams s') = w \<and> DTLSCiperText_decode c (swapped cs) w = Ok (int (length w), finished_wire 4 sv)"
proof -
  let ?h = "\<lparr>hd_type = handshake, hd_version = DTLS_1_2, hd_epoch = 1, hd_sequence_number = 0, hd_length = 0\<rparr>"
  let ?w = "ciper_wire c cs (ent_iv ent) ?h (finished_wire 4 sv)"
  have sv: "length sv = 12" using length_PRF [OF assms(1)] by (simp add: sv_def)
  note f = finished_wire_encode [OF sv, of 4]
  have iv: "length (ent_iv ent) = 16" using assms(2) by (simp add: entropy_ok_def)
  let ?n = "DTLSCiperText_size (finished_wire 4 sv)"
  have enc: "DTLSCiperText_encode c cs (ent_iv ent) ?h (finished_wire 4 sv) (map heap [0..<?n], 0) = Ok (?w, ?n)"
    by (rule DTLSCiperText_encode_wire) (use assms iv in simp_all)
  have "DTLSCiperText_decode c (swapped cs) ?w = Ok (int ?n, finished_wire 4 sv)"
    by (rule DTLSCiperText_decode_wire) (use assms iv f(2) GenericBlockCipher_size_24 in \<open>simp_all add: swapped_def\<close>)
  moreover have "length ?w = ?n" using assms(1) iv by (rule length_ciper_wire)
  moreover have st: "epoch_send_seq s 0 = 4" "epoch_send_seq s 1 = 0" "handshake_data s = data" "handshake_done s = []"
    using assms(3) by (simp_all add: at_stage_def)
  define s1 where "s1 = s\<lparr>handshake_data := data, sent_datagrams := sent_datagrams s @ [record_wire (flight_record (ChangeCipherSpec 1) change_cipher_spec 4)],
      epoch_send_seq := (epoch_send_seq s)(0 := 5)\<rparr>"
  have ccs: "send_record heap False (flight_record (ChangeCipherSpec 1) change_cipher_spec (epoch_send_seq s 0)) s = Ok (s1, True)"
    unfolding st by (subst send_record_ok) (simp_all add: flight_record_def s1_def st)
  have s1: "epoch_send_seq s1 1 = 0" "handshake_data s1 = data" "handshake_done s1 = []" "suite s1 = Some cs"
    "master_secret s1 = master_secret s" "srtp_recv_key s1 = srtp_recv_key s" "srtp_send_key s1 = srtp_send_key s"
    using assms(4) st by (simp_all add: s1_def)
  have sz: "HandShake_size \<lparr>msg_type = finished, message_seq = 4, hs_msg = DtlsFinished sv\<rparr> = 24" by (simp add: HandShake_size_def)
  have "processHandShakeFinished c ent heap content s = Ok (s1\<lparr>handshake_data := data @ content,
      epoch_send_seq := (epoch_send_seq s1)(1 := 1), sent_datagrams := sent_datagrams s1 @ [?w],
      handshake_done := [(SRTP_AES128_CM_HMAC_SHA1_80, srtp_recv_key s, srtp_send_key s)], msg_handler := StDone\<rparr>, True)"
    using assms(7,8) ccs f(1) enc
    by (simp add: processHandShakeFinished_def send_server_finished_def and_then_def Let_def s1 st sv_def [symmetric] sz del: upt_Suc)
  ultimately show ?thesis by auto
qed

lemma ciper_datagram:
  assumes "ciper_record c ent heap d s = Ok (s', Some (int (length d)))" "5 \<le> length d" "unbe (take 2 (drop 3 d)) \<noteq> 0"
  shows "DtlsSession_processDtlsPacket c der ent heap d s = Some (Ok (s', True))"
  unfolding DtlsSession_processDtlsPacket_def
  by (subst dtls_loop.simps, subst dtls_loop.simps) (use assms in \<open>auto simp: dtls_turn_def\<close>)

lemma client_finished:
  fixes k :: u16
  assumes "crypto_ok c" "entropy_ok ent" "at_stage StDone 4 4 data s" "suite s = Some cs" "length (server_write_key cs) = 16"
    and "length (client_write_key cs) = 16" "\<not> is_client cs" "length iv = 16" "hd_epoch h \<noteq> 0" "unat (hd_sequence_number h) < 2 ^ 48"
  defines "v \<equiv> PRF c (master_secret s) ''client finished'' (sha256_digest c data) 12"
  defines "sv \<equiv> PRF c (master_secret s) ''server finished'' (sha256_digest c (data @ finished_wire k v)) 12"
  shows "\<exists>s' w. DtlsSession_processDtlsPacket c der ent heap (ciper_wire c (swapped cs) iv h (finished_wire k v)) s = Some (Ok (s', True))
    \<and> handshake_done s' = [(SRTP_AES128_CM_HMAC_SHA1_80, srtp_recv_key s, srtp_send_key s)]
    \<and> last (sent_datagrams s') = w \<and> DTLSCiperText_decode c (swapped cs) w = Ok (int (length w), finished_wire 4 sv)"
proof -
  let ?d = "ciper_wire c (swapped cs) iv h (finished_wire k v)"
  have lv: "length v = 12" using length_PRF [OF assms(1)] by (simp add: v_def)
  note f = finished_wire_encode(2) [OF lv, of k]
  have ld: "length ?d = DTLSCiperText_size (finished_wire k v)" using assms(1,8) by (rule length_ciper_wire)
  have dec: "DTLSCiperText_decode c cs ?d = Ok (int (length ?d), finished_wire k v)"
    unfolding ld by (rule DTLSCiperText_decode_wire) (use assms f GenericBlockCipher_size_24 in \<open>simp_all add: swapped_def\<close>)
  obtain s' w where a: "processHandShakeFinished c ent heap (finished_wire k v) s = Ok (s', True)"
    "handshake_done s' = [(SRTP_AES128_CM_HMAC_SHA1_80, srtp_recv_key s, srtp_send_key s)]"
    "last (sent_datagrams s') = w" "DTLSCiperText_decode c (swapped cs) w = Ok (int (length w), finished_wire 4 sv)"
    using finished_answer [OF assms(1-5) assms(7) finished_verify_data_wire v_def [THEN meta_eq_to_obj_eq], of heap k] unfolding sv_def by blast
  have "ciper_record c ent heap ?d s = Ok (s', Some (int (length ?d)))"
    using assms(4) dec a(1) by (simp add: ciper_record_def)
  moreover obtain r where "?d = [hd_type h, fst (hd_version h), snd (hd_version h)] @ be 2 (unat (hd_epoch h)) @ r"
    by (simp add: ciper_wire_def Let_def dtls_header_wire_def)
  then have "5 \<le> length ?d" "unbe (take 2 (drop 3 ?d)) = unat (hd_epoch h)" by simp_all
  moreover have "unat (hd_epoch h) \<noteq> 0" using assms(9) by (simp add: unat_eq_zero)
  ultimately have "DtlsSession_processDtlsPacket c der ent heap ?d s = Some (Ok (s', True))"
    by (intro ciper_datagram) simp_all
  then show ?thesis using a by blast
qed

section \<open>Where the callback can come from\<close>

definition keys_from :: "dtls_crypto \<Rightarrow> bytes \<Rightarrow> bytes \<Rightarrow> bool" where
  "keys_from c rk sk \<longleftrightarrow> (\<exists>enc pms cr sr. rsa_private_decrypt c enc = Some pms
     \<and> (rk, sk) = srtp_keys c (PRF c pms ''master secret'' (cr @ sr) 48) (cr @ sr))"

definition dtls_inv :: "dtls_crypto \<Rightarrow> dtls_session \<Rightarrow> bool" where
  "dtls_inv c s \<longleftrightarrow> (\<forall>x \<in> set (handshake_done s). fst x = SRTP_AES128_CM_HMAC_SHA1_80 \<and> keys_from c (fst (snd x)) (snd (snd x)))
     \<and> (\<forall>cs. suite s = Some cs \<longrightarrow> client_write_key cs = [] \<and> \<not> is_client cs \<or> keys_from c (srtp_recv_key s) (srtp_send_key s))"

text \<open>A record of the datagram opened under the session's keys to a Finished message with the verify data
  the session expects.\<close>

definition finished_in :: "dtls_crypto \<Rightarrow> bytes \<Rightarrow> bool" where
  "finished_in c d \<longleftrightarrow> (\<exists>n (t :: dtls_session) cs rc content. suite t = Some cs \<and> DTLSCiperText_decode c cs (drop n d) = Ok (rc, content)
     \<and> finished_verify_data content = Ok (PRF c (master_secret t) ''client finished'' (sha256_digest c (handshake_data t)) 12)
     \<and> keys_from c (srtp_recv_key t) (srtp_send_key t))"

text \<open>Handlers leave the callback list alone and keep the invariant.\<close>

definition quiet :: "dtls_crypto \<Rightarrow> dtls_session \<Rightarrow> dtls_session \<Rightarrow> bool" where
  "quiet c s s' \<longleftrightarrow> handshake_done s' = handshake_done s \<and> (dtls_inv c s \<longrightarrow> dtls_inv c s')"

lemma quiet_refl [simp]: "quiet c s s"
  by (simp add: quiet_def)

lemma quiet_trans: "quiet c s s' \<Longrightarrow> quiet c s' s'' \<Longrightarrow> quiet c s s''"
  by (simp add: quiet_def)

lemma quiet_frame:
  "handshake_done s' = handshake_done s \<Longrightarrow> suite s' = suite s \<Longrightarrow> srtp_recv_key s' = srtp_recv_key s \<Longrightarrow>
     srtp_send_key s' = srtp_send_key s \<Longrightarrow> quiet c s s'"
  by (simp add: quiet_def dtls_inv_def)

lemma send_record_quiet: "send_record heap tr p s = Ok (s', ok) \<Longrightarrow> quiet c s s'"
  by (rule quiet_frame) (auto simp: send_record_def Let_def split: outcome.splits)

lemma send_handshake_quiet: "send_handshake heap tr ty b s = Ok (s', ok) \<Longrightarrow> quiet c s s'"
  by (auto simp: send_handshake_def Let_def dest: send_record_quiet)

lemma and_then_quiet:
  assumes "and_then r f = Ok (s', ok)" "\<And>t b. r = Ok (t, b) \<Longrightarrow> quiet c s t" "\<And>t b. f t = Ok (s', b) \<Longrightarrow> quiet c t s'"
  shows "quiet c s s'"
  using assms(1) unfolding and_then_def
  by (auto simp: outcome_iffs split: if_splits intro: assms(2) quiet_trans [OF assms(2) assms(3)])

lemma received_quiet: "quiet c s (received m st s)"
  by (rule quiet_frame) (simp_all add: received_def)

lemma processClientHello_quiet: "processClientHello ent heap m s = Ok (s', ok) \<Longrightarrow> quiet c s s'"
  unfolding processClientHello_ok by (auto simp: received_def intro: quiet_frame)

lemma new_suite_quiet: "quiet c s (s\<lparr>client_hello_rec := x, suite := Some RSA_AES128_SHA1_Cipher\<rparr>)"
  by (auto simp: quiet_def dtls_inv_def RSA_AES128_SHA1_Cipher_def)

lemma server_hello_quiet: "quiet c s (s\<lparr>server_hello_rec := x\<rparr>)"
  by (rule quiet_frame) simp_all

lemma processClientHelloWithCookie_quiet:
  assumes "processClientHelloWithCookie der ent heap m s = Ok (s', ok)"
  shows "quiet c s s'"
proof (rule quiet_trans [OF new_suite_quiet])
  let ?s = "s\<lparr>client_hello_rec := Some m, suite := Some RSA_AES128_SHA1_Cipher\<rparr>"
  let ?h = "make_server_hello ent"
  have hd: "quiet c t s'"
    if "and_then (send_handshake heap True server_hello_done ServerHelloDone t) (\<lambda>s. Ok (received m StClientKeyExchange s, True)) = Ok (s', b)"
    for t b
    by (rule and_then_quiet [OF that]) (auto intro: send_handshake_quiet simp: received_quiet)
  have cert: "quiet c t s'"
    if "and_then (send_handshake heap True certificate (ServerCertificate [der]) t) (\<lambda>t. and_then (send_handshake heap True
      server_hello_done ServerHelloDone t) (\<lambda>s. Ok (received m StClientKeyExchange s, True))) = Ok (s', b)"
    for t b
    by (rule and_then_quiet [OF that]) (auto intro: send_handshake_quiet hd)
  show "quiet c ?s s'"
    by (rule and_then_quiet [OF assms [unfolded processClientHelloWithCookie_def Let_def]])
      (auto intro: send_handshake_quiet quiet_trans [OF server_hello_quiet cert])
qed

lemma processClientKeyExchange_quiet:
  assumes "processClientKeyExchange c m s = Ok (s', ok)"
  shows "quiet c s s'"
proof (cases "s' = s")
  case False
  obtain e dec where e: "as_client_key_exchange (pt_msg m) = Ok e" "decryptRSA c e = Ok dec"
    using assms by (auto simp: processClientKeyExchange_def outcome_iffs)
  obtain pms where pms: "dec = Some pms" using assms False e by (cases dec) (auto simp: processClientKeyExchange_def)
  then obtain enc where enc: "rsa_private_decrypt c enc = Some pms" using e(2) by (auto simp: decryptRSA_def outcome_iffs)
  obtain v x n where v: "PreMasterSecret_decode pms = Ok ((v, x), n)"
    using assms False e pms by (cases "PreMasterSecret_decode pms") (auto simp: processClientKeyExchange_def)
  obtain cr sr cs' where r: "s' = received m StChangeCipherSpec (s\<lparr>master_secret := PRF c pms ''master secret'' (cr @ sr) 48, suite := Some cs',
      srtp_recv_key := fst (srtp_keys c (PRF c pms ''master secret'' (cr @ sr) 48) (cr @ sr)),
      srtp_send_key := snd (srtp_keys c (PRF c pms ''master secret'' (cr @ sr) 48) (cr @ sr))\<rparr>)"
    using assms False e pms v by (auto simp: processClientKeyExchange_def Let_def outcome_iffs split: if_splits)
  have "keys_from c (srtp_recv_key s') (srtp_send_key s')"
    using enc unfolding keys_from_def r received_def by (intro exI [of _ enc] exI [of _ pms] exI [of _ cr] exI [of _ sr]) simp
  moreover have "handshake_done s' = handshake_done s" by (simp add: r received_def)
  ultimately show ?thesis by (simp add: quiet_def dtls_inv_def)
qed simp

lemma run_handler_quiet: "run_handler c der ent heap m s = Ok (s', ok) \<Longrightarrow> quiet c s s'"
proof (cases "msg_handler s")
  case StChangeCipherSpec
  assume "run_handler c der ent heap m s = Ok (s', ok)"
  with StChangeCipherSpec have "s' = received m StDone (s\<lparr>ciper_state_changed := True\<rparr>)"
    by (simp add: run_handler_def processChangeCipherSpec_def)
  then show ?thesis by (auto simp: received_def intro: quiet_frame)
qed (auto simp: run_handler_def dest: processClientHello_quiet processClientHelloWithCookie_quiet
    processClientKeyExchange_quiet)

lemma unhandled_quiet: "quiet c s (s\<lparr>unhandled_msgs := q\<rparr>)"
  by (rule quiet_frame) simp_all

lemma drain_queue_quiet: "drain_queue n c der ent heap s = Ok s' \<Longrightarrow> quiet c s s'"
proof (induction n arbitrary: s)
  case (Suc n)
  show ?case
  proof (cases "take_first (wanted (require_handler s)) (unhandled_msgs s)")
    case (Some pq)
    then obtain p q where pq: "take_first (wanted (require_handler s)) (unhandled_msgs s) = Some (p, q)" by (cases pq) auto
    with Suc.prems obtain t b where t: "run_handler c der ent heap p (s\<lparr>unhandled_msgs := q\<rparr>) = Ok (t, b)"
      "(if b then drain_queue n c der ent heap t else Ok t) = Ok s'"
      by (auto simp: outcome_iffs)
    have "quiet c s t" using run_handler_quiet [OF t(1)] unhandled_quiet quiet_trans by blast
    then show ?thesis using t(2) Suc.IH [of t] quiet_trans by (cases b) auto
  qed (use Suc.prems in \<open>simp add: quiet_def\<close>)
qed (simp add: quiet_def)

lemma note_handshake_quiet: "quiet c s (note_handshake m b s)"
  by (rule quiet_frame) (simp_all add: note_handshake_def split: dtls_msg.splits)

lemma plain_record_quiet:
  assumes "plain_record c der ent heap d s = Ok (s', x)"
  shows "quiet c s s'"
proof (cases "DTLSPlaintext_decode d")
  case (Ok mn)
  obtain m n where mn: "mn = (m, n)" by (cases mn)
  let ?s = "note_handshake m (slice 13 (n - 13) d) s"
  have "quiet c ?s s'"
    using assms Ok unfolding mn plain_record_def Let_def
    by (auto simp: outcome_iffs split: if_splits dest!: run_handler_quiet drain_queue_quiet
        intro: quiet_trans unhandled_quiet)
  then show ?thesis using note_handshake_quiet quiet_trans by blast
qed (use assms in \<open>auto simp: plain_record_def quiet_def\<close>)

lemma send_server_finished_cases:
  assumes "send_server_finished c ent heap f s = Ok (s', ok)"
  shows "s' = s \<or> handshake_done s' = handshake_done s @ [(SRTP_AES128_CM_HMAC_SHA1_80, srtp_recv_key s, srtp_send_key s)]
    \<and> suite s' = suite s \<and> srtp_recv_key s' = srtp_recv_key s \<and> srtp_send_key s' = srtp_send_key s"
proof -
  let ?h = "\<lparr>hd_type = handshake, hd_version = DTLS_1_2, hd_epoch = 1, hd_sequence_number = ucast (epoch_send_seq s 1), hd_length = 0\<rparr>"
  obtain cs where "some_or_fault (suite s) = Ok cs" using assms by (auto simp: send_server_finished_def outcome_iffs)
  then show ?thesis using assms
    by (cases "DTLSCiperText_encode c cs (ent_iv ent) ?h f (map heap [0..<DTLSCiperText_size f], 0)")
      (auto simp: send_server_finished_def Let_def)
qed

lemma finished_quiet_or_done:
  assumes "processHandShakeFinished c ent heap content s = Ok (s', ok)"
  shows "finished_verify_data content \<noteq> Fault \<and> (quiet c s s' \<or>
    finished_verify_data content = Ok (PRF c (master_secret s) ''client finished'' (sha256_digest c (handshake_data s)) 12)
    \<and> handshake_done s' = handshake_done s @ [(SRTP_AES128_CM_HMAC_SHA1_80, srtp_recv_key s, srtp_send_key s)]
    \<and> suite s' = suite s \<and> srtp_recv_key s' = srtp_recv_key s \<and> srtp_send_key s' = srtp_send_key s)"
proof -
  obtain v where v: "finished_verify_data content = Ok v"
    using assms by (auto simp: processHandShakeFinished_def outcome_iffs)
  show ?thesis
  proof (cases "PRF c (master_secret s) ''client finished'' (sha256_digest c (handshake_data s)) 12 = v")
    case False
    then show ?thesis using assms v by (simp add: processHandShakeFinished_def)
  next
    case True
    let ?ccs = "send_record heap False (flight_record (ChangeCipherSpec 1) change_cipher_spec (epoch_send_seq s 0)) s"
    obtain t b where t: "?ccs = Ok (t, b)"
      using assms v True by (auto simp: processHandShakeFinished_def and_then_def outcome_iffs)
    have tq: "quiet c s t" using t by (rule send_record_quiet)
    have tf: "handshake_done t = handshake_done s" "suite t = suite s" "srtp_recv_key t = srtp_recv_key s" "srtp_send_key t = srtp_send_key s"
      using t by (auto simp: send_record_def Let_def split: outcome.splits)
    have "s' = t \<or> (\<exists>x f. send_server_finished c ent heap f (t\<lparr>handshake_data := x\<rparr>) = Ok (s', ok))"
      using assms v True t by (auto simp: processHandShakeFinished_def and_then_def Let_def outcome_iffs split: if_splits)
    then consider "s' = t" | x where "s' = t\<lparr>handshake_data := x\<rparr>" | "handshake_done s' = handshake_done t @
        [(SRTP_AES128_CM_HMAC_SHA1_80, srtp_recv_key t, srtp_send_key t)] \<and> suite s' = suite t \<and> srtp_recv_key s' = srtp_recv_key t
        \<and> srtp_send_key s' = srtp_send_key t" by (auto dest!: send_server_finished_cases)
    then show ?thesis
    proof cases
      case 2
      then have "quiet c t s'" by (auto intro: quiet_frame)
      then show ?thesis using tq v quiet_trans by auto
    qed (use tq tf v True in auto)
  qed
qed

lemma no_key_no_content:
  assumes "DTLSCiperText_decode c cs d = Ok (rc, content)" "client_write_key cs = []" "\<not> is_client cs"
  shows "content = []"
proof -
  have "ciper_decrypt c cs iv x = Fault" for iv x using assms(2,3) by (simp add: ciper_decrypt_def rdn_def)
  then show ?thesis using assms(1)
    by (auto simp: DTLSCiperText_decode_def GenericBlockCipher_decode_def outcome_iffs split: outcome.splits if_splits)
qed

lemma ciper_record_inv:
  assumes "ciper_record c ent heap (drop n d) s = Ok (s', x)" "dtls_inv c s"
  shows "dtls_inv c s' \<and> (handshake_done s' \<noteq> handshake_done s \<longrightarrow> finished_in c d)"
proof (cases "suite s")
  case (Some cs)
  then obtain rc content ok where r: "DTLSCiperText_decode c cs (drop n d) = Ok (rc, content)"
    "processHandShakeFinished c ent heap content s = Ok (s', ok)"
    using assms(1) by (auto simp: ciper_record_def outcome_iffs)
  note f = finished_quiet_or_done [OF r(2)]
  have "content \<noteq> []" using f by (auto simp: finished_verify_data_def HandShake_decode_def)
  then have k: "keys_from c (srtp_recv_key s) (srtp_send_key s)"
    using assms(2) Some no_key_no_content [OF r(1)] by (auto simp: dtls_inv_def)
  from f show ?thesis
  proof (elim conjE disjE)
    assume "quiet c s s'"
    then show ?thesis using assms(2) by (simp add: quiet_def)
  next
    assume a: "finished_verify_data content = Ok (PRF c (master_secret s) ''client finished'' (sha256_digest c (handshake_data s)) 12)"
      "handshake_done s' = handshake_done s @ [(SRTP_AES128_CM_HMAC_SHA1_80, srtp_recv_key s, srtp_send_key s)]"
      "suite s' = suite s" "srtp_recv_key s' = srtp_recv_key s" "srtp_send_key s' = srtp_send_key s"
    have "dtls_inv c s'" using assms(2) a k by (auto simp: dtls_inv_def)
    moreover have "finished_in c d" unfolding finished_in_def using Some r(1) a(1) k by blast
    ultimately show ?thesis by blast
  qed
qed (use assms in \<open>simp add: ciper_record_def\<close>)

lemma dtls_turn_inv:
  assumes "dtls_turn c der ent heap d pos s = Ok (s', x)" "dtls_inv c s"
  shows "dtls_inv c s' \<and> (handshake_done s' \<noteq> handshake_done s \<longrightarrow> finished_in c d)"
  using assms ciper_record_inv [OF _ assms(2)] plain_record_quiet [of c der ent heap "drop (nat pos) d" s]
  by (auto simp: dtls_turn_def outcome_iffs quiet_def split: if_splits)

lemma dtls_loop_inv:
  assumes "dtls_loop c der ent heap d pos s = Some r"
  shows "\<forall>s' ok. r = Ok (s', ok) \<and> dtls_inv c s \<longrightarrow> dtls_inv c s' \<and> (handshake_done s' \<noteq> handshake_done s \<longrightarrow> finished_in c d)"
  using assms
proof (rule dtls_loop.raw_induct [of "\<lambda>c der ent heap d pos s r. \<forall>s' ok. r = Ok (s', ok) \<and> dtls_inv c s \<longrightarrow>
    dtls_inv c s' \<and> (handshake_done s' \<noteq> handshake_done s \<longrightarrow> finished_in c d)", rotated], goal_cases)
  case (1 loop c der ent heap d pos s r)
  show ?case
  proof (intro allI impI, elim conjE)
    fix s' ok
    assume r: "r = Ok (s', ok)" "dtls_inv c s"
    then consider "s' = s" | t x where "dtls_turn c der ent heap d pos s = Ok (t, x)" "s' = t \<or> (\<exists>n. loop c der ent heap d n t = Some r)"
      using 1(2) by (auto split: if_splits outcome.split_asm option.split_asm prod.split_asm)
    then show "dtls_inv c s' \<and> (handshake_done s' \<noteq> handshake_done s \<longrightarrow> finished_in c d)"
    proof cases
      case 2
      note t = dtls_turn_inv [OF 2(1) r(2)]
      from 2(2) show ?thesis
      proof
        assume "\<exists>n. loop c der ent heap d n t = Some r"
        then have "dtls_inv c s' \<and> (handshake_done s' \<noteq> handshake_done t \<longrightarrow> finished_in c d)" using 1(1) r(1) t by blast
        then show ?thesis using t by metis
      qed (use t in simp)
    qed (use r in simp)
  qed
qed

section \<open>Properties\<close>


definition demo_hello_bytes :: "byte \<Rightarrow> bytes \<Rightarrow> bytes" where
  "demo_hello_bytes seq cookie =
     [22, 0xfe, 0xff, 0, 0, 0, 0, 0, 0, 0, seq, 0, 0] @ [1, 0, 0, 0, 0, seq, 0, 0, 0, 0, 0, 0]
     @ [0xfe, 0xfd] @ replicate 32 8 @ [0, of_nat (length cookie)] @ cookie @ [0, 2, 0, 0x2f, 1, 0]"

definition demo_key_exchange_bytes :: bytes where
  "demo_key_exchange_bytes =
     [22, 0xfe, 0xfd, 0, 0, 0, 0, 0, 0, 0, 2, 0, 0] @ [16, 0, 0, 0, 0, 2, 0, 0, 0, 0, 0, 0]
     @ [0, 64] @ [0xfe, 0xfd] @ replicate 62 6"

definition demo_change_cipher_bytes :: bytes where
  "demo_change_cipher_bytes = [20, 0xfe, 0xfd, 0, 0, 0, 0, 0, 0, 0, 3, 0, 1, 1]"

definition demo_entropy :: dtls_entropy where
  "demo_entropy = \<lparr>ent_cookie = replicate 12 1, ent_time = 1000, ent_random = replicate 28 2, ent_iv = replicate 16 3\<rparr>"

definition demo_client_hello :: "bytes \<Rightarrow> client_hello_msg" where
  "demo_client_hello cookie = \<lparr>client_version = DTLS_1_2,
     ch_random = \<lparr>gmt_unix_time = 0x08080808, random_bytes = replicate 28 8, random_raw = replicate 32 8\<rparr>,
     ch_session_id = [], ch_cookie = cookie, ch_cipher_suites = [0x002f], ch_compression_methods = [0]\<rparr>"

definition demo_header :: "byte \<Rightarrow> dtls_version \<Rightarrow> u64 \<Rightarrow> u16 \<Rightarrow> dtls_header" where
  "demo_header ty v seq l = \<lparr>hd_type = ty, hd_version = v, hd_epoch = 0, hd_sequence_number = seq, hd_length = l\<rparr>"

definition demo_plain :: "dtls_header \<Rightarrow> byte \<Rightarrow> u16 \<Rightarrow> handshake_body \<Rightarrow> dtls_plaintext" where
  "demo_plain h ty seq b = \<lparr>pt_header = h, pt_msg = HandShake \<lparr>msg_type = ty, message_seq = seq, hs_msg = b\<rparr>\<rparr>"

lemma demo_datagrams:
  "DTLSPlaintext_decode (demo_hello_bytes 0 []) = Ok (demo_plain (demo_header 22 (0xfe, 0xff) 0 0) 1 0 (ClientHello (demo_client_hello [])), 67)"
  "DTLSPlaintext_decode (demo_hello_bytes 1 [9]) = Ok (demo_plain (demo_header 22 (0xfe, 0xff) 1 0) 1 1 (ClientHello (demo_client_hello [9])), 68)"
  "DTLSPlaintext_decode demo_key_exchange_bytes = Ok (demo_plain (demo_header 22 DTLS_1_2 2 0) 16 2 (ClientKeyExchange ([0xfe, 0xfd] @ replicate 62 6)), 91)"
  "DTLSPlaintext_decode demo_change_cipher_bytes = Ok (\<lparr>pt_header = demo_header 20 DTLS_1_2 3 1, pt_msg = ChangeCipherSpec 1\<rparr>, 14)"
  by code_simp+


text \<open>Three ways to make the handshake read wild memory: a datagram of one to four bytes is read
  behind its end; in the key-exchange stage a record of any other kind is taken for a key exchange;
  and an encrypted secret shorter than the RSA key is read behind its end.\<close>

theorem dtls_handshake_faults:
  assumes "d \<noteq> []" "length d < 5" "msg_handler s = StClientKeyExchange" "\<forall>enc. as_client_key_exchange (pt_msg m) \<noteq> Ok enc"
    and "as_client_key_exchange (pt_msg m') = Ok enc" "length enc < rsa_size c"
  shows "DtlsSession_processDtlsPacket c der ent heap d t = Some Fault
    \<and> run_handler c der ent heap m s = Fault \<and> run_handler c der ent heap m' s = Fault"
proof -
  have "as_client_key_exchange x = Fault \<or> (\<exists>e. as_client_key_exchange x = Ok e)" for x
    by (cases x) (auto split: handshake_body.splits)
  with assms(4) have "as_client_key_exchange (pt_msg m) = Fault" by blast
  moreover have "rdn d 3 2 = Fault" using assms(2) by simp
  moreover have "decryptRSA c enc = Fault" using assms(6) by (simp add: decryptRSA_def rdn_def)
  ultimately show ?thesis unfolding DtlsSession_processDtlsPacket_def
    using assms(1,3,5) by (subst dtls_loop.simps) (simp add: run_handler_def processClientKeyExchange_def dtls_turn_def rdn_def)
qed

theorem dtls_handshake_faults_witness:
  "DtlsSession_processDtlsPacket demo_crypto [] demo_entropy (\<lambda>_. 0) [22] DtlsSession_init = Some Fault
    \<and> run_handler demo_crypto [] demo_entropy (\<lambda>_. 0) (demo_plain (demo_header 22 DTLS_1_2 2 0) 1 2 (ClientHello (demo_client_hello [])))
        (DtlsSession_init\<lparr>msg_handler := StClientKeyExchange\<rparr>) = Fault"
  using dtls_handshake_faults [of "[22]" "DtlsSession_init\<lparr>msg_handler := StClientKeyExchange\<rparr>"
      "demo_plain (demo_header 22 DTLS_1_2 2 0) 1 2 (ClientHello (demo_client_hello []))"
      "demo_plain (demo_header 22 DTLS_1_2 2 0) 16 2 (ClientKeyExchange [])" "[]" demo_crypto "[]" demo_entropy "\<lambda>_. 0" DtlsSession_init]
  by (simp add: demo_plain_def demo_crypto_def)



text \<open>Claim C34: The MAC of the client's Finished record does not matter: when the decoder reports that it is
  wrong, the session still checks only the verify data, sends its own flight and calls the
  completion handler, and then reads in front of the datagram because the error code was added to
  the pointer.\<close>

theorem finished_mac_ignored:
  assumes "suite s = Some cs" "DTLSCiperText_decode c cs d = Ok (-2, content)"
    and "processHandShakeFinished c ent heap content s = Ok (s', True)"
    and "5 \<le> length d" "unbe (take 2 (drop 3 d)) \<noteq> 0"
  shows "ciper_record c ent heap d s = Ok (s', Some (-2))
    \<and> DtlsSession_processDtlsPacket c der ent heap d s = Some Fault"
proof -
  have r: "ciper_record c ent heap d s = Ok (s', Some (-2))"
    using assms(1-3) by (simp add: ciper_record_def)
  have "dtls_loop c der ent heap d (-2) s' = Some Fault"
    using assms(4) by (subst dtls_loop.simps) (simp add: dtls_turn_def)
  then have "DtlsSession_processDtlsPacket c der ent heap d s = Some Fault"
    unfolding DtlsSession_processDtlsPacket_def
    by (subst dtls_loop.simps) (use assms(4,5) r in \<open>auto simp: dtls_turn_def\<close>)
  with r show ?thesis by blast
qed

text \<open>A session that waits for the Finished record, over primitives whose MAC shows the key.\<close>

definition tiny_crypto :: dtls_crypto where
  "tiny_crypto = demo_crypto\<lparr>hmac_sha1 := (\<lambda>k d. replicate 20 (hd (k @ [0]))), hmac_sha256 := (\<lambda>k d. replicate 32 1),
     sha256_digest := (\<lambda>d. replicate 32 2)\<rparr>"

definition tiny_suite :: ciper_suite where
  "tiny_suite = \<lparr>is_client = False, client_write_MAC_key = replicate 20 1, server_write_MAC_key = replicate 20 2,
     client_write_key = replicate 16 3, server_write_key = replicate 16 4, client_write_IV = [], server_write_IV = []\<rparr>"

definition tiny_session :: dtls_session where
  "tiny_session = DtlsSession_init\<lparr>msg_handler := StDone, suite := Some tiny_suite,
     epoch_receive_seq := (\<lambda>_. 4), epoch_send_seq := (\<lambda>e. if e = 0 then 4 else 0)\<rparr>"

definition tiny_finished :: bytes where
  "tiny_finished = finished_wire 5 (PRF tiny_crypto [] ''client finished'' (replicate 32 2) 12)"

definition forged_record :: bytes where
  "forged_record = ciper_wire tiny_crypto ((swapped tiny_suite)\<lparr>server_write_MAC_key := replicate 20 9\<rparr>) (replicate 16 0)
     \<lparr>hd_type = 22, hd_version = DTLS_1_2, hd_epoch = 1, hd_sequence_number = 0, hd_length = 0\<rparr> tiny_finished"

lemma tiny_crypto_ok: "crypto_ok tiny_crypto"
  using demo_crypto_ok by (simp add: crypto_ok_def tiny_crypto_def)

lemma forged_record_decodes:
  "DTLSCiperText_decode tiny_crypto tiny_suite forged_record = Ok (-2, tiny_finished)"
  "length forged_record = 77" "unbe (take 2 (drop 3 forged_record)) = 1"
  by code_simp+

theorem finished_mac_ignored_witness:
  "\<exists>s'. ciper_record tiny_crypto demo_entropy (\<lambda>_. 0) forged_record tiny_session = Ok (s', Some (-2))
    \<and> handshake_done s' \<noteq> []
    \<and> DtlsSession_processDtlsPacket tiny_crypto [] demo_entropy (\<lambda>_. 0) forged_record tiny_session = Some Fault"
proof -
  have s: "at_stage StDone 4 4 [] tiny_session" "suite tiny_session = Some tiny_suite" "master_secret tiny_session = []"
    by (simp_all add: at_stage_def tiny_session_def DtlsSession_init_def)
  have "entropy_ok demo_entropy" "length (server_write_key tiny_suite) = 16" "\<not> is_client tiny_suite"
    by (simp_all add: entropy_ok_def demo_entropy_def tiny_suite_def)
  moreover have "finished_verify_data tiny_finished = Ok (PRF tiny_crypto (master_secret tiny_session) ''client finished'' (sha256_digest tiny_crypto []) 12)"
    by (simp add: tiny_finished_def finished_verify_data_wire s(3)) (simp add: tiny_crypto_def)
  ultimately obtain s' where "processHandShakeFinished tiny_crypto demo_entropy (\<lambda>_. 0) tiny_finished tiny_session = Ok (s', True)"
    "handshake_done s' \<noteq> []"
    using finished_answer [OF tiny_crypto_ok _ s(1,2), where heap = "\<lambda>_. 0"] by (metis list.distinct(1))
  then show ?thesis
    using finished_mac_ignored [OF s(2) forged_record_decodes(1), of demo_entropy "\<lambda>_. 0" s' "[]"] forged_record_decodes(2,3) by auto
qed

end
