(* ===== verification/Webrtc.thy ===== *)
theory Webrtc
  imports Stun Rtp Dtls_Session
begin

text \<open>
  The datagram side of the WebRTC server (\<open>src/server/webrtc/webrtc_server.cpp\<close>) and of its sessions
  (\<open>webrtc_session.cpp\<close>): the demultiplexer, the maps from ICE user fragments and from endpoints to
  sessions, the ICE-lite answers to binding requests and the handling of media packets.

  Sessions are shared pointers, here numbers; what a session holds is the record \<open>webrtc_session\<close>.
  The server handles a datagram under its own worker and leaves the rest to a coroutine on the
  worker of the session: the value \<open>session_task\<close> is that coroutine, which runs later.  HMAC-SHA1
  (OpenSSL) and the SRTP transforms (libsrtp) are arguments.
\<close>

section \<open>Data\<close>

type_synonym endpoint = "u32 \<times> u16" \<comment> \<open>address and port\<close>

datatype udp_msg_type = UDP_MSG_UNKNOWN | UDP_MSG_STUN | UDP_MSG_ZRTP | UDP_MSG_DTLS | UDP_MSG_TURN | UDP_MSG_RTP

record webrtc_session =
  local_ice_ufrag :: string
  local_ice_pwd :: string
  remote_ice_ufrag :: string
  remote_ice_pwd :: string
  audio_pt :: byte
  video_pt :: byte

record webrtc_server =
  conn_map :: "nat \<rightharpoonup> nat" \<comment> \<open>open websockets and the session of each\<close>
  endpoint_session_map :: "u64 \<rightharpoonup> nat"
  ufrag_session_map :: "string \<rightharpoonup> nat"

datatype session_task =
    StunTask (task_session: nat) (task_msg: stun_msg) (task_data: bytes) (task_ep: endpoint)
  | DtlsTask (task_session: nat) (task_data: bytes) (task_ep: endpoint)
  | SrtpTask (task_session: nat) (task_data: bytes) (task_ep: endpoint)

section \<open>The server\<close>

definition getEndPointHash :: "endpoint \<Rightarrow> u64" where
  "getEndPointHash ep = push_bit 32 (ucast (fst ep)) OR ucast (snd ep)"

definition detectMsgType :: "bytes \<Rightarrow> udp_msg_type outcome" where
  "detectMsgType d =
     obind (rd8 d 0) (\<lambda>b.
       Ok (if 0 \<le> b \<and> b \<le> 3 then UDP_MSG_STUN
           else if 16 \<le> b \<and> b \<le> 19 then UDP_MSG_ZRTP
           else if 20 \<le> b \<and> b \<le> 63 then UDP_MSG_DTLS
           else if 64 \<le> b \<and> b \<le> 79 then UDP_MSG_TURN
           else if 128 \<le> b \<and> b \<le> 191 then UDP_MSG_RTP
           else UDP_MSG_UNKNOWN))"

text \<open>\<open>insert\<close> of an \<open>unordered_map\<close>: an existing key keeps its value.\<close>

definition umap_insert :: "'k \<Rightarrow> 'v \<Rightarrow> ('k \<rightharpoonup> 'v) \<Rightarrow> ('k \<rightharpoonup> 'v)" where
  "umap_insert k v m = (case m k of Some _ \<Rightarrow> m | None \<Rightarrow> m(k \<mapsto> v))"

definition processStunPacket ::
  "stun_msg \<Rightarrow> bytes \<Rightarrow> endpoint \<Rightarrow> webrtc_server \<Rightarrow> webrtc_server \<times> session_task option" where
  "processStunPacket m d ep srv =
     (case username_attr m of
        None \<Rightarrow> (srv, None)
      | Some (local_user_name, _) \<Rightarrow>
          if local_user_name = [] then (srv, None)
          else case ufrag_session_map srv local_user_name of
            None \<Rightarrow> (srv, None)
          | Some s \<Rightarrow>
              (srv\<lparr>endpoint_session_map := umap_insert (getEndPointHash ep) s (endpoint_session_map srv)\<rparr>,
               Some (StunTask s m d ep)))"

definition processDtlsPacket :: "bytes \<Rightarrow> endpoint \<Rightarrow> webrtc_server \<Rightarrow> session_task option" where
  "processDtlsPacket d ep srv =
     (case endpoint_session_map srv (getEndPointHash ep) of
        None \<Rightarrow> None
      | Some s \<Rightarrow> Some (DtlsTask s d ep))"

definition processSRTPPacket :: "bytes \<Rightarrow> endpoint \<Rightarrow> webrtc_server \<Rightarrow> session_task option" where
  "processSRTPPacket d ep srv =
     (case endpoint_session_map srv (getEndPointHash ep) of
        None \<Rightarrow> None
      | Some s \<Rightarrow> Some (SrtpTask s d ep))"

text \<open>The value is \<open>None\<close> when the STUN decoder does not return; \<open>junk\<close> is the uninitialised header of the
  new message.\<close>

definition WebRtcServer_onUdpSocketRecv ::
  "stun_header \<Rightarrow> bytes \<Rightarrow> endpoint \<Rightarrow> webrtc_server \<Rightarrow> (webrtc_server \<times> session_task option) outcome option" where
  "WebRtcServer_onUdpSocketRecv junk d ep srv =
     (case detectMsgType d of
        Fault \<Rightarrow> Some Fault
      | Err e \<Rightarrow> Some (Err e)
      | Ok ty \<Rightarrow>
          if ty = UDP_MSG_STUN then
            (case StunMsg_decode d (StunMsg_new junk) of
               None \<Rightarrow> None
             | Some Fault \<Rightarrow> Some Fault
             | Some (Err _) \<Rightarrow> Some (Ok (srv, None))
             | Some (Ok m) \<Rightarrow> Some (Ok (processStunPacket m d ep srv)))
          else if ty = UDP_MSG_DTLS then Some (Ok (srv, processDtlsPacket d ep srv))
          else if ty = UDP_MSG_RTP then Some (Ok (srv, processSRTPPacket d ep srv))
          else Some (Ok (srv, None)))"

text \<open>A session is created with a random user fragment and password (four and twenty-four characters
  of \<^const>\<open>randStr\<close>).  A closed websocket leaves both session maps as they are.\<close>

definition WebRtcSession_new :: "string \<Rightarrow> string \<Rightarrow> webrtc_session" where
  "WebRtcSession_new ufrag pwd = \<lparr>local_ice_ufrag = ufrag, local_ice_pwd = pwd, remote_ice_ufrag = [],
     remote_ice_pwd = [], audio_pt = 111, video_pt = 127\<rparr>"

definition onWebsocketOpen :: "nat \<Rightarrow> nat \<Rightarrow> webrtc_session \<Rightarrow> webrtc_server \<Rightarrow> webrtc_server" where
  "onWebsocketOpen conn s sess srv =
     srv\<lparr>conn_map := umap_insert conn s (conn_map srv),
         ufrag_session_map := umap_insert (local_ice_ufrag sess) s (ufrag_session_map srv)\<rparr>"

definition onWebsocketClose :: "nat \<Rightarrow> webrtc_server \<Rightarrow> webrtc_server" where
  "onWebsocketClose conn srv =
     (case conn_map srv conn of
        None \<Rightarrow> srv
      | Some _ \<Rightarrow> srv\<lparr>conn_map := (conn_map srv)(conn := None)\<rparr>)"

section \<open>The session\<close>

text \<open>The answer to a binding request: \<open>None\<close> if the request is rejected, otherwise the datagram that is
  sent back.  \<open>heap\<close> is the content of the freshly allocated buffer.\<close>

definition processStunBindingReq ::
  "(bytes \<Rightarrow> bytes \<Rightarrow> bytes) \<Rightarrow> stun_header \<Rightarrow> (nat \<Rightarrow> byte) \<Rightarrow> webrtc_session \<Rightarrow> stun_msg \<Rightarrow> endpoint \<Rightarrow> bytes option outcome" where
  "processStunBindingReq hmac junk heap sess m ep =
     (let binding_resp = addAttr (StunMappedAddressAttr 0x01 (snd ep) (fst ep)) (StunBindingResponseMsg junk m) in
      case username_attr m of
        None \<Rightarrow> Ok None
      | Some (local_user_name, remote_user_name) \<Rightarrow>
          if local_user_name = [] then Ok None
          else if remote_user_name = [] then Ok None
          else if remote_user_name \<noteq> remote_ice_ufrag sess then Ok None
          else
            let binding_resp = binding_resp\<lparr>username_attr := Some (local_user_name, remote_user_name)\<rparr>;
                size = StunMsg_size True True binding_resp in
            case StunMsg_encode hmac True (local_ice_pwd sess) True binding_resp (map heap [0..<size]) of
              Fault \<Rightarrow> Fault
            | Err _ \<Rightarrow> Ok None
            | Ok (buf, _) \<Rightarrow> Ok (Some buf))"

definition WebRtcSession_processStunPacket ::
  "(bytes \<Rightarrow> bytes \<Rightarrow> bytes) \<Rightarrow> stun_header \<Rightarrow> (nat \<Rightarrow> byte) \<Rightarrow> webrtc_session \<Rightarrow> stun_msg \<Rightarrow> bytes \<Rightarrow> endpoint \<Rightarrow> bytes option outcome" where
  "WebRtcSession_processStunPacket hmac junk heap sess m d ep =
     obind (checkMsgIntegrity hmac m d (local_ice_pwd sess)) (\<lambda>ok.
       if \<not> ok then Ok None
       else obind (checkFingerPrint m d) (\<lambda>ok.
         if \<not> ok then Ok None
         else if stun_type (msg_header m) = STUN_BINDING_REQUEST
         then processStunBindingReq hmac junk heap sess m ep
         else Ok None))"

abbreviation (input) SRTP_MAX_BUFFER_SIZE :: nat where "SRTP_MAX_BUFFER_SIZE \<equiv> 65535"

text \<open>\<open>srtp_unprotect\<close> works in place and returns the new length: the transform yields the buffer behind
  the call and that length.\<close>

definition unprotectSRTP :: "(bytes \<Rightarrow> (bytes \<times> nat) option) \<Rightarrow> bytes \<Rightarrow> (bytes \<times> nat) outcome" where
  "unprotectSRTP srtp_unprotect d =
     (if SRTP_MAX_BUFFER_SIZE \<le> length d then Err (-1)
      else case srtp_unprotect d of None \<Rightarrow> Err (-2) | Some r \<Rightarrow> Ok r)"

definition unprotectSRTCP :: "(bytes \<Rightarrow> (bytes \<times> nat) option) \<Rightarrow> bytes \<Rightarrow> (bytes \<times> nat) outcome" where
  "unprotectSRTCP srtp_unprotect_rtcp d =
     (if SRTP_MAX_BUFFER_SIZE \<le> length d then Err (-1)
      else case srtp_unprotect_rtcp d of None \<Rightarrow> Err (-2) | Some r \<Rightarrow> Ok r)"

text \<open>The video packet that is handed to the media source, if any; \<open>pkt0\<close> is the new packet before it is
  decoded.\<close>

definition processSRtpPacket ::
  "(bytes \<Rightarrow> (bytes \<times> nat) option) \<Rightarrow> (bytes \<Rightarrow> (bytes \<times> nat) option) \<Rightarrow> h264_rtp_packet \<Rightarrow> webrtc_session \<Rightarrow> bytes
     \<Rightarrow> h264_rtp_packet option outcome" where
  "processSRtpPacket srtp_unprotect srtp_unprotect_rtcp pkt0 sess d =
     obind (isRtcpPacket d) (\<lambda>rtcp.
       if rtcp then (case unprotectSRTCP srtp_unprotect_rtcp d of Fault \<Rightarrow> Fault | _ \<Rightarrow> Ok None)
       else obind (isRtp d) (\<lambda>rtp.
         if rtp then
           (case unprotectSRTP srtp_unprotect d of
              Fault \<Rightarrow> Fault
            | Err _ \<Rightarrow> Ok None
            | Ok (d, out_len) \<Rightarrow>
                obind (parsePt d) (\<lambda>pt.
                  if pt = audio_pt sess then Ok None
                  else if pt = video_pt sess then
                    (case H264RtpPacket_decode pkt0 (take out_len d) of
                       Fault \<Rightarrow> Fault
                     | Err _ \<Rightarrow> Ok None
                     | Ok (pkt, _) \<Rightarrow> Ok (Some pkt))
                  else Ok None))
         else Ok None))"

section \<open>DTLS and SRTP of the session\<close>

datatype ssrc_type = ssrc_any_inbound | ssrc_any_outbound

record srtp_policy =
  pol_cipher_key_len :: nat \<comment> \<open>of \<open>rtp\<close> and \<open>rtcp\<close>\<close>
  pol_ssrc_type :: ssrc_type
  pol_key :: bytes
  pol_window_size :: nat
  pol_allow_repeat_tx :: bool

text \<open>The key is a pointer into the string; \<open>srtp_create\<close> reads as many bytes there as the policy says.  A
  string of another length is only reported.  The result is the inbound and the outbound context
  and the returned flag.\<close>

definition srtp_context :: "(srtp_policy \<Rightarrow> 'ctx option) \<Rightarrow> srtp_policy \<Rightarrow> bytes \<Rightarrow> 'ctx option outcome" where
  "srtp_context srtp_create pol key = obind (rdn key 0 (pol_cipher_key_len pol)) (\<lambda>k. Ok (srtp_create (pol\<lparr>pol_key := k\<rparr>)))"

definition SRTPSession_init ::
  "(srtp_policy \<Rightarrow> 'ctx option) \<Rightarrow> u16 \<Rightarrow> bytes \<Rightarrow> bytes \<Rightarrow> ('ctx option \<times> 'ctx option \<times> bool) outcome" where
  "SRTPSession_init srtp_create profile recv_key send_key =
     (let pol = \<lparr>pol_cipher_key_len = (if profile = SRTP_AES128_CM_HMAC_SHA1_80 then 30 else 0), pol_ssrc_type = ssrc_any_inbound,
            pol_key = [], pol_window_size = 4096, pol_allow_repeat_tx = True\<rparr> in
      obind (srtp_context srtp_create pol recv_key) (\<lambda>recv_ctx.
        if recv_ctx = None then Ok (None, None, False)
        else obind (srtp_context srtp_create (pol\<lparr>pol_ssrc_type := ssrc_any_outbound\<rparr>) send_key) (\<lambda>send_ctx.
          Ok (recv_ctx, send_ctx, send_ctx \<noteq> None))))"

text \<open>The coroutine that handles a DTLS datagram of the session: the completion callbacks it makes set up
  the SRTP session, the last one counts.\<close>

definition onDtlsHandshakeDone ::
  "(srtp_policy \<Rightarrow> 'ctx option) \<Rightarrow> u16 \<times> bytes \<times> bytes \<Rightarrow> ('ctx option \<times> 'ctx option \<times> bool) outcome" where
  "onDtlsHandshakeDone srtp_create x = SRTPSession_init srtp_create (fst x) (fst (snd x)) (snd (snd x))"

section \<open>The server as a state machine\<close>

text \<open>One event of the server: a websocket opens with a new session, a websocket closes, or a datagram
  is handled and perhaps leaves a task for a session.\<close>

inductive server_step :: "(nat \<Rightarrow> webrtc_session) \<Rightarrow> webrtc_server \<Rightarrow> session_task option \<Rightarrow> webrtc_server \<Rightarrow> bool"
  for sess :: "nat \<Rightarrow> webrtc_session" where
  ws_open: "server_step sess srv None (onWebsocketOpen conn s (sess s) srv)"
| ws_close: "server_step sess srv None (onWebsocketClose conn srv)"
| datagram: "WebRtcServer_onUdpSocketRecv junk d ep srv = Some (Ok (srv', t)) \<Longrightarrow> server_step sess srv t srv'"

inductive server_run :: "(nat \<Rightarrow> webrtc_session) \<Rightarrow> webrtc_server \<Rightarrow> session_task list \<Rightarrow> webrtc_server \<Rightarrow> bool"
  for sess :: "nat \<Rightarrow> webrtc_session" where
  run_start: "server_run sess srv [] srv"
| run_step: "server_run sess srv ts srv' \<Longrightarrow> server_step sess srv' t srv'' \<Longrightarrow>
    server_run sess srv (ts @ (case t of None \<Rightarrow> [] | Some t \<Rightarrow> [t])) srv''"

inductive_cases server_stepE: "server_step sess srv t srv'"

definition server_init :: webrtc_server where
  "server_init = \<lparr>conn_map = (\<lambda>_. None), endpoint_session_map = (\<lambda>_. None), ufrag_session_map = (\<lambda>_. None)\<rparr>"

definition server_inv :: "(nat \<Rightarrow> webrtc_session) \<Rightarrow> webrtc_server \<Rightarrow> bool" where
  "server_inv sess srv \<longleftrightarrow>
     (\<forall>u s. ufrag_session_map srv u = Some s \<longrightarrow> local_ice_ufrag (sess s) = u)
     \<and> (\<forall>e s. endpoint_session_map srv e = Some s \<longrightarrow> ufrag_session_map srv (local_ice_ufrag (sess s)) = Some s)"

section \<open>Lemmas\<close>

lemma map_le_Some: "m \<subseteq>\<^sub>m m' \<Longrightarrow> m k = Some v \<Longrightarrow> m' k = Some v"
  by (metis map_le_def domI)

lemma getEndPointHash_bits:
  "bit (getEndPointHash (a, p)) n \<longleftrightarrow> (if n < 32 then bit p n else n < 64 \<and> bit a (n - 32))"
  by (auto simp: getEndPointHash_def bit_or_iff bit_push_bit_iff bit_unsigned_iff dest: bit_imp_le_length)

lemma getEndPointHash_inject [simp]: "getEndPointHash e = getEndPointHash e' \<longleftrightarrow> e = e'"
proof
  assume eq: "getEndPointHash e = getEndPointHash e'"
  obtain a p b q where e: "e = (a, p)" "e' = (b, q)" by (cases e, cases e')
  have bits: "(if n < 32 then bit p n else n < 64 \<and> bit a (n - 32)) = (if n < 32 then bit q n else n < 64 \<and> bit b (n - 32))" for n
    using eq unfolding e by (metis getEndPointHash_bits)
  have "p = q"
  proof (rule bit_word_eqI)
    fix n assume "n < LENGTH(16)"
    then show "bit p n = bit q n" using bits [of n] by simp
  qed
  moreover have "a = b"
  proof (rule bit_word_eqI)
    fix n assume "n < LENGTH(32)"
    then show "bit a n = bit b n" using bits [of "n + 32"] by simp
  qed
  ultimately show "e = e'" by (simp add: e)
qed simp

lemma umap_insert_extends: "m \<subseteq>\<^sub>m umap_insert k v m"
  by (auto simp: umap_insert_def map_le_def split: option.splits)

lemma umap_insert_apply: "umap_insert k v m x = (if x = k \<and> m k = None then Some v else m x)"
  by (auto simp: umap_insert_def split: option.splits)

text \<open>What a handled datagram can do to the server, and which task it can leave.\<close>

lemma processStunPacket_cases:
  assumes "processStunPacket m d ep srv = (srv', t)"
  shows "srv' = srv \<and> t = None \<or>
    (\<exists>s u r. username_attr m = Some (u, r) \<and> u \<noteq> [] \<and> ufrag_session_map srv u = Some s \<and> t = Some (StunTask s m d ep)
      \<and> srv' = srv\<lparr>endpoint_session_map := umap_insert (getEndPointHash ep) s (endpoint_session_map srv)\<rparr>)"
  using assms by (auto simp: processStunPacket_def split: option.splits prod.splits if_splits)

lemma onUdpSocketRecv_result:
  assumes "WebRtcServer_onUdpSocketRecv junk d ep srv = Some (Ok (srv', t))"
  shows "srv' = srv \<and> t = None
    \<or> (\<exists>m. processStunPacket m d ep srv = (srv', t))
    \<or> (\<exists>s. endpoint_session_map srv (getEndPointHash ep) = Some s \<and> srv' = srv \<and>
         (t = Some (DtlsTask s d ep) \<or> t = Some (SrtpTask s d ep)))"
  using assms
  by (auto simp: WebRtcServer_onUdpSocketRecv_def processDtlsPacket_def processSRTPPacket_def
      split: outcome.splits option.splits if_splits)

lemma onUdpSocketRecv_cases:
  assumes "WebRtcServer_onUdpSocketRecv junk d ep srv = Some (Ok (srv', t))"
  obtains (quiet) "srv' = srv" "t = None"
  | (stun) s m u where "ufrag_session_map srv u = Some s" "t = Some (StunTask s m d ep)"
      "srv' = srv\<lparr>endpoint_session_map := umap_insert (getEndPointHash ep) s (endpoint_session_map srv)\<rparr>"
  | (media) s where "endpoint_session_map srv (getEndPointHash ep) = Some s" "srv' = srv"
      "t = Some (DtlsTask s d ep) \<or> t = Some (SrtpTask s d ep)"
proof -
  from onUdpSocketRecv_result [OF assms] processStunPacket_cases [of _ d ep srv srv' t]
  consider "srv' = srv \<and> t = None"
    | "\<exists>s u m. ufrag_session_map srv u = Some s \<and> t = Some (StunTask s m d ep)
        \<and> srv' = srv\<lparr>endpoint_session_map := umap_insert (getEndPointHash ep) s (endpoint_session_map srv)\<rparr>"
    | "\<exists>s. endpoint_session_map srv (getEndPointHash ep) = Some s \<and> srv' = srv \<and>
         (t = Some (DtlsTask s d ep) \<or> t = Some (SrtpTask s d ep))" by blast
  then show thesis using that by cases blast+
qed

lemma server_step_extends:
  assumes "server_step sess srv t srv'"
  shows "ufrag_session_map srv \<subseteq>\<^sub>m ufrag_session_map srv' \<and> endpoint_session_map srv \<subseteq>\<^sub>m endpoint_session_map srv'"
  using assms
proof (cases rule: server_step.cases)
  case (datagram junk d ep)
  then show ?thesis
    by (cases rule: onUdpSocketRecv_cases) (simp_all add: umap_insert_extends)
qed (simp_all add: onWebsocketOpen_def onWebsocketClose_def umap_insert_extends split: option.splits)

lemma server_inv_grow:
  assumes "server_inv sess srv" "local_ice_ufrag (sess s) = u"
  shows "server_inv sess (srv\<lparr>ufrag_session_map := umap_insert u s (ufrag_session_map srv)\<rparr>)"
  using assms unfolding server_inv_def by (simp add: umap_insert_apply) (metis option.distinct(1))

lemma server_step_inv:
  assumes "server_step sess srv t srv'" "server_inv sess srv"
  shows "server_inv sess srv'"
  using assms(1)
proof (cases rule: server_step.cases)
  case (ws_open conn s)
  then show ?thesis using server_inv_grow [OF assms(2) refl, of s] by (simp add: onWebsocketOpen_def server_inv_def)
next
  case (ws_close conn)
  then show ?thesis using assms(2) by (simp add: onWebsocketClose_def server_inv_def split: option.splits)
next
  case (datagram junk d ep)
  then show ?thesis
    by (cases rule: onUdpSocketRecv_cases) (use assms(2) in \<open>auto simp: server_inv_def umap_insert_apply\<close>)
qed

lemma server_run_extends:
  "server_run sess srv ts srv' \<Longrightarrow>
     ufrag_session_map srv \<subseteq>\<^sub>m ufrag_session_map srv' \<and> endpoint_session_map srv \<subseteq>\<^sub>m endpoint_session_map srv'"
proof (induction rule: server_run.induct)
  case (run_start srv)
  then show ?case by simp
next
  case (run_step srv ts srv' t srv'')
  then show ?case using server_step_extends [OF run_step.hyps(2)] by (auto intro: map_le_trans)
qed

lemma server_run_inv: "server_run sess srv ts srv' \<Longrightarrow> server_inv sess srv \<Longrightarrow> server_inv sess srv'"
  by (induction rule: server_run.induct) (blast intro: server_step_inv)+

lemma server_inv_init: "server_inv sess server_init"
  by (simp add: server_inv_def server_init_def)

lemma server_run_tasks:
  "server_run sess srv ts srv' \<Longrightarrow> server_inv sess srv \<Longrightarrow> \<forall>t \<in> set ts. task_session t \<in> ran (ufrag_session_map srv')"
proof (induction rule: server_run.induct)
  case (run_step srv ts srv' t srv'')
  have old: "ran (ufrag_session_map srv') \<subseteq> ran (ufrag_session_map srv'')"
    using server_step_extends [OF run_step.hyps(2)] by (auto simp: map_le_def ran_def dom_def) metis
  have inv: "server_inv sess srv'" using run_step server_run_inv by blast
  have "task_session k \<in> ran (ufrag_session_map srv'')" if "t = Some k" for k
    using run_step.hyps(2)
  proof (cases rule: server_step.cases)
    case (datagram junk d ep)
    then have "task_session k \<in> ran (ufrag_session_map srv')"
      by (cases rule: onUdpSocketRecv_cases) (use inv that in \<open>auto simp: server_inv_def intro: ranI [of _ "local_ice_ufrag (sess (task_session k))"] ranI\<close>)
    with old show ?thesis by blast
  qed (use that in auto)
  with run_step old show ?case by (auto split: option.splits)
qed simp

lemma be_byte_0: "take 2 w = be 2 (unat ty) \<Longrightarrow> (ty :: u16) = STUN_BINDING_REQUEST \<Longrightarrow> detectMsgType w = Ok UDP_MSG_STUN"
proof -
  assume a: "take 2 w = be 2 (unat ty)" "ty = STUN_BINDING_REQUEST"
  then have "take 2 w = [0, 1]" by (simp add: wire_simps)
  then obtain r where "w = 0 # 1 # r" by (metis append_Cons append_Nil append_take_drop_id)
  then show ?thesis by (simp add: detectMsgType_def)
qed

text \<open>The session's answer to a request that passed both checks.\<close>

lemma processStunBindingReq_answer:
  assumes "username_attr m = Some u" "username_ok u" "snd u \<noteq> []" "snd u = remote_ice_ufrag sess"
    and "length (transaction_id (msg_header m)) = 12" "StunUsernameAttr_size u + 64 < 65536" "\<forall>k d. length (hmac k d) = 20"
  shows "\<exists>w m'. processStunBindingReq hmac junk heap sess m ep = Ok (Some w) \<and> StunMsg_decode w (StunMsg_new junk') = Some (Ok m')
    \<and> stun_type (msg_header m') = STUN_BINDING_RESPONSE \<and> transaction_id (msg_header m') = transaction_id (msg_header m)
    \<and> username_attr m' = Some u \<and> msg_attrs m' = [StunMappedAddressAttr 0x01 (snd ep) (fst ep)]
    \<and> checkMsgIntegrity hmac m' w (local_ice_pwd sess) = Ok True \<and> checkFingerPrint m' w = Ok True"
proof -
  define r where "r = (addAttr (StunMappedAddressAttr 0x01 (snd ep) (fst ep)) (StunBindingResponseMsg junk m))
      \<lparr>username_attr := Some u\<rparr>"
  define buf where "buf = map heap [0..<StunMsg_size True True r]"
  have r: "msg_attrs r = [StunMappedAddressAttr 0x01 (snd ep) (fst ep)]" "username_attr r = Some u"
    "stun_type (msg_header r) = STUN_BINDING_RESPONSE" "transaction_id (msg_header r) = transaction_id (msg_header m)"
    "magic_cookie (msg_header r) = STUN_MAGIC_COOKIE"
    by (simp_all add: r_def addAttr_def StunBindingResponseMsg_def StunMsg_new_def Let_def)
  have "header_ok (msg_header r)" using r assms(5) by (simp add: header_ok_def)
  moreover have "StunMsg_size True True r < 65536" using r assms(6) by (simp add: StunMsg_size_def)
  ultimately obtain w m' where w: "StunMsg_encode hmac True (local_ice_pwd sess) True r buf = Ok (w, length buf)"
    "StunMsg_decode w (StunMsg_new junk') = Some (Ok m')" "stun_type (msg_header m') = stun_type (msg_header r)"
    "transaction_id (msg_header m') = transaction_id (msg_header r)" "username_attr m' = Some u" "msg_attrs m' = msg_attrs r"
    "checkMsgIntegrity hmac m' w (local_ice_pwd sess) = Ok True" "checkFingerPrint m' w = Ok True"
    using StunMsg_authenticated [of r u buf True hmac "local_ice_pwd sess" junk'] r assms(2,7) by (auto simp: buf_def)
  obtain l v where u: "u = (l, v)" by (cases u)
  have "processStunBindingReq hmac junk heap sess m ep = Ok (Some w)"
    using assms(1-4) w(1) unfolding u buf_def r_def by (simp add: processStunBindingReq_def Let_def username_ok_def)
  then show ?thesis using w r by (intro exI [of _ w] exI [of _ m']) simp
qed

section \<open>Properties\<close>

text \<open>Claim C8: A browser that knows the credentials of both descriptions establishes its path: its
  authenticated binding request is handed to the session of its user name, the session answers
  with a binding response that carries the transaction id of the request and the address the
  request came from and that passes the browser's integrity and fingerprint checks, and from then
  on the DTLS and media datagrams of that address go to this session.\<close>

theorem ice_binding_establishes_path:
  assumes "ufrag_session_map srv (local_ice_ufrag sess) = Some k" "endpoint_session_map srv (getEndPointHash ep) = None"
    and "header_ok (msg_header req)" "stun_type (msg_header req) = STUN_BINDING_REQUEST"
    and "username_attr req = Some (local_ice_ufrag sess, remote_ice_ufrag sess)"
    and "username_ok (local_ice_ufrag sess, remote_ice_ufrag sess)" "remote_ice_ufrag sess \<noteq> []"
    and "\<forall>a \<in> set (msg_attrs req). plain_attr a" "\<forall>k d. length (hmac k d) = 20"
    and "length buf = StunMsg_size True True req" "StunMsg_size True True req + 12 < 65536"
  shows "\<exists>w m srv' resp m'.
    StunMsg_encode hmac True (local_ice_pwd sess) True req buf = Ok (w, length buf)
    \<and> WebRtcServer_onUdpSocketRecv junk w ep srv = Some (Ok (srv', Some (StunTask k m w ep)))
    \<and> WebRtcSession_processStunPacket hmac junk heap sess m w ep = Ok (Some resp)
    \<and> StunMsg_decode resp (StunMsg_new junk') = Some (Ok m')
    \<and> stun_type (msg_header m') = STUN_BINDING_RESPONSE \<and> transaction_id (msg_header m') = transaction_id (msg_header req)
    \<and> msg_attrs m' = [StunMappedAddressAttr 0x01 (snd ep) (fst ep)]
    \<and> checkMsgIntegrity hmac m' resp (local_ice_pwd sess) = Ok True \<and> checkFingerPrint m' resp = Ok True
    \<and> processDtlsPacket d ep srv' = Some (DtlsTask k d ep) \<and> processSRTPPacket d ep srv' = Some (SrtpTask k d ep)"
proof -
  obtain w m where w: "StunMsg_encode hmac True (local_ice_pwd sess) True req buf = Ok (w, length buf)"
    "take 2 w = be 2 (unat (stun_type (msg_header req)))"
    "StunMsg_decode w (StunMsg_new junk) = Some (Ok m)" "stun_type (msg_header m) = stun_type (msg_header req)"
    "transaction_id (msg_header m) = transaction_id (msg_header req)"
    "username_attr m = Some (local_ice_ufrag sess, remote_ice_ufrag sess)"
    "checkMsgIntegrity hmac m w (local_ice_pwd sess) = Ok True" "checkFingerPrint m w = Ok True"
    using StunMsg_authenticated [OF assms(3,5,6,8,10) _ assms(9)] assms(11) by (metis add_lessD1)
  let ?srv = "srv\<lparr>endpoint_session_map := umap_insert (getEndPointHash ep) k (endpoint_session_map srv)\<rparr>"
  have "WebRtcServer_onUdpSocketRecv junk w ep srv = Some (Ok (?srv, Some (StunTask k m w ep)))"
    using w(3,6) be_byte_0 [OF w(2) assms(4)] assms(1,6)
    by (simp add: WebRtcServer_onUdpSocketRecv_def processStunPacket_def username_ok_def)
  moreover have "processDtlsPacket d ep ?srv = Some (DtlsTask k d ep)" "processSRTPPacket d ep ?srv = Some (SrtpTask k d ep)"
    using assms(2) by (simp_all add: processDtlsPacket_def processSRTPPacket_def umap_insert_apply)
  moreover have "StunUsernameAttr_size (local_ice_ufrag sess, remote_ice_ufrag sess) + 64 < 65536"
    using assms(5,11) by (simp add: StunMsg_size_def)
  then obtain resp m' where "processStunBindingReq hmac junk heap sess m ep = Ok (Some resp)"
    "StunMsg_decode resp (StunMsg_new junk') = Some (Ok m')" "stun_type (msg_header m') = STUN_BINDING_RESPONSE"
    "transaction_id (msg_header m') = transaction_id (msg_header req)"
    "msg_attrs m' = [StunMappedAddressAttr 0x01 (snd ep) (fst ep)]"
    "checkMsgIntegrity hmac m' resp (local_ice_pwd sess) = Ok True" "checkFingerPrint m' resp = Ok True"
    using processStunBindingReq_answer [OF w(6) assms(6) _ _ _ _ assms(9), of sess junk heap ep junk'] w(5) assms(3,7)
    by (auto simp: header_ok_def)
  ultimately show ?thesis using w assms(4)
    by (intro exI [of _ w] exI [of _ m] exI [of _ ?srv] exI [of _ resp] exI [of _ m'])
      (simp add: WebRtcSession_processStunPacket_def)
qed

definition demo_webrtc_session :: webrtc_session where
  "demo_webrtc_session = (WebRtcSession_new ''abcd'' ''secret'')\<lparr>remote_ice_ufrag := ''wxyz''\<rparr>"

definition demo_webrtc_server :: webrtc_server where
  "demo_webrtc_server = onWebsocketOpen 0 7 demo_webrtc_session server_init"

definition demo_binding_request :: stun_msg where
  "demo_binding_request = demo_stun_msg\<lparr>msg_header := demo_stun_header\<lparr>stun_type := STUN_BINDING_REQUEST\<rparr>,
     username_attr := Some (''abcd'', ''wxyz''), msg_attrs := [StunIcePriorityAttr 77, StunIceUseCandidateAttr]\<rparr>"

lemmas demo_webrtc = demo_webrtc_session_def demo_webrtc_server_def demo_binding_request_def demo_stun_msg_def
  demo_stun_header_def WebRtcSession_new_def onWebsocketOpen_def server_init_def umap_insert_apply

theorem ice_binding_establishes_path_witness:
  "\<exists>w m srv' resp. StunMsg_encode (\<lambda>k d. replicate 20 7) True ''secret'' True demo_binding_request (replicate 80 0) = Ok (w, 80)
    \<and> WebRtcServer_onUdpSocketRecv demo_stun_header w (0x0a000001, 4000) demo_webrtc_server
        = Some (Ok (srv', Some (StunTask 7 m w (0x0a000001, 4000))))
    \<and> WebRtcSession_processStunPacket (\<lambda>k d. replicate 20 7) demo_stun_header (\<lambda>_. 0) demo_webrtc_session m w (0x0a000001, 4000)
        = Ok (Some resp)
    \<and> processDtlsPacket [22] (0x0a000001, 4000) srv' = Some (DtlsTask 7 [22] (0x0a000001, 4000))"
proof -
  have "StunMsg_size True True demo_binding_request = 80" by code_simp
  moreover have "header_ok (msg_header demo_binding_request)" "username_ok (''abcd'', ''wxyz'')" by code_simp+
  moreover have "ufrag_session_map demo_webrtc_server (local_ice_ufrag demo_webrtc_session) = Some 7"
    "endpoint_session_map demo_webrtc_server e = None" for e by (simp_all add: demo_webrtc)
  ultimately show ?thesis
    using ice_binding_establishes_path [of demo_webrtc_server demo_webrtc_session 7 "(0x0a000001, 4000)" demo_binding_request
        "\<lambda>k d. replicate 20 7" "replicate 80 0" demo_stun_header "\<lambda>_. 0" demo_stun_header "[22]"]
    by (fastforce simp: demo_webrtc)
qed

text \<open>Claim C10: The session maps of a running server are consistent and stable: every bound address belongs
  to a session that is registered under its own user fragment, tasks go only to registered
  sessions, a datagram binds at most the address it came from, and no event, not even the closing
  of the session's websocket, ever takes a registration or a binding away or changes it.\<close>

theorem webrtc_bindings_consistent_and_stable:
  assumes "server_run sess server_init ts srv"
  shows "(\<forall>e s. endpoint_session_map srv e = Some s \<longrightarrow> ufrag_session_map srv (local_ice_ufrag (sess s)) = Some s)
    \<and> (\<forall>t \<in> set ts. task_session t \<in> ran (ufrag_session_map srv))
    \<and> (\<forall>junk d ep srv' t ep'. WebRtcServer_onUdpSocketRecv junk d ep srv = Some (Ok (srv', t)) \<and> ep' \<noteq> ep \<longrightarrow>
         endpoint_session_map srv' (getEndPointHash ep') = endpoint_session_map srv (getEndPointHash ep'))
    \<and> (\<forall>ts' srv'. server_run sess srv ts' srv' \<longrightarrow>
         ufrag_session_map srv \<subseteq>\<^sub>m ufrag_session_map srv' \<and> endpoint_session_map srv \<subseteq>\<^sub>m endpoint_session_map srv')"
proof -
  have "endpoint_session_map srv' (getEndPointHash ep') = endpoint_session_map srv (getEndPointHash ep')"
    if "WebRtcServer_onUdpSocketRecv junk d ep srv = Some (Ok (srv', t))" "ep' \<noteq> ep" for junk d ep srv' t ep'
    using that(1) by (cases rule: onUdpSocketRecv_cases) (use that(2) in \<open>simp_all add: umap_insert_apply\<close>)
  moreover have "server_inv sess srv" "\<forall>t \<in> set ts. task_session t \<in> ran (ufrag_session_map srv)"
    using server_run_inv [OF assms server_inv_init] server_run_tasks [OF assms server_inv_init] by blast+
  ultimately show ?thesis using server_run_extends unfolding server_inv_def by blast
qed

theorem webrtc_bindings_consistent_and_stable_witness:
  "ufrag_session_map (onWebsocketOpen 1 8 demo_webrtc_session (onWebsocketClose 0 demo_webrtc_server)) ''abcd'' = Some 7"
proof -
  let ?srv = "onWebsocketClose 0 demo_webrtc_server" and ?sess = "\<lambda>_ :: nat. demo_webrtc_session"
  have "server_run ?sess server_init ([] @ (case None of None \<Rightarrow> [] | Some t \<Rightarrow> [t])) demo_webrtc_server"
    unfolding demo_webrtc_server_def by (rule run_step [OF run_start ws_open])
  then have run: "server_run ?sess server_init (([] @ (case None of None \<Rightarrow> [] | Some t \<Rightarrow> [t])) @ (case None of None \<Rightarrow> [] | Some t \<Rightarrow> [t])) ?srv"
    by (rule run_step [OF _ ws_close])
  have "ufrag_session_map ?srv ''abcd'' = Some 7"
    by (simp add: demo_webrtc onWebsocketClose_def)
  moreover have "server_run ?sess ?srv ([] @ (case None of None \<Rightarrow> [] | Some t \<Rightarrow> [t])) (onWebsocketOpen 1 8 (?sess 8) ?srv)"
    by (rule run_step [OF run_start ws_open])
  from webrtc_bindings_consistent_and_stable [OF run, THEN conjunct2, THEN conjunct2, THEN conjunct2, rule_format, OF this, THEN conjunct1]
  have "ufrag_session_map ?srv \<subseteq>\<^sub>m ufrag_session_map (onWebsocketOpen 1 8 demo_webrtc_session ?srv)" .
  ultimately show ?thesis by (rule map_le_Some [rotated])
qed

text \<open>Claim C35: No credentials are needed to bind an address or to stop the server: a datagram that only
  carries the user fragment of a session binds its sender to that session before anything is
  checked, and the session's task then dereferences the missing integrity attribute.  An empty
  datagram is read at its first byte.\<close>

theorem unauthenticated_stun_binds_and_crashes:
  assumes "ufrag_session_map srv (fst u) = Some k" "endpoint_session_map srv (getEndPointHash ep) = None" "username_ok u"
    and "header_ok h" "stun_type h = STUN_BINDING_REQUEST"
    and "length pad = pad4 (length (username_value u)) - length (username_value u)"
  shows "\<exists>srv' m. WebRtcServer_onUdpSocketRecv junk (header_wire h l @ attr_wire STUN_ATTR_USERNAME (username_value u) pad) ep srv
      = Some (Ok (srv', Some (StunTask k m (header_wire h l @ attr_wire STUN_ATTR_USERNAME (username_value u) pad) ep)))
    \<and> endpoint_session_map srv' (getEndPointHash ep) = Some k
    \<and> WebRtcSession_processStunPacket hmac junk heap sess m d ep = Fault
    \<and> WebRtcServer_onUdpSocketRecv junk [] ep srv = Some Fault"
proof -
  let ?U = "attr_wire STUN_ATTR_USERNAME (username_value u) pad"
  let ?w = "header_wire h l @ ?U"
  let ?m = "(StunMsg_new junk)\<lparr>msg_header := decoded_header (msg_header (StunMsg_new junk)) h\<rparr>"
  have lU: "length ?U = StunUsernameAttr_size u" "0 < length ?U"
    using assms(6) pad4_bounds(1) [of "length (username_value u)"] by (simp_all add: StunUsernameAttr_size_def)
  have "length ?U < 2 ^ 63"
    using lU(1) assms(3) pad4_bounds(2) [of "length (username_value u)"] by (simp add: username_ok_def StunUsernameAttr_size_def)
  then have loop: "stun_loop (header_wire h l @ ?U @ []) (length (header_wire h l)) (of_nat (length (?U @ []))) ?m
      = stun_loop ((header_wire h l @ ?U) @ []) (length (header_wire h l @ ?U)) (of_nat (length ([] :: bytes)))
          (?m\<lparr>username_attr := Some u\<rparr>)"
    using stun_turn_username [OF assms(3,6), of "[]" ?m] lU
    by (intro stun_loop_turn) (simp_all add: StunMsg_new_def)
  have "(of_nat (length ?w) :: u64) - of_nat 20 = of_nat (length ?U)" using assms(4) by simp
  then have dec: "StunMsg_decode ?w (StunMsg_new junk) = Some (Ok (?m\<lparr>username_attr := Some u\<rparr>))"
    using header_decode_wire [OF assms(4), of "msg_header (StunMsg_new junk)" l ?U] loop assms(4)
    by (simp add: StunMsg_decode_def decoded_header_def stun_loop.simps [of _ _ 0] stun_trailer_def add.assoc)
  have "take 2 ?w = be 2 (unat (stun_type h))" by (simp add: header_wire_def)
  then have det: "detectMsgType ?w = Ok UDP_MSG_STUN" using assms(5) by (rule be_byte_0)
  obtain a b where u: "u = (a, b)" "a \<noteq> []" using assms(3) by (cases u) (auto simp: username_ok_def)
  have "WebRtcServer_onUdpSocketRecv junk ?w ep srv = Some (Ok (
      srv\<lparr>endpoint_session_map := umap_insert (getEndPointHash ep) k (endpoint_session_map srv)\<rparr>,
      Some (StunTask k (?m\<lparr>username_attr := Some u\<rparr>) ?w ep)))"
    using det dec assms(1) u by (simp add: WebRtcServer_onUdpSocketRecv_def processStunPacket_def)
  moreover have "WebRtcSession_processStunPacket hmac junk heap sess (?m\<lparr>username_attr := Some u\<rparr>) d ep = Fault"
    by (simp add: WebRtcSession_processStunPacket_def checkMsgIntegrity_def StunMsg_new_def)
  moreover have "WebRtcServer_onUdpSocketRecv junk [] ep srv = Some Fault"
    by (simp add: WebRtcServer_onUdpSocketRecv_def detectMsgType_def rd8_def)
  ultimately show ?thesis using assms(2) by (auto simp: umap_insert_apply)
qed

theorem unauthenticated_stun_binds_and_crashes_witness:
  "\<exists>d srv' m. WebRtcServer_onUdpSocketRecv demo_stun_header d (0x0a000001, 4000) demo_webrtc_server
      = Some (Ok (srv', Some (StunTask 7 m d (0x0a000001, 4000))))
    \<and> WebRtcSession_processStunPacket (\<lambda>k d. replicate 20 7) demo_stun_header (\<lambda>_. 0) demo_webrtc_session m d (0x0a000001, 4000) = Fault"
proof -
  let ?w = "header_wire (msg_header demo_binding_request) 12 @ attr_wire STUN_ATTR_USERNAME (username_value (''abcd'', [])) []"
  have "ufrag_session_map demo_webrtc_server ''abcd'' = Some 7" "endpoint_session_map demo_webrtc_server e = None" for e
    by (simp_all add: demo_webrtc)
  moreover have "username_ok (''abcd'', [])" "header_ok (msg_header demo_binding_request)"
    "stun_type (msg_header demo_binding_request) = STUN_BINDING_REQUEST"
    "pad4 (length (username_value (''abcd'', []))) - length (username_value (''abcd'', [])) = 0" by code_simp+
  ultimately show ?thesis
    using unauthenticated_stun_binds_and_crashes [of demo_webrtc_server "(''abcd'', [])" 7 "(0x0a000001, 4000)"
        "msg_header demo_binding_request" "[]" demo_stun_header 12 "\<lambda>k d. replicate 20 7" "\<lambda>_. 0" demo_webrtc_session ?w]
    by auto
qed

text \<open>Claim C26: The SRTP session gets the keys of the handshake: whatever datagram completes the handshake, the
  two keys handed over are 30 bytes long, as long as the cipher of the profile reads, so setting up
  the SRTP session stays within them, and libsrtp is given exactly these keys, the client's one
  for inbound and the server's one for outbound packets.\<close>

theorem handshake_keys_fit_srtp:
  assumes "crypto_ok c" "DtlsSession_processDtlsPacket c der ent heap d s = Some (Ok (s', ok))" "dtls_inv c s"
    and "x \<in> set (handshake_done s')"
    and "\<And>p. srtp_create p = Some (ctx (pol_ssrc_type p) (pol_key p))"
  shows "length (fst (snd x)) = 30 \<and> length (snd (snd x)) = 30
    \<and> onDtlsHandshakeDone srtp_create x
      = Ok (Some (ctx ssrc_any_inbound (fst (snd x))), Some (ctx ssrc_any_outbound (snd (snd x))), True)"
proof -
  have "dtls_inv c s'" using dtls_loop_inv [OF assms(2) [unfolded DtlsSession_processDtlsPacket_def]] assms(3) by blast
  then have x: "fst x = SRTP_AES128_CM_HMAC_SHA1_80" "keys_from c (fst (snd x)) (snd (snd x))"
    using assms(4) by (auto simp: dtls_inv_def)
  then have "length (fst (snd x)) = 30" "length (snd (snd x)) = 30"
    by (auto simp: keys_from_def srtp_keys_def Let_def slice_def length_PRF [OF assms(1)])
  then show ?thesis using x(1) assms(5)
    by (simp add: onDtlsHandshakeDone_def SRTPSession_init_def srtp_context_def Let_def)
qed

text \<open>The session that waits for the Finished record, with the SRTP keys of a key exchange.\<close>

definition keyed_session :: dtls_session where
  "keyed_session = (let k = srtp_keys tiny_crypto (PRF tiny_crypto ([0xfe, 0xfd] @ replicate 46 6) ''master secret'' ([] @ []) 48) ([] @ [])
     in tiny_session\<lparr>srtp_recv_key := fst k, srtp_send_key := snd k\<rparr>)"

lemma keyed_session_inv: "dtls_inv tiny_crypto keyed_session"
proof -
  have "rsa_private_decrypt tiny_crypto ([0xfe, 0xfd] @ replicate 62 6) = Some ([0xfe, 0xfd] @ replicate 46 6)"
    by (simp add: tiny_crypto_def demo_crypto_def)
  then have "keys_from tiny_crypto (srtp_recv_key keyed_session) (srtp_send_key keyed_session)"
    unfolding keys_from_def keyed_session_def Let_def
    by (intro exI [of _ "[0xfe, 0xfd] @ replicate 62 6"] exI [of _ "[0xfe, 0xfd] @ replicate 46 6"] exI [of _ "[]"]) simp
  then show ?thesis
    by (simp add: dtls_inv_def) (simp add: keyed_session_def tiny_session_def DtlsSession_init_def Let_def)
qed

theorem handshake_keys_fit_srtp_witness:
  "\<exists>d s'. DtlsSession_processDtlsPacket tiny_crypto [] demo_entropy (\<lambda>_. 0) d keyed_session = Some (Ok (s', True))
    \<and> onDtlsHandshakeDone (\<lambda>p. Some (pol_ssrc_type p, pol_key p)) (hd (handshake_done s'))
      = Ok (Some (ssrc_any_inbound, srtp_recv_key keyed_session), Some (ssrc_any_outbound, srtp_send_key keyed_session), True)"
proof -
  have s: "at_stage StDone 4 4 [] keyed_session" "suite keyed_session = Some tiny_suite"
    by (simp_all add: at_stage_def keyed_session_def tiny_session_def DtlsSession_init_def Let_def)
  have t: "entropy_ok demo_entropy" "length (server_write_key tiny_suite) = 16" "length (client_write_key tiny_suite) = 16"
    "\<not> is_client tiny_suite" "length (replicate 16 (0::byte)) = 16"
    by (simp_all add: entropy_ok_def demo_entropy_def tiny_suite_def)
  let ?h = "(demo_header 22 DTLS_1_2 0 0)\<lparr>hd_epoch := 1\<rparr>"
  have h: "hd_epoch ?h \<noteq> 0" "unat (hd_sequence_number ?h) < 2 ^ 48" by (simp_all add: demo_header_def)
  obtain d s' where a: "DtlsSession_processDtlsPacket tiny_crypto [] demo_entropy (\<lambda>_. 0) d keyed_session = Some (Ok (s', True))"
    "handshake_done s' = [(SRTP_AES128_CM_HMAC_SHA1_80, srtp_recv_key keyed_session, srtp_send_key keyed_session)]"
    using client_finished [OF tiny_crypto_ok t(1) s t(2-5) h, where der = "[]" and heap = "\<lambda>_. 0"] by blast
  have "hd (handshake_done s') \<in> set (handshake_done s')" using a(2) by simp
  from handshake_keys_fit_srtp [OF tiny_crypto_ok a(1) keyed_session_inv this, of "\<lambda>p. Some (pol_ssrc_type p, pol_key p)" Pair]
  show ?thesis by (intro exI [of _ d] exI [of _ s']) (simp add: a)
qed

end
