(* ===== verification/Cpp_Text.thy ===== *)
theory Cpp_Text
  imports Utils "HOL-Library.AList"
begin

text \<open>
  The parts of the C++ and boost libraries that the text protocols (session descriptions, HTTP) are
  written with: prefixes, splitting and joining, number conversions, and unordered maps.

  \<open>atoi\<close> and \<open>atoll\<close> are those of glibc: the conversion to \<open>long\<close> saturates and the result is cut to the
  width of the target.
\<close>

section \<open>Text\<close>

abbreviation (input) CR :: char where "CR \<equiv> CHR 0x0D"
abbreviation (input) LF :: char where "LF \<equiv> CHR 0x0A"
abbreviation (input) SP :: char where "SP \<equiv> CHR '' ''"

definition starts_with :: "string \<Rightarrow> string \<Rightarrow> bool" where
  "starts_with s p = (take (length p) s = p)"

text \<open>\<open>boost::split\<close> with \<open>is_any_of\<close>: adjacent separators give empty parts.\<close>

definition boost_split :: "string \<Rightarrow> string \<Rightarrow> string list" where
  "boost_split s delims = str_fields delims s"

fun join :: "string list \<Rightarrow> string \<Rightarrow> string" where
  "join [] sep = []"
| "join [p] sep = p"
| "join (p # ps) sep = p @ sep @ join ps sep"

definition rfind :: "char \<Rightarrow> string \<Rightarrow> nat option" where
  "rfind c s = (if c \<in> set s then Some (length s - 1 - length (takeWhile (\<lambda>x. x \<noteq> c) (rev s))) else None)"

text \<open>\<^verbatim>\<open>v[i]\<close> of a vector.\<close>

definition vec_at :: "'a list \<Rightarrow> nat \<Rightarrow> 'a outcome" where
  "vec_at xs i = (if i < length xs then Ok (xs ! i) else Fault)"

section \<open>Numbers\<close>

definition is_space :: "char \<Rightarrow> bool" where
  "is_space c \<longleftrightarrow> (let n = of_char c :: nat in n = 32 \<or> 9 \<le> n \<and> n \<le> 13)"

definition is_digit :: "char \<Rightarrow> bool" where
  "is_digit c \<longleftrightarrow> (let n = of_char c :: nat in 48 \<le> n \<and> n \<le> 57)"

definition digits_value :: "string \<Rightarrow> nat" where
  "digits_value ds = foldl (\<lambda>a c. 10 * a + (of_char c - 48)) 0 ds"

definition strtol :: "string \<Rightarrow> int" where
  "strtol s =
     (let s = dropWhile is_space s;
          neg = (s \<noteq> [] \<and> hd s = CHR ''-'');
          ds = takeWhile is_digit (if s \<noteq> [] \<and> hd s \<in> {CHR ''-'', CHR ''+''} then tl s else s);
          v = int (digits_value ds) in
      max (- (2 ^ 63)) (min (2 ^ 63 - 1) (if neg then - v else v)))"

definition atoi :: "string \<Rightarrow> u32" where
  "atoi s = of_int (strtol s)"

definition atoll :: "string \<Rightarrow> u64" where
  "atoll s = of_int (strtol s)"

fun dec :: "nat \<Rightarrow> string" where
  "dec n = (if n div 10 = 0 then [] else dec (n div 10)) @ [char_of (n mod 10 + 48)]"

declare dec.simps [simp del]

definition dec_signed :: "'a::len word \<Rightarrow> string" where
  "dec_signed w = (if sint w < 0 then CHR ''-'' # dec (nat (- sint w)) else dec (nat (sint w)))"

section \<open>Unordered maps\<close>

text \<open>An \<open>unordered_map\<close> is the list of its pairs in the order of their insertion.  In which order the
  code iterates over it is unknown: \<open>ord\<close> tells it from the inserted keys.\<close>

definition hm_insert :: "'k \<Rightarrow> 'v \<Rightarrow> ('k \<times> 'v) list \<Rightarrow> ('k \<times> 'v) list" where
  "hm_insert k v m = (case map_of m k of Some _ \<Rightarrow> m | None \<Rightarrow> m @ [(k, v)])"

definition hm_get :: "'v \<Rightarrow> 'k \<Rightarrow> ('k \<times> 'v) list \<Rightarrow> 'v" where
  "hm_get dflt k m = (case map_of m k of Some v \<Rightarrow> v | None \<Rightarrow> dflt)"

definition hm_iter :: "('k list \<Rightarrow> 'k list) \<Rightarrow> ('k \<times> 'v) list \<Rightarrow> ('k \<times> 'v) list" where
  "hm_iter ord m = map (\<lambda>k. (k, the (map_of m k))) (ord (map fst m))"

record hash_order =
  ord_u32 :: "u32 list \<Rightarrow> u32 list"
  ord_str :: "string list \<Rightarrow> string list"

definition hash_order_ok :: "hash_order \<Rightarrow> bool" where
  "hash_order_ok h \<longleftrightarrow> (\<forall>ks. distinct ks \<longrightarrow> set (ord_u32 h ks) = set ks \<and> distinct (ord_u32 h ks))
     \<and> (\<forall>ks. distinct ks \<longrightarrow> set (ord_str h ks) = set ks \<and> distinct (ord_str h ks))"

end
