(* ===== verification/Sdp_Line.thy ===== *)
theory Sdp_Line
  imports Cpp_Text
begin

text \<open>
  The lines of a session description, \<open>src/protocol/sdp\<close>: what the parsers take as the value of a line,
  and one parser and one printer per line class of
  \<open>session-level\<close>, \<open>attribute/common\<close>, \<open>dtls\<close>, \<open>ice\<close> and \<open>webrtc\<close>.

  A parser that returns \<open>false\<close> gives \<open>Err (-1)\<close>; \<open>Fault\<close> is an access outside a vector, or an exception
  nobody catches.  \<open>std::endl\<close> writes a line feed.
\<close>

section \<open>The value of a line\<close>

text \<open>The value of a line: what stands between the prefix and the last carriage return.  Without one
  the last character is taken for the end of the line, whatever it is.  A length that would be
  negative wraps around and reaches to the end; a line shorter than the prefix makes \<open>substr\<close> throw.\<close>

definition line_value :: "string \<Rightarrow> string \<Rightarrow> string outcome" where
  "line_value prefix line =
     (let end_pos = (case rfind CR line of Some k \<Rightarrow> k | None \<Rightarrow> length line - 1) in
      if length line < length prefix then Fault
      else Ok (if end_pos < length prefix then drop (length prefix) line
               else take (end_pos - length prefix) (drop (length prefix) line)))"

section \<open>Lines that carry one text\<close>

abbreviation (input) Uri_prefix :: string where "Uri_prefix \<equiv> ''u=''"
abbreviation (input) EmailAddress_prefix :: string where "EmailAddress_prefix \<equiv> ''e=''"
abbreviation (input) Phone_prefix :: string where "Phone_prefix \<equiv> ''p=''"
abbreviation (input) SessionInformation_prefix :: string where "SessionInformation_prefix \<equiv> ''i=''"
abbreviation (input) SessionName_prefix :: string where "SessionName_prefix \<equiv> ''s=''"
abbreviation (input) ToolAttr_prefix :: string where "ToolAttr_prefix \<equiv> ''a=tool:''"
abbreviation (input) MidAttr_prefix :: string where "MidAttr_prefix \<equiv> ''a=mid:''"
abbreviation (input) SetupAttr_prefix :: string where "SetupAttr_prefix \<equiv> ''a=setup:''"
abbreviation (input) TlsIdAttr_prefix :: string where "TlsIdAttr_prefix \<equiv> ''a=tls-id:''"
abbreviation (input) IceOption_prefix :: string where "IceOption_prefix \<equiv> ''a=ice-options:''"
abbreviation (input) IceUfrag_prefix :: string where "IceUfrag_prefix \<equiv> ''a=ice-ufrag:''"
abbreviation (input) IcePwd_prefix :: string where "IcePwd_prefix \<equiv> ''a=ice-pwd:''"

definition Uri_parse :: "string \<Rightarrow> string outcome" where
  "Uri_parse line = line_value Uri_prefix line"

definition Uri_toString :: "string \<Rightarrow> string" where
  "Uri_toString uri = Uri_prefix @ uri @ [LF]"

definition EmailAddress_parse :: "string \<Rightarrow> string outcome" where
  "EmailAddress_parse line = line_value EmailAddress_prefix line"

definition EmailAddress_toString :: "string \<Rightarrow> string" where
  "EmailAddress_toString address = EmailAddress_prefix @ address @ [LF]"

definition Phone_parse :: "string \<Rightarrow> string outcome" where
  "Phone_parse line = line_value Phone_prefix line"

definition Phone_toString :: "string \<Rightarrow> string" where
  "Phone_toString phone = Phone_prefix @ phone @ [LF]"

definition SessionInformation_parse :: "string \<Rightarrow> string outcome" where
  "SessionInformation_parse line = line_value SessionInformation_prefix line"

definition SessionInformation_toString :: "string \<Rightarrow> string" where
  "SessionInformation_toString info = SessionInformation_prefix @ info @ [LF]"

definition SessionName_parse :: "string \<Rightarrow> string outcome" where
  "SessionName_parse line = line_value SessionName_prefix line"

definition SessionName_toString :: "string \<Rightarrow> string" where
  "SessionName_toString n = SessionName_prefix @ n @ [LF]"

definition ToolAttr_parse :: "string \<Rightarrow> string outcome" where
  "ToolAttr_parse line = line_value ToolAttr_prefix line"

definition ToolAttr_toString :: "string \<Rightarrow> string" where
  "ToolAttr_toString n = ToolAttr_prefix @ n @ [LF]"

definition MidAttr_parse :: "string \<Rightarrow> string outcome" where
  "MidAttr_parse line = line_value MidAttr_prefix line"

definition MidAttr_toString :: "string \<Rightarrow> string" where
  "MidAttr_toString m = MidAttr_prefix @ m @ [LF]"

definition SetupAttr_parse :: "string \<Rightarrow> string outcome" where
  "SetupAttr_parse line = line_value SetupAttr_prefix line"

definition SetupAttr_toString :: "string \<Rightarrow> string" where
  "SetupAttr_toString role = SetupAttr_prefix @ role @ [LF]"

definition TlsIdAttr_parse :: "string \<Rightarrow> string outcome" where
  "TlsIdAttr_parse line = line_value TlsIdAttr_prefix line"

definition TlsIdAttr_toString :: "string \<Rightarrow> string" where
  "TlsIdAttr_toString i = TlsIdAttr_prefix @ i @ [LF]"

definition IceOption_parse :: "string \<Rightarrow> string outcome" where
  "IceOption_parse line = line_value IceOption_prefix line"

definition IceOption_toString :: "string \<Rightarrow> string" where
  "IceOption_toString opt = IceOption_prefix @ opt @ [LF]"

definition IceUfrag_parse :: "string \<Rightarrow> string outcome" where
  "IceUfrag_parse line = line_value IceUfrag_prefix line"

definition IceUfrag_toString :: "string \<Rightarrow> string" where
  "IceUfrag_toString ufrag = IceUfrag_prefix @ ufrag @ [LF]"

definition IcePwd_parse :: "string \<Rightarrow> string outcome" where
  "IcePwd_parse line = line_value IcePwd_prefix line"

definition IcePwd_toString :: "string \<Rightarrow> string" where
  "IcePwd_toString pwd = IcePwd_prefix @ pwd @ [LF]"

section \<open>Lines with several fields\<close>

abbreviation (input) ProtocolVersion_prefix :: string where "ProtocolVersion_prefix \<equiv> ''v=''"
abbreviation (input) Origin_prefix :: string where "Origin_prefix \<equiv> ''o=''"
abbreviation (input) Timing_prefix :: string where "Timing_prefix \<equiv> ''t=''"
abbreviation (input) ConnectionInfo_prefix :: string where "ConnectionInfo_prefix \<equiv> ''c=''"
abbreviation (input) BundleAttr_prefix :: string where "BundleAttr_prefix \<equiv> ''a=group:BUNDLE ''"
abbreviation (input) Candidate_prefix :: string where "Candidate_prefix \<equiv> ''a=candidate:''"
abbreviation (input) MaxPTimeAttr_prefix :: string where "MaxPTimeAttr_prefix \<equiv> ''a=maxptime:''"
abbreviation (input) RtcpAttr_prefix :: string where "RtcpAttr_prefix \<equiv> ''a=rtcp:''"
abbreviation (input) RtcpMux_prefix :: string where "RtcpMux_prefix \<equiv> ''a=rtcp-mux''"
abbreviation (input) FingerPrint_prefix :: string where "FingerPrint_prefix \<equiv> ''a=fingerprint:''"
abbreviation (input) Extmap_prefix :: string where "Extmap_prefix \<equiv> ''a=extmap:''"
abbreviation (input) Msid_prefix :: string where "Msid_prefix \<equiv> ''a=msid:''"
abbreviation (input) Ssrc_prefix :: string where "Ssrc_prefix \<equiv> ''a=ssrc:''"

definition ProtocolVersion_parse :: "string \<Rightarrow> u32 outcome" where
  "ProtocolVersion_parse line = obind (line_value ProtocolVersion_prefix line) (\<lambda>v. Ok (atoi v))"

definition ProtocolVersion_toString :: "u32 \<Rightarrow> string" where
  "ProtocolVersion_toString v = ProtocolVersion_prefix @ dec_signed v @ [LF]"

record origin =
  username :: string
  session_id :: u64
  session_version :: u32
  nettype :: string
  addrtype :: string
  unicast_address :: string

definition Origin_parse :: "string \<Rightarrow> origin outcome" where
  "Origin_parse line =
     obind (line_value Origin_prefix line) (\<lambda>v.
       let vs = split v '' '' in
       if length vs \<noteq> 6 then Err (-1)
       else Ok \<lparr>username = vs ! 0, session_id = atoll (vs ! 1), session_version = atoi (vs ! 2),
                nettype = vs ! 3, addrtype = vs ! 4, unicast_address = vs ! 5\<rparr>)"

definition Origin_toString :: "origin \<Rightarrow> string" where
  "Origin_toString x = Origin_prefix @ username x @ '' '' @ dec (unat (session_id x)) @ '' '' @ dec (unat (session_version x))
     @ '' '' @ nettype x @ '' '' @ addrtype x @ '' '' @ unicast_address x @ [LF]"

definition Timing_parse :: "string \<Rightarrow> (u64 \<times> u64) outcome" where
  "Timing_parse line =
     obind (line_value Timing_prefix line) (\<lambda>v.
       let vs = split v '' '' in
       if length vs \<noteq> 2 then Err (-1) else Ok (atoll (vs ! 0), atoll (vs ! 1)))"

definition Timing_toString :: "u64 \<times> u64 \<Rightarrow> string" where
  "Timing_toString t = Timing_prefix @ dec (unat (fst t)) @ '' '' @ dec (unat (snd t)) @ [LF]"

record connection_info =
  ci_nettype :: string
  ci_addrtype :: string
  connection_address :: string
  ttl :: u32
  num_of_addr :: u32

definition ConnectionInfo_new :: "string \<Rightarrow> string \<Rightarrow> string \<Rightarrow> connection_info" where
  "ConnectionInfo_new nt at addr = \<lparr>ci_nettype = nt, ci_addrtype = at, connection_address = addr, ttl = 0, num_of_addr = 1\<rparr>"

definition ConnectionInfo_parse :: "string \<Rightarrow> connection_info outcome" where
  "ConnectionInfo_parse line =
     obind (line_value ConnectionInfo_prefix line) (\<lambda>v.
       let vs = split v '' '' in
       if length vs \<noteq> 3 then Err (-1)
       else
         let as = split (vs ! 2) ''/'' in
         obind (vec_at as 0) (\<lambda>a.
           Ok \<lparr>ci_nettype = vs ! 0, ci_addrtype = vs ! 1, connection_address = a,
               ttl = (if 2 \<le> length as then atoi (as ! 1) else 0),
               num_of_addr = (if 3 \<le> length as then atoi (as ! 2) else 1)\<rparr>))"

definition ConnectionInfo_toString :: "connection_info \<Rightarrow> string" where
  "ConnectionInfo_toString x = ConnectionInfo_prefix @ ci_nettype x @ '' '' @ ci_addrtype x @ '' '' @ connection_address x
     @ (if 1 < sint (num_of_addr x) then ''/'' @ dec_signed (ttl x) @ ''/'' @ dec_signed (num_of_addr x) else []) @ [LF]"

definition BundleAttr_parse :: "string list \<Rightarrow> string \<Rightarrow> string list outcome" where
  "BundleAttr_parse mids line =
     obind (line_value BundleAttr_prefix line) (\<lambda>v.
       let vs = split v '' '' in
       if length vs \<noteq> 2 then Err (-1) else Ok (mids @ [vs ! 0, vs ! 1]))"

text \<open>Exactly the first two identifiers are printed.\<close>

definition BundleAttr_toString :: "string list \<Rightarrow> string outcome" where
  "BundleAttr_toString mids =
     obind (vec_at mids 0) (\<lambda>a. obind (vec_at mids 1) (\<lambda>b. Ok (BundleAttr_prefix @ a @ '' '' @ b @ [LF])))"

datatype candidate_type = CAND_TYPE_HOST | CAND_TYPE_SRFLX | CAND_TYPE_PRFLX | CAND_TYPE_RELAY

record candidate =
  foundation :: string
  component_id :: u32
  transport :: string
  priority :: u32
  cand_address :: string
  cand_port :: u16
  cand_type :: candidate_type
  rel_addr :: string
  rel_port :: u16
  exts :: "(string \<times> string) list"

text \<open>\<open>c\<close> is the object before: related address and extensions are not read, and an unknown type
  leaves the one there was.\<close>

definition Candidate_parse :: "candidate \<Rightarrow> string \<Rightarrow> candidate outcome" where
  "Candidate_parse c line =
     obind (line_value Candidate_prefix line) (\<lambda>v.
       let vs = split v '' '' in
       if length vs < 8 then Err (-1)
       else Ok (c\<lparr>foundation := vs ! 0, component_id := atoi (vs ! 1), transport := vs ! 2, priority := atoi (vs ! 3),
                cand_address := vs ! 4, cand_port := ucast (atoi (vs ! 5)),
                cand_type := (if vs ! 7 = ''host'' then CAND_TYPE_HOST
                              else if vs ! 7 = ''srflx'' then CAND_TYPE_SRFLX
                              else if vs ! 7 = ''prflx'' then CAND_TYPE_PRFLX
                              else if vs ! 7 = ''relay'' then CAND_TYPE_RELAY else cand_type c)\<rparr>))"

fun cand_type_name :: "candidate_type \<Rightarrow> string" where
  "cand_type_name CAND_TYPE_HOST = ''host''"
| "cand_type_name CAND_TYPE_SRFLX = ''srflx''"
| "cand_type_name CAND_TYPE_PRFLX = ''prflx''"
| "cand_type_name CAND_TYPE_RELAY = ''relay''"

definition Candidate_toString :: "hash_order \<Rightarrow> candidate \<Rightarrow> string" where
  "Candidate_toString h c =
     Candidate_prefix @ foundation c @ '' '' @ dec (unat (component_id c)) @ '' '' @ transport c @ '' '' @ dec (unat (priority c))
     @ '' '' @ cand_address c @ '' '' @ dec (unat (cand_port c)) @ '' typ '' @ cand_type_name (cand_type c)
     @ (if cand_type c = CAND_TYPE_SRFLX then '' '' @ rel_addr c @ '' '' @ dec (unat (rel_port c)) else [])
     @ concat (map (\<lambda>(k, v). '' '' @ k @ '' '' @ v) (hm_iter (ord_str h) (exts c))) @ [LF]"

text \<open>The direction is the value of an enumeration in an object nobody initialises.\<close>

abbreviation (input) MEDIA_SENDONLY :: u32 where "MEDIA_SENDONLY \<equiv> 0"
abbreviation (input) MEDIA_RECVONLY :: u32 where "MEDIA_RECVONLY \<equiv> 1"
abbreviation (input) MEDIA_SENDRECV :: u32 where "MEDIA_SENDRECV \<equiv> 2"

definition DirAttr_isMyPrefix :: "string \<Rightarrow> bool" where
  "DirAttr_isMyPrefix line \<longleftrightarrow> starts_with line ''a=recvonly'' \<or> starts_with line ''a=sendonly'' \<or> starts_with line ''a=sendrecv''"

definition DirAttr_parse :: "u32 \<Rightarrow> string \<Rightarrow> u32" where
  "DirAttr_parse dir line =
     (if starts_with line ''a=recvonly'' then MEDIA_RECVONLY
      else if starts_with line ''a=sendonly'' then MEDIA_SENDONLY
      else if starts_with line ''a=sendrecv'' then MEDIA_SENDRECV
      else dir)"

definition DirAttr_toString :: "u32 \<Rightarrow> string" where
  "DirAttr_toString dir =
     (if dir = MEDIA_RECVONLY then ''a=recvonly'' @ [LF]
      else if dir = MEDIA_SENDONLY then ''a=sendonly'' @ [LF]
      else if dir = MEDIA_SENDRECV then ''a=sendrecv'' @ [LF] else [])"

definition MaxPTimeAttr_parse :: "string \<Rightarrow> u32 outcome" where
  "MaxPTimeAttr_parse line = obind (line_value MaxPTimeAttr_prefix line) (\<lambda>v. Ok (atoi v))"

definition MaxPTimeAttr_toString :: "u32 \<Rightarrow> string" where
  "MaxPTimeAttr_toString t = MaxPTimeAttr_prefix @ dec (unat t) @ [LF]"

record rtcp_attr =
  rtcp_port :: u16
  rtcp_nettype :: string
  rtcp_addrtype :: string
  rtcp_address :: string

definition RtcpAttr_parse :: "rtcp_attr \<Rightarrow> string \<Rightarrow> rtcp_attr outcome" where
  "RtcpAttr_parse r line =
     (if \<not> starts_with line RtcpAttr_prefix then Err (-1)
      else obind (line_value RtcpAttr_prefix line) (\<lambda>v.
        let vs = split v '' '' in
        if length vs < 1 then Err (-1)
        else Ok \<lparr>rtcp_port = ucast (atoi (vs ! 0)),
                 rtcp_nettype = (if 2 \<le> length vs then vs ! 1 else rtcp_nettype r),
                 rtcp_addrtype = (if 3 \<le> length vs then vs ! 2 else rtcp_addrtype r),
                 rtcp_address = (if 4 \<le> length vs then vs ! 3 else rtcp_address r)\<rparr>))"

text \<open>The port is not printed.\<close>

definition RtcpAttr_toString :: "rtcp_attr \<Rightarrow> string" where
  "RtcpAttr_toString r = RtcpAttr_prefix @ rtcp_nettype r @ '' '' @ rtcp_addrtype r @ '' '' @ rtcp_address r @ [LF]"

text \<open>Flags: the parsers accept every line.\<close>

definition RtcpMux_parse :: "string \<Rightarrow> bool" where
  "RtcpMux_parse line = True"

definition RecvOnlyAttr_parse :: "string \<Rightarrow> bool" where
  "RecvOnlyAttr_parse line = True"

definition RecvOnlyAttr_toString :: string where
  "RecvOnlyAttr_toString = ''a=recvonly'' @ [LF]"

definition SendOnlyAttr_parse :: "string \<Rightarrow> bool" where
  "SendOnlyAttr_parse line = True"

definition SendOnlyAttr_toString :: string where
  "SendOnlyAttr_toString = ''a=sendonly'' @ [LF]"

definition SendRecvAttr_parse :: "string \<Rightarrow> bool" where
  "SendRecvAttr_parse line = True"

definition SendRecvAttr_toString :: string where
  "SendRecvAttr_toString = ''a=sendrecv'' @ [LF]"

definition RtcpMux_toString :: string where
  "RtcpMux_toString = RtcpMux_prefix @ [LF]"

definition FingerPrint_parse :: "string \<Rightarrow> (string \<times> string) outcome" where
  "FingerPrint_parse line =
     obind (line_value FingerPrint_prefix line) (\<lambda>v.
       let vs = split v '' '' in
       if length vs \<noteq> 2 then Err (-1) else Ok (vs ! 0, vs ! 1))"

definition FingerPrint_toString :: "string \<times> string \<Rightarrow> string" where
  "FingerPrint_toString f = FingerPrint_prefix @ fst f @ '' '' @ snd f @ [LF]"

record extmap =
  ext_value :: string
  ext_direction :: string
  ext_uri :: string

definition Extmap_parse :: "string \<Rightarrow> extmap outcome" where
  "Extmap_parse line =
     obind (line_value Extmap_prefix line) (\<lambda>v.
       let vs = split v '' '' in
       if length vs < 2 then Err (-1)
       else
         let tmp = split (vs ! 0) ''/'' in
         obind (vec_at tmp 0) (\<lambda>a.
           Ok \<lparr>ext_value = a, ext_direction = (if length tmp = 2 then tmp ! 1 else []), ext_uri = vs ! 1\<rparr>))"

definition Msid_parse :: "string \<Rightarrow> (string \<times> string) outcome" where
  "Msid_parse line =
     obind (line_value Msid_prefix line) (\<lambda>v.
       let vs = split v '' '' in
       if length vs \<noteq> 2 then Err (-1) else Ok (vs ! 0, vs ! 1))"

record ssrc =
  ssrc_id :: u32
  cname :: string
  mslabel :: string
  label :: string

text \<open>The attribute is parsed into an existing object, which keeps what was stored before the parser
  gave up.\<close>

definition Ssrc_parse :: "ssrc \<Rightarrow> string \<Rightarrow> (ssrc \<times> bool) outcome" where
  "Ssrc_parse s line =
     obind (line_value Ssrc_prefix line) (\<lambda>v.
       let vs = split v '' '' in
       if length vs < 2 then Ok (s, False)
       else
         let s = s\<lparr>ssrc_id := atoi (vs ! 0)\<rparr> in
         if starts_with (vs ! 1) ''cname:'' then Ok (s\<lparr>cname := drop 6 (vs ! 1)\<rparr>, True)
         else if starts_with (vs ! 1) ''mslabel:'' then Ok (s\<lparr>mslabel := drop 8 (vs ! 1)\<rparr>, True)
         else if starts_with (vs ! 1) ''label:'' then Ok (s\<lparr>label := drop 6 (vs ! 1)\<rparr>, True)
         else if starts_with (vs ! 1) ''msid:'' then
           if length vs < 3 then Ok (s, False)
           else Ok (s\<lparr>mslabel := drop 5 (vs ! 1), label := vs ! 2\<rparr>, True)
         else Ok (s, True))"

definition Ssrc_parseIdOnly :: "string \<Rightarrow> u32 outcome" where
  "Ssrc_parseIdOnly line =
     obind (line_value Ssrc_prefix line) (\<lambda>v.
       let vs = split v '' '' in
       if length vs < 2 then Ok 0 else Ok (atoi (vs ! 0)))"

definition Ssrc_toString :: "ssrc \<Rightarrow> string" where
  "Ssrc_toString s =
     (let p = Ssrc_prefix @ dec (unat (ssrc_id s)) in
      p @ '' cname:'' @ cname s @ [LF] @ p @ '' msid:'' @ mslabel s @ '' '' @ label s @ [LF]
      @ p @ '' mslabel:'' @ mslabel s @ [LF] @ p @ '' label:'' @ label s @ [LF])"

section \<open>Lemmas\<close>

lemma starts_with_append [simp]: "starts_with (p @ s) p"
  by (simp add: starts_with_def)

lemma rfind_last: "c \<notin> set r \<Longrightarrow> rfind c (s @ c # r) = Some (length s)"
proof -
  assume "c \<notin> set r"
  then have "takeWhile (\<lambda>x. x \<noteq> c) (rev r @ c # rev s) = rev r"
    by (auto simp: takeWhile_append takeWhile_eq_all_conv)
  then show ?thesis by (simp add: rfind_def)
qed

text \<open>A line that ends in a carriage return gives its whole value, whatever the value is.\<close>

lemma line_value_CR [simp]: "line_value p (p @ v @ [CR]) = Ok v"
  using rfind_last [of CR "[]" "p @ v"] by (simp add: line_value_def)

text \<open>A line without one loses its last character.\<close>

lemma line_value_LF: "CR \<notin> set p \<Longrightarrow> CR \<notin> set v \<Longrightarrow> p \<noteq> [] \<Longrightarrow> line_value p (p @ v) = Ok (butlast v)"
proof -
  assume a: "CR \<notin> set p" "CR \<notin> set v" "p \<noteq> []"
  then have "rfind CR (p @ v) = None" by (simp add: rfind_def)
  then show ?thesis using a(3) by (cases v rule: rev_cases) (auto simp: line_value_def)
qed

lemma line_value_safe: "starts_with line p \<Longrightarrow> \<exists>v. line_value p line = Ok v"
  by (auto simp: line_value_def starts_with_def Let_def dest!: arg_cong [where f = length])

subsection \<open>Fields\<close>

lemma str_fields_join:
  "ws \<noteq> [] \<Longrightarrow> d \<in> set ds \<Longrightarrow> \<forall>w \<in> set ws. \<forall>c \<in> set w. c \<notin> set ds \<Longrightarrow> str_fields ds (join ws [d]) = ws"
proof (induction ws rule: induct_list012)
  case (2 w)
  then show ?case using str_fields_append [of w ds "[]"] by simp
next
  case (3 v w ws)
  then have "str_fields ds (d # join (w # ws) [d]) = [] # w # ws" by simp
  then show ?case using 3 str_fields_append [of v ds "d # join (w # ws) [d]"] by simp
qed simp

text \<open>A word has at least one character and none of the delimiters \<open>ds\<close>.\<close>

definition word_ok :: "string \<Rightarrow> string \<Rightarrow> bool" where
  "word_ok ds w \<longleftrightarrow> w \<noteq> [] \<and> (\<forall>c \<in> set w. c \<notin> set ds)"

lemma split_join:
  assumes "\<forall>w \<in> set ws. word_ok [d] w"
  shows "split (join ws [d]) [d] = ws"
proof (cases "ws = []")
  case True
  then show ?thesis by (simp add: split_fields)
next
  case False
  then have "str_fields [d] (join ws [d]) = ws" using assms by (intro str_fields_join) (auto simp: word_ok_def)
  then show ?thesis using assms by (simp add: split_fields word_ok_def filter_id_conv)
qed

lemma boost_split_join:
  "ws \<noteq> [] \<Longrightarrow> \<forall>w \<in> set ws. d \<notin> set w \<Longrightarrow> boost_split (join ws [d]) [d] = ws"
  unfolding boost_split_def by (rule str_fields_join) auto

subsection \<open>Numbers\<close>

lemma digit_char: "n < 10 \<Longrightarrow> of_char (char_of (n + 48 :: nat) :: char) = n + 48"
  by simp

lemma dec_not_Nil [simp]: "dec n \<noteq> []"
  by (subst dec.simps) simp

lemma dec_digits: "c \<in> set (dec n) \<Longrightarrow> is_digit c"
proof (induction n rule: dec.induct)
  case (1 n)
  have "is_digit (char_of (n mod 10 + 48 :: nat))" by (simp add: is_digit_def Let_def digit_char)
  then show ?case using 1 by (subst (asm) dec.simps) (auto split: if_splits)
qed

lemma digits_value_append: "digits_value (ds @ [c]) = 10 * digits_value ds + (of_char c - 48)"
  by (simp add: digits_value_def)

lemma digits_value_dec [simp]: "digits_value (dec n) = n"
proof (induction n rule: dec.induct)
  case (1 n)
  then show ?case
    by (subst dec.simps) (simp add: digits_value_append digit_char digits_value_def [of "[]"] digits_value_append [of "[]", simplified])
qed

lemma digit_not_space: "is_digit c \<Longrightarrow> \<not> is_space c \<and> c \<noteq> CHR ''-'' \<and> c \<noteq> CHR ''+''"
  by (auto simp: is_digit_def is_space_def Let_def)

lemma strtol_dec: "n < 2 ^ 63 \<Longrightarrow> strtol (dec n) = int n"
proof -
  assume n: "n < 2 ^ 63"
  obtain c r where cr: "dec n = c # r" by (cases "dec n") auto
  then have c: "is_digit c" using dec_digits [of c n] by simp
  then have dw: "dropWhile is_space (dec n) = dec n" using digit_not_space [of c] by (simp add: cr)
  have tw: "takeWhile is_digit (dec n) = dec n" by (auto simp: takeWhile_eq_all_conv dest: dec_digits)
  have h: "hd (dec n) \<noteq> CHR ''-''" "hd (dec n) \<noteq> CHR ''+''" using digit_not_space [OF c] by (simp_all add: cr)
  have "strtol (dec n) = max (- (2 ^ 63)) (min (2 ^ 63 - 1) (int n))"
    unfolding strtol_def Let_def dw by (simp add: h tw)
  then show ?thesis using n by simp
qed

lemma atoi_dec [simp]: "atoi (dec (unat w)) = w" for w :: u32
  using strtol_dec [of "unat w"] unsigned_less [of w, where ?'a = nat] by (simp add: atoi_def)

lemma atoi_dec16 [simp]: "ucast (atoi (dec (unat w))) = w" for w :: u16
proof -
  have "unat w < 2 ^ 16" using unsigned_less [of w, where ?'a = nat] by simp
  then have "atoi (dec (unat w)) = ucast w" using strtol_dec [of "unat w"] by (simp add: atoi_def)
  then show ?thesis by (auto intro: bit_word_eqI simp: bit_unsigned_iff dest: bit_imp_le_length)
qed

lemma atoll_dec: "unat w < 2 ^ 63 \<Longrightarrow> atoll (dec (unat w)) = w"
  by (simp add: atoll_def strtol_dec)

lemma dec_plain: "c \<in> set (dec n) \<Longrightarrow> c \<notin> {SP, CR, LF, CHR ''/'', CHR '';'', CHR ''=''}"
  using dec_digits [of c n] by (auto simp: is_digit_def)

lemma word_ok_dec [simp]: "\<forall>d \<in> set ds. \<not> is_digit d \<Longrightarrow> word_ok ds (dec n)"
  by (auto simp: word_ok_def dest: dec_digits)

lemma dec_signed_plain: "c \<in> set (dec_signed w) \<Longrightarrow> is_digit c \<or> c = CHR ''-''"
  by (auto simp: dec_signed_def dest: dec_digits split: if_splits)

lemma strtol_neg_dec: "n \<le> 2 ^ 63 \<Longrightarrow> strtol (CHR ''-'' # dec n) = - int n"
proof -
  assume n: "n \<le> 2 ^ 63"
  have dw: "dropWhile is_space (CHR ''-'' # dec n) = CHR ''-'' # dec n" by (simp add: is_space_def)
  have tw: "takeWhile is_digit (dec n) = dec n" by (auto simp: takeWhile_eq_all_conv dest: dec_digits)
  have "strtol (CHR ''-'' # dec n) = max (- (2 ^ 63)) (min (2 ^ 63 - 1) (- int n))"
    unfolding strtol_def Let_def dw by (simp add: tw)
  then show ?thesis using n by simp
qed

lemma atoi_dec_signed [simp]: "atoi (dec_signed w) = w" for w :: u32
proof -
  have b: "- (2 ^ 31) \<le> sint w" "sint w < 2 ^ 31"
    using sint_range_size [of w] by (simp_all add: word_size)
  show ?thesis
  proof (cases "sint w < 0")
    case True
    then have "strtol (dec_signed w) = sint w"
      using b strtol_neg_dec [of "nat (- sint w)"] by (simp add: dec_signed_def)
    then show ?thesis by (simp add: atoi_def)
  next
    case False
    then have "strtol (dec_signed w) = sint w"
      using b strtol_dec [of "nat (sint w)"] by (simp add: dec_signed_def)
    then show ?thesis by (simp add: atoi_def)
  qed
qed

lemma word_ok_dec_signed [simp]: "\<forall>d \<in> set ds. \<not> is_digit d \<and> d \<noteq> CHR ''-'' \<Longrightarrow> word_ok ds (dec_signed w)"
  by (auto simp: word_ok_def dec_signed_def dest: dec_digits)

section \<open>The contract of a line class\<close>

text \<open>A printed line is the prefix, text without line feed and a line feed; the parser looks at nothing
  but the value of the line, and reads back what was printed once the line ends as the network
  sends it, in a carriage return and a line feed.\<close>

locale sdp_line =
  fixes prefix :: string and parse :: "string \<Rightarrow> 'a outcome" and toString :: "'a \<Rightarrow> string" and ok :: "'a \<Rightarrow> bool"
  assumes prefix_ok: "prefix \<noteq> []" "CR \<notin> set prefix" "LF \<notin> set prefix"
    and printed: "\<exists>v. toString x = prefix @ v @ [LF] \<and> (ok x \<longrightarrow> LF \<notin> set v \<and> CR \<notin> set v \<and> parse (prefix @ v @ [CR]) = Ok x)"
    and parse_value: "line_value prefix l = line_value prefix l' \<Longrightarrow> parse l = parse l'"
begin

lemma printed_line:
  assumes "ok x"
  obtains v where "toString x = prefix @ v @ [LF]" "LF \<notin> set v" "CR \<notin> set v" "parse (prefix @ v @ [CR]) = Ok x"
  using printed [of x] assms by blast

lemma round_trip_CRLF: "ok x \<Longrightarrow> parse (butlast (toString x) @ [CR]) = Ok x"
  by (erule printed_line) (simp add: butlast_append)

lemma one_line: "ok x \<Longrightarrow> LF \<notin> set (butlast (toString x)) \<and> starts_with (toString x) prefix"
  by (erule printed_line) (use prefix_ok in \<open>simp add: butlast_append\<close>)

text \<open>Parsing the printed line as it is, without a carriage return, loses the last character of its
  value.\<close>

lemma printed_line_truncated:
  assumes "ok x"
  shows "parse (butlast (toString x)) = parse (prefix @ butlast (drop (length prefix) (butlast (toString x))) @ [CR])"
proof -
  obtain v where v: "toString x = prefix @ v @ [LF]" "CR \<notin> set v" using assms by (rule printed_line)
  have "butlast (toString x) = prefix @ v" by (simp add: v(1) butlast_append)
  then show ?thesis using prefix_ok line_value_LF [of prefix v] v(2) by (intro parse_value) simp
qed

end

definition text_ok :: "string \<Rightarrow> bool" where
  "text_ok v \<longleftrightarrow> LF \<notin> set v \<and> CR \<notin> set v"

lemma text_line:
  assumes "p \<noteq> []" "CR \<notin> set p" "LF \<notin> set p" "\<And>l. parse l = line_value p l" "\<And>v. toString v = p @ v @ [LF]"
  shows "sdp_line p parse toString text_ok"
  by unfold_locales (use assms in \<open>auto simp: text_ok_def\<close>)

interpretation uri: sdp_line Uri_prefix Uri_parse Uri_toString text_ok
  by (rule text_line) (simp_all add: Uri_parse_def Uri_toString_def)

interpretation email: sdp_line EmailAddress_prefix EmailAddress_parse EmailAddress_toString text_ok
  by (rule text_line) (simp_all add: EmailAddress_parse_def EmailAddress_toString_def)

interpretation phone: sdp_line Phone_prefix Phone_parse Phone_toString text_ok
  by (rule text_line) (simp_all add: Phone_parse_def Phone_toString_def)

interpretation session_information: sdp_line SessionInformation_prefix SessionInformation_parse SessionInformation_toString text_ok
  by (rule text_line) (simp_all add: SessionInformation_parse_def SessionInformation_toString_def)

interpretation session_name_line: sdp_line SessionName_prefix SessionName_parse SessionName_toString text_ok
  by (rule text_line) (simp_all add: SessionName_parse_def SessionName_toString_def)

interpretation tool: sdp_line ToolAttr_prefix ToolAttr_parse ToolAttr_toString text_ok
  by (rule text_line) (simp_all add: ToolAttr_parse_def ToolAttr_toString_def)

interpretation mid_line: sdp_line MidAttr_prefix MidAttr_parse MidAttr_toString text_ok
  by (rule text_line) (simp_all add: MidAttr_parse_def MidAttr_toString_def)

interpretation setup_line: sdp_line SetupAttr_prefix SetupAttr_parse SetupAttr_toString text_ok
  by (rule text_line) (simp_all add: SetupAttr_parse_def SetupAttr_toString_def)

interpretation tls_id: sdp_line TlsIdAttr_prefix TlsIdAttr_parse TlsIdAttr_toString text_ok
  by (rule text_line) (simp_all add: TlsIdAttr_parse_def TlsIdAttr_toString_def)

interpretation ice_option: sdp_line IceOption_prefix IceOption_parse IceOption_toString text_ok
  by (rule text_line) (simp_all add: IceOption_parse_def IceOption_toString_def)

interpretation ice_ufrag: sdp_line IceUfrag_prefix IceUfrag_parse IceUfrag_toString text_ok
  by (rule text_line) (simp_all add: IceUfrag_parse_def IceUfrag_toString_def)

interpretation ice_pwd: sdp_line IcePwd_prefix IcePwd_parse IcePwd_toString text_ok
  by (rule text_line) (simp_all add: IcePwd_parse_def IcePwd_toString_def)

text \<open>Lines of words: the printed fields are separated by one blank, so the parser finds them again.\<close>

abbreviation blank_free :: "string \<Rightarrow> bool" where
  "blank_free \<equiv> word_ok [SP, CR, LF]"

lemma blank_free_word: "blank_free w \<Longrightarrow> word_ok [SP] w" "blank_free w \<Longrightarrow> c \<in> {SP, CR, LF} \<Longrightarrow> c \<notin> set w"
  by (auto simp: word_ok_def)

lemma blank_free_dec [simp]: "blank_free (dec n)" "blank_free (dec_signed w)"
  by (auto intro!: word_ok_dec word_ok_dec_signed simp: is_digit_def)

lemma join_chars: "c \<in> set (join ws sep) \<Longrightarrow> (\<exists>w \<in> set ws. c \<in> set w) \<or> c \<in> set sep"
  by (induction ws sep rule: join.induct) auto

lemma words_line:
  assumes "\<forall>w \<in> set ws. blank_free w"
  shows "split (join ws [SP]) [SP] = ws" "LF \<notin> set (join ws [SP])" "CR \<notin> set (join ws [SP])"
proof -
  show "split (join ws [SP]) [SP] = ws" using assms blank_free_word(1) by (blast intro: split_join)
  show "LF \<notin> set (join ws [SP])" "CR \<notin> set (join ws [SP])"
    using assms join_chars [of _ ws "[SP]"] by (fastforce simp: word_ok_def)+
qed

lemma words_sdp_line:
  assumes "p \<noteq> []" "CR \<notin> set p" "LF \<notin> set p" "\<And>l. parse l = obind (line_value p l) (\<lambda>v. g (split v [SP]))"
    and "\<And>x. toString x = p @ join (ws x) [SP] @ [LF]"
    and "\<And>x. ok x \<Longrightarrow> (\<forall>w \<in> set (ws x). blank_free w) \<and> g (ws x) = Ok x"
  shows "sdp_line p parse toString ok"
proof
  show "p \<noteq> []" "CR \<notin> set p" "LF \<notin> set p" by fact+
  show "\<exists>v. toString x = p @ v @ [LF] \<and> (ok x \<longrightarrow> LF \<notin> set v \<and> CR \<notin> set v \<and> parse (p @ v @ [CR]) = Ok x)" for x
    using assms(5) [of x] assms(6) [of x] words_line [of "ws x"] by (auto simp: assms(4))
qed (simp add: assms(4))

lemma word_ok_append: "word_ok ds u \<Longrightarrow> word_ok ds v \<Longrightarrow> word_ok ds (u @ v)"
  by (auto simp: word_ok_def)

lemma join_word_ok: "ws \<noteq> [] \<Longrightarrow> \<forall>w \<in> set ws. word_ok ds w \<Longrightarrow> word_ok ds sep \<Longrightarrow> word_ok ds (join ws sep)"
  by (induction ws sep rule: join.induct) (simp_all add: word_ok_append)

definition origin_ok :: "origin \<Rightarrow> bool" where
  "origin_ok x \<longleftrightarrow> blank_free (username x) \<and> blank_free (nettype x) \<and> blank_free (addrtype x) \<and> blank_free (unicast_address x)
     \<and> unat (session_id x) < 2 ^ 63"

interpretation origin_line: sdp_line Origin_prefix Origin_parse Origin_toString origin_ok
  by (rule words_sdp_line [where ws = "\<lambda>x. [username x, dec (unat (session_id x)), dec (unat (session_version x)), nettype x, addrtype x, unicast_address x]"
        and g = "\<lambda>vs. if length vs \<noteq> 6 then Err (-1) else Ok \<lparr>username = vs ! 0, session_id = atoll (vs ! 1),
          session_version = atoi (vs ! 2), nettype = vs ! 3, addrtype = vs ! 4, unicast_address = vs ! 5\<rparr>"])
    (simp_all add: Origin_parse_def Origin_toString_def Let_def origin_ok_def atoll_dec)

definition timing_ok :: "u64 \<times> u64 \<Rightarrow> bool" where
  "timing_ok t \<longleftrightarrow> unat (fst t) < 2 ^ 63 \<and> unat (snd t) < 2 ^ 63"

interpretation timing_line: sdp_line Timing_prefix Timing_parse Timing_toString timing_ok
  by (rule words_sdp_line [where ws = "\<lambda>t. [dec (unat (fst t)), dec (unat (snd t))]"
        and g = "\<lambda>vs. if length vs \<noteq> 2 then Err (-1) else Ok (atoll (vs ! 0), atoll (vs ! 1))"])
    (simp_all add: Timing_parse_def Timing_toString_def Let_def timing_ok_def atoll_dec)

definition pair_ok :: "string \<times> string \<Rightarrow> bool" where
  "pair_ok f \<longleftrightarrow> blank_free (fst f) \<and> blank_free (snd f)"

interpretation fingerprint_line: sdp_line FingerPrint_prefix FingerPrint_parse FingerPrint_toString pair_ok
  by (rule words_sdp_line [where ws = "\<lambda>f. [fst f, snd f]" and g = "\<lambda>vs. if length vs \<noteq> 2 then Err (-1) else Ok (vs ! 0, vs ! 1)"])
    (simp_all add: FingerPrint_parse_def FingerPrint_toString_def Let_def pair_ok_def)

interpretation version_line: sdp_line ProtocolVersion_prefix ProtocolVersion_parse ProtocolVersion_toString "\<lambda>_. True"
proof
  fix x show "\<exists>v. ProtocolVersion_toString x = ProtocolVersion_prefix @ v @ [LF]
      \<and> (True \<longrightarrow> LF \<notin> set v \<and> CR \<notin> set v \<and> ProtocolVersion_parse (ProtocolVersion_prefix @ v @ [CR]) = Ok x)"
    using blank_free_word(2) [OF blank_free_dec(2) [of x]] line_value_CR [of ProtocolVersion_prefix "dec_signed x"]
    by (intro exI [of _ "dec_signed x"]) (simp add: ProtocolVersion_toString_def ProtocolVersion_parse_def)
qed (simp_all add: ProtocolVersion_parse_def)

interpretation maxptime_line: sdp_line MaxPTimeAttr_prefix MaxPTimeAttr_parse MaxPTimeAttr_toString "\<lambda>_. True"
proof
  fix x show "\<exists>v. MaxPTimeAttr_toString x = MaxPTimeAttr_prefix @ v @ [LF]
      \<and> (True \<longrightarrow> LF \<notin> set v \<and> CR \<notin> set v \<and> MaxPTimeAttr_parse (MaxPTimeAttr_prefix @ v @ [CR]) = Ok x)"
    using blank_free_word(2) [OF blank_free_dec(1) [of "unat x"]] line_value_CR [of MaxPTimeAttr_prefix "dec (unat x)"]
    by (intro exI [of _ "dec (unat x)"]) (simp add: MaxPTimeAttr_toString_def MaxPTimeAttr_parse_def)
qed (simp_all add: MaxPTimeAttr_parse_def)

definition connection_ok :: "connection_info \<Rightarrow> bool" where
  "connection_ok x \<longleftrightarrow> blank_free (ci_nettype x) \<and> blank_free (ci_addrtype x) \<and> word_ok [SP, CR, LF, CHR ''/''] (connection_address x)
     \<and> (1 < sint (num_of_addr x) \<or> num_of_addr x = 1 \<and> ttl x = 0)"

text \<open>The fields of a connection line.\<close>

definition connection_words :: "connection_info \<Rightarrow> string list" where
  "connection_words x = [ci_nettype x, ci_addrtype x, join (connection_address x #
     (if 1 < sint (num_of_addr x) then [dec_signed (ttl x), dec_signed (num_of_addr x)] else [])) ''/'']"

definition connection_of_words :: "string list \<Rightarrow> connection_info outcome" where
  "connection_of_words vs =
     (if length vs \<noteq> 3 then Err (-1)
      else
        let as = split (vs ! 2) ''/'' in
        obind (vec_at as 0) (\<lambda>a.
          Ok \<lparr>ci_nettype = vs ! 0, ci_addrtype = vs ! 1, connection_address = a,
              ttl = (if 2 \<le> length as then atoi (as ! 1) else 0),
              num_of_addr = (if 3 \<le> length as then atoi (as ! 2) else 1)\<rparr>))"

lemma connection_words_ok:
  assumes ok: "connection_ok x"
  shows "(\<forall>w \<in> set (connection_words x). blank_free w) \<and> connection_of_words (connection_words x) = Ok x"
proof -
  let ?as = "connection_address x # (if 1 < sint (num_of_addr x) then [dec_signed (ttl x), dec_signed (num_of_addr x)] else [])"
  have w: "word_ok [CHR ''/''] (dec_signed v)" for v :: u32 by (rule word_ok_dec_signed) (simp add: is_digit_def)
  have a: "word_ok [CHR ''/''] (connection_address x)" "blank_free (connection_address x)"
    using ok by (simp_all add: connection_ok_def word_ok_def)
  have s: "split (join ?as ''/'') ''/'' = ?as" by (rule split_join) (use a(1) w in auto)
  have "blank_free ''/''" "\<forall>w \<in> set ?as. blank_free w" using a(2) by (simp add: word_ok_def, auto)
  then have "blank_free (join ?as ''/'')" by (intro join_word_ok) simp_all
  then show ?thesis
    by (cases "1 < sint (num_of_addr x)")
      (use ok s in \<open>simp_all add: connection_ok_def connection_words_def connection_of_words_def vec_at_def Let_def\<close>)
qed

interpretation connection_line: sdp_line ConnectionInfo_prefix ConnectionInfo_parse ConnectionInfo_toString connection_ok
  by (rule words_sdp_line [where ws = connection_words and g = connection_of_words])
    (simp_all add: ConnectionInfo_parse_def ConnectionInfo_toString_def connection_words_ok,
      simp_all add: connection_of_words_def connection_words_def Let_def)

section \<open>Properties\<close>



text \<open>A description whose lines end in a line feed alone, as the ones the server itself prints, is read
  with the last character of every value missing.\<close>

theorem sdp_line_without_CR_loses_character:
  assumes "text_ok v"
  shows "IceUfrag_parse (butlast (IceUfrag_toString v)) = Ok (butlast v) \<and> IcePwd_parse (butlast (IcePwd_toString v)) = Ok (butlast v)
    \<and> MidAttr_parse (butlast (MidAttr_toString v)) = Ok (butlast v)"
  using assms line_value_LF [of IceUfrag_prefix v] line_value_LF [of IcePwd_prefix v] line_value_LF [of MidAttr_prefix v]
  by (simp add: IceUfrag_parse_def IceUfrag_toString_def IcePwd_parse_def IcePwd_toString_def MidAttr_parse_def MidAttr_toString_def
      text_ok_def butlast_append)

theorem sdp_line_without_CR_loses_character_witness: "IceUfrag_parse ''a=ice-ufrag:4ZcD'' = Ok ''4Zc''"
  using sdp_line_without_CR_loses_character [of "''4ZcD''"] by (simp add: text_ok_def IceUfrag_toString_def butlast_append)

end
