(* ===== verification/Sdp_Media.thy ===== *)
theory Sdp_Media
  imports Sdp_Line
begin

text \<open>
  The media sections of a session description, \<open>src/protocol/sdp/media-level\<close>: payload types with their
  feedback and format parameters, synchronisation sources and groups, and the media description
  that collects the attribute lines behind an \<open>m=\<close> line.

  Several classes leave numbers uninitialised; \<open>sdp_junk\<close> is what those members hold before anything is
  stored.
\<close>

record sdp_junk =
  j_dir :: u32
  j_curr_pt :: u32
  j_payload_type :: u32
  j_clock_rate :: u32
  j_ssrc_id :: u32
  j_port_count :: u16

section \<open>Payload types\<close>

abbreviation (input) Rtpmap_prefix :: string where "Rtpmap_prefix \<equiv> ''a=rtpmap:''"
abbreviation (input) RtcpFb_prefix :: string where "RtcpFb_prefix \<equiv> ''a=rtcp-fb:''"
abbreviation (input) Fmtp_prefix :: string where "Fmtp_prefix \<equiv> ''a=fmtp:''"
abbreviation (input) SsrcGroup_prefix :: string where "SsrcGroup_prefix \<equiv> ''a=ssrc-group:''"
abbreviation (input) MediaSdp_prefix :: string where "MediaSdp_prefix \<equiv> ''m=''"

record rtcp_fb =
  fb_pt :: u32
  fb_val :: string
  fb_param :: string

definition RtcpFb_parse :: "string \<Rightarrow> rtcp_fb outcome" where
  "RtcpFb_parse line =
     obind (line_value RtcpFb_prefix line) (\<lambda>v.
       let vs = boost_split v '' '' in
       if length vs < 2 then Err (-1)
       else Ok \<lparr>fb_pt = (if vs ! 0 = ''*'' then -1 else atoi (vs ! 0)), fb_val = vs ! 1,
                fb_param = (if 3 \<le> length vs then vs ! 2 else [])\<rparr>)"

definition RtcpFb_toString :: "rtcp_fb \<Rightarrow> string" where
  "RtcpFb_toString f = RtcpFb_prefix @ (if fb_pt f = -1 then ''*'' else dec_signed (fb_pt f)) @ '' '' @ fb_val f
     @ (if fb_param f \<noteq> [] then '' '' @ fb_param f else []) @ [LF]"

record fmtp =
  fmtp_pt :: u32
  fmt_params :: "(string \<times> string) list"

definition fmt_param :: "string \<Rightarrow> (string \<times> string) list \<Rightarrow> (string \<times> string) list" where
  "fmt_param str params =
     (let kv = boost_split str ''='' in
      if length kv \<noteq> 2 then params else AList.update (kv ! 0) (kv ! 1) params)"

definition Fmtp_parse :: "string \<Rightarrow> fmtp outcome" where
  "Fmtp_parse line =
     obind (line_value Fmtp_prefix line) (\<lambda>v.
       let vs = boost_split v '' '' in
       if length vs < 2 then Err (-1)
       else Ok \<lparr>fmtp_pt = atoi (vs ! 0), fmt_params = fold fmt_param (boost_split (vs ! 1) '';'') []\<rparr>)"

definition Fmtp_getParam :: "string \<Rightarrow> fmtp \<Rightarrow> string" where
  "Fmtp_getParam k f = hm_get [] k (fmt_params f)"

definition Fmtp_toString :: "hash_order \<Rightarrow> fmtp \<Rightarrow> string" where
  "Fmtp_toString h f = Fmtp_prefix @ dec (unat (fmtp_pt f)) @ '' ''
     @ join (map (\<lambda>(k, v). k @ ''='' @ v) (hm_iter (ord_str h) (fmt_params f))) '';'' @ [LF]"

record payload =
  payload_type :: u32
  encoding_name :: string
  clock_rate :: u32
  encoding_params :: "string list"
  rtcp_fbs :: "rtcp_fb list"
  fmtps :: "(u32 \<times> fmtp) list"

definition Payload_default :: "sdp_junk \<Rightarrow> payload" where
  "Payload_default j = \<lparr>payload_type = j_payload_type j, encoding_name = [], clock_rate = j_clock_rate j,
     encoding_params = [], rtcp_fbs = [], fmtps = []\<rparr>"

definition Payload_new :: "u32 \<Rightarrow> string \<Rightarrow> u32 \<Rightarrow> string list \<Rightarrow> payload" where
  "Payload_new pt name rate params = \<lparr>payload_type = pt, encoding_name = name, clock_rate = rate,
     encoding_params = params, rtcp_fbs = [], fmtps = []\<rparr>"

definition Payload_parse :: "string \<Rightarrow> payload outcome" where
  "Payload_parse line =
     obind (line_value Rtpmap_prefix line) (\<lambda>v.
       let vs = boost_split v '' '' in
       if length vs < 2 then Err (-1)
       else
         let tmp = split (vs ! 1) ''/'' in
         if length tmp < 2 then Err (-1)
         else Ok (Payload_new (atoi (vs ! 0)) (tmp ! 0) (atoi (tmp ! 1)) (drop 2 tmp)))"

definition Payload_addRtcpFb :: "rtcp_fb \<Rightarrow> payload \<Rightarrow> payload" where
  "Payload_addRtcpFb fb p = p\<lparr>rtcp_fbs := rtcp_fbs p @ [fb]\<rparr>"

definition Payload_addFmtp :: "fmtp \<Rightarrow> payload \<Rightarrow> payload" where
  "Payload_addFmtp f p = p\<lparr>fmtps := hm_insert (fmtp_pt f) f (fmtps p)\<rparr>"

definition Payload_parseRtcpFbAttr :: "string \<Rightarrow> payload \<Rightarrow> (payload \<times> bool) outcome" where
  "Payload_parseRtcpFbAttr line p =
     (case RtcpFb_parse line of
        Fault \<Rightarrow> Fault
      | Err _ \<Rightarrow> Ok (p, False)
      | Ok fb \<Rightarrow> Ok (Payload_addRtcpFb fb p, True))"

definition Payload_parseFmtpAttr :: "string \<Rightarrow> payload \<Rightarrow> (payload \<times> bool) outcome" where
  "Payload_parseFmtpAttr line p =
     (case Fmtp_parse line of
        Fault \<Rightarrow> Fault
      | Err _ \<Rightarrow> Ok (p, False)
      | Ok f \<Rightarrow> Ok (Payload_addFmtp f p, True))"

definition Payload_toString :: "hash_order \<Rightarrow> payload \<Rightarrow> string" where
  "Payload_toString h p =
     Rtpmap_prefix @ dec (unat (payload_type p)) @ '' '' @ encoding_name p @ ''/'' @ dec (unat (clock_rate p))
     @ (if encoding_params p \<noteq> [] then ''/'' @ join (encoding_params p) ''/'' else []) @ [LF]
     @ concat (map RtcpFb_toString (rtcp_fbs p))
     @ concat (map (\<lambda>(_, f). Fmtp_toString h f) (hm_iter (ord_u32 h) (fmtps p)))"

text \<open>The class \<open>Rtpmap\<close>, which only the payload class has replaced.\<close>

definition Rtpmap_parse :: "string \<Rightarrow> (u32 \<times> string \<times> u32 \<times> string list) outcome" where
  "Rtpmap_parse line =
     obind (line_value Rtpmap_prefix line) (\<lambda>v.
       let vs = split v '' '' in
       if length vs \<noteq> 2 then Err (-1)
       else
         let tmp = split (vs ! 1) ''/'' in
         if length tmp < 2 then Err (-1)
         else Ok (atoi (vs ! 0), tmp ! 0, atoi (tmp ! 1), drop 2 tmp))"

definition Rtpmap_toString :: "u32 \<times> string \<times> u32 \<times> string list \<Rightarrow> string" where
  "Rtpmap_toString r =
     (case r of (pt, name, rate, params) \<Rightarrow>
        Rtpmap_prefix @ dec (unat pt) @ '' '' @ name @ ''/'' @ dec (unat rate)
        @ (if params \<noteq> [] then ''/'' @ join params ''/'' else []) @ [LF])"

section \<open>Groups of sources\<close>

definition Ssrc_default :: "sdp_junk \<Rightarrow> ssrc" where
  "Ssrc_default j = \<lparr>ssrc_id = j_ssrc_id j, cname = [], mslabel = [], label = []\<rparr>"

record ssrc_group =
  group_semantics :: string
  group_ssrcs :: "(u32 \<times> ssrc) list"

definition SsrcGroup_parse :: "sdp_junk \<Rightarrow> string \<Rightarrow> ssrc_group outcome" where
  "SsrcGroup_parse j line =
     obind (line_value SsrcGroup_prefix line) (\<lambda>v.
       let vs = split v '' '' in
       if length vs < 2 then Err (-1)
       else Ok \<lparr>group_semantics = vs ! 0,
                group_ssrcs = fold (\<lambda>s m. hm_insert (atoi s) (Ssrc_default j) m) (drop 1 vs) []\<rparr>)"

text \<open>The semantics of the group is not printed.\<close>

definition SsrcGroup_toString :: "hash_order \<Rightarrow> ssrc_group \<Rightarrow> string" where
  "SsrcGroup_toString h g =
     SsrcGroup_prefix @ join (map (\<lambda>(i, _). dec (unat i)) (hm_iter (ord_u32 h) (group_ssrcs g))) '' '' @ [LF]"

section \<open>Media descriptions\<close>

record media_sdp =
  media :: string
  port :: u16
  port_count :: u16
  proto :: string
  fmts :: "u16 list"
  m_ice_ufrag :: "string option"
  m_ice_pwd :: "string option"
  m_ice_option :: "string option"
  candidates :: "candidate list"
  rtcp_mux :: bool
  payloads :: "(u32 \<times> payload) list"
  fingerprint :: "string \<times> string"
  curr_pt :: u32
  dir :: u32
  setup_role :: string
  max_ptime :: "u32 option"
  ext_maps :: "extmap list"
  m_connection :: "connection_info option"
  mid :: string
  m_ssrc_group :: "ssrc_group option"
  ssrcs :: "(u32 \<times> ssrc) list"

definition MediaSdp_default :: "sdp_junk \<Rightarrow> media_sdp" where
  "MediaSdp_default j = \<lparr>media = [], port = 0, port_count = j_port_count j, proto = [], fmts = [], m_ice_ufrag = None,
     m_ice_pwd = None, m_ice_option = None, candidates = [], rtcp_mux = False, payloads = [], fingerprint = ([], []),
     curr_pt = j_curr_pt j, dir = j_dir j, setup_role = [], max_ptime = None, ext_maps = [], m_connection = None,
     mid = [], m_ssrc_group = None, ssrcs = []\<rparr>"

definition MediaSdp_parse :: "sdp_junk \<Rightarrow> string \<Rightarrow> media_sdp outcome" where
  "MediaSdp_parse j line =
     obind (line_value MediaSdp_prefix line) (\<lambda>v.
       let vs = boost_split v '' '' in
       if length vs < 3 then Err (-1)
       else
         let ps = split (vs ! 1) ''/'';
             m = (MediaSdp_default j)\<lparr>media := vs ! 0, proto := vs ! 2, fmts := map (\<lambda>s. ucast (atoi s)) (drop 3 vs)\<rparr> in
         obind (vec_at ps 0) (\<lambda>p.
           let m = m\<lparr>port := ucast (atoi p)\<rparr> in
           Ok (if 1 < length ps then m\<lparr>port_count := ucast (atoi (ps ! 1))\<rparr> else m)))"

text \<open>Parse one line into a fresh object and store it: a parser that returns false makes \<open>parseAttr\<close> return
  false.\<close>

definition store :: "'a outcome \<Rightarrow> ('a \<Rightarrow> media_sdp) \<Rightarrow> media_sdp \<Rightarrow> (media_sdp \<times> bool) outcome" where
  "store r f m = (case r of Fault \<Rightarrow> Fault | Err _ \<Rightarrow> Ok (m, False) | Ok x \<Rightarrow> Ok (f x, True))"

text \<open>A parsed \<open>ice-options\<close> value is assigned to itself and forgotten.  Behind a successfully parsed feedback
  or format line \<open>parseAttr\<close> returns false, behind a broken one true: the boolean is compared with 0 as
  if it were a result code.\<close>

definition parseAttr :: "sdp_junk \<Rightarrow> string \<Rightarrow> media_sdp \<Rightarrow> (media_sdp \<times> bool) outcome" where
  "parseAttr j line m =
     (if starts_with line IceUfrag_prefix then store (IceUfrag_parse line) (\<lambda>x. m\<lparr>m_ice_ufrag := Some x\<rparr>) m
      else if starts_with line IcePwd_prefix then store (IcePwd_parse line) (\<lambda>x. m\<lparr>m_ice_pwd := Some x\<rparr>) m
      else if starts_with line IceOption_prefix then store (IceOption_parse line) (\<lambda>_. m) m
      else if starts_with line Extmap_prefix then store (Extmap_parse line) (\<lambda>x. m\<lparr>ext_maps := ext_maps m @ [x]\<rparr>) m
      else if DirAttr_isMyPrefix line then Ok (m\<lparr>dir := DirAttr_parse (dir m) line\<rparr>, True)
      else if starts_with line ConnectionInfo_prefix then store (ConnectionInfo_parse line) (\<lambda>x. m\<lparr>m_connection := Some x\<rparr>) m
      else if starts_with line MidAttr_prefix then store (MidAttr_parse line) (\<lambda>x. m\<lparr>mid := x\<rparr>) m
      else if starts_with line Rtpmap_prefix then
        store (Payload_parse line) (\<lambda>p. m\<lparr>curr_pt := payload_type p, payloads := hm_insert (payload_type p) p (payloads m)\<rparr>) m
      else if starts_with line RtcpFb_prefix then
        obind (Payload_parseRtcpFbAttr line (hm_get (Payload_default j) (curr_pt m) (payloads m))) (\<lambda>(p, r).
          Ok (m\<lparr>payloads := AList.update (curr_pt m) p (payloads m)\<rparr>, \<not> r))
      else if starts_with line Fmtp_prefix then
        obind (Payload_parseFmtpAttr line (hm_get (Payload_default j) (curr_pt m) (payloads m))) (\<lambda>(p, r).
          Ok (m\<lparr>payloads := AList.update (curr_pt m) p (payloads m)\<rparr>, \<not> r))
      else if starts_with line MaxPTimeAttr_prefix then store (MaxPTimeAttr_parse line) (\<lambda>x. m\<lparr>max_ptime := Some x\<rparr>) m
      else if starts_with line Ssrc_prefix then
        obind (Ssrc_parseIdOnly line) (\<lambda>i.
        obind (Ssrc_parse (hm_get (Ssrc_default j) i (ssrcs m)) line) (\<lambda>(s, r).
          Ok (m\<lparr>ssrcs := AList.update i s (ssrcs m)\<rparr>, r)))
      else if starts_with line SetupAttr_prefix then store (SetupAttr_parse line) (\<lambda>x. m\<lparr>setup_role := x\<rparr>) m
      else if starts_with line SsrcGroup_prefix then store (SsrcGroup_parse j line) (\<lambda>x. m\<lparr>m_ssrc_group := Some x\<rparr>) m
      else Ok (m, True))"

definition MediaSdp_getReverseDir :: "media_sdp \<Rightarrow> u32" where
  "MediaSdp_getReverseDir m =
     (if dir m = MEDIA_SENDONLY then MEDIA_RECVONLY
      else if dir m = MEDIA_RECVONLY then MEDIA_SENDONLY else MEDIA_SENDRECV)"

definition MediaSdp_searchPayload :: "hash_order \<Rightarrow> string \<Rightarrow> media_sdp \<Rightarrow> payload option" where
  "MediaSdp_searchPayload h name m = find (\<lambda>p. encoding_name p = name) (map snd (hm_iter (ord_u32 h) (payloads m)))"

definition MediaSdp_addSsrc :: "ssrc \<Rightarrow> media_sdp \<Rightarrow> media_sdp" where
  "MediaSdp_addSsrc s m = m\<lparr>ssrcs := hm_insert (ssrc_id s) s (ssrcs m)\<rparr>"

definition MediaSdp_addPayload :: "payload \<Rightarrow> media_sdp \<Rightarrow> media_sdp" where
  "MediaSdp_addPayload p m = m\<lparr>payloads := hm_insert (payload_type p) p (payloads m)\<rparr>"

definition or_empty :: "('a \<Rightarrow> string) \<Rightarrow> 'a option \<Rightarrow> string" where
  "or_empty f x = (case x of None \<Rightarrow> [] | Some y \<Rightarrow> f y)"

text \<open>Every format but the last has a blank on both sides.\<close>

definition fmts_toString :: "u16 list \<Rightarrow> string" where
  "fmts_toString fs = concat (map (\<lambda>f. '' '' @ dec (unat f) @ '' '') (butlast fs)) @ (if fs = [] then [] else '' '' @ dec (unat (last fs)))"

definition MediaSdp_toString :: "hash_order \<Rightarrow> media_sdp \<Rightarrow> string" where
  "MediaSdp_toString h m =
     MediaSdp_prefix @ media m @ '' '' @ dec (unat (port m)) @ '' '' @ proto m @ fmts_toString (fmts m) @ [LF]
     @ or_empty ConnectionInfo_toString (m_connection m) @ or_empty IceUfrag_toString (m_ice_ufrag m)
     @ or_empty IcePwd_toString (m_ice_pwd m) @ or_empty IceOption_toString (m_ice_option m)
     @ concat (map (Candidate_toString h) (candidates m)) @ (if rtcp_mux m then RtcpMux_toString else [])
     @ concat (map (\<lambda>(_, p). Payload_toString h p) (hm_iter (ord_u32 h) (payloads m)))
     @ DirAttr_toString (dir m) @ SetupAttr_toString (setup_role m) @ MidAttr_toString (mid m)
     @ FingerPrint_toString (fingerprint m) @ or_empty (SsrcGroup_toString h) (m_ssrc_group m)
     @ concat (map (\<lambda>(_, s). Ssrc_toString s) (hm_iter (ord_u32 h) (ssrcs m)))"

end
