(* ===== verification/Sdp.thy ===== *)
theory Sdp
  imports Sdp_Media
begin

text \<open>
  Whole session descriptions, \<open>src/protocol/sdp/sdp.cpp\<close>: the parser of the offer a browser sends and the
  printer of the answer.  The object is parsed into in place, so every function returns it together
  with the result code, also when the code is negative.
\<close>

record sdp =
  version :: u32
  sdp_origin :: origin
  sdp_session_name :: string
  timing :: "u64 \<times> u64"
  sdp_attrs :: "string list"
  session_info :: "string option"
  sdp_tool :: "string option"
  sdp_dir :: "u32 option"
  sdp_uri :: "string option"
  sdp_email :: "string option"
  sdp_phone :: "string option"
  conn_info :: "connection_info option"
  sdp_ice_ufrag :: "string option"
  sdp_ice_pwd :: "string option"
  bundle_attr :: "string list option"
  media_sdps :: "media_sdp list"

text \<open>\<open>origin_\<close> and the version are stored before they are read.\<close>

definition Sdp_default :: "u32 \<Rightarrow> origin \<Rightarrow> sdp" where
  "Sdp_default v org = \<lparr>version = v, sdp_origin = org, sdp_session_name = [], timing = (0, 0), sdp_attrs = [], session_info = None,
     sdp_tool = None, sdp_dir = None, sdp_uri = None, sdp_email = None, sdp_phone = None, conn_info = None,
     sdp_ice_ufrag = None, sdp_ice_pwd = None, bundle_attr = None, media_sdps = []\<rparr>"

section \<open>Parsing\<close>

text \<open>Store a parsed line, or return \<open>code\<close>.\<close>

definition take_line :: "int \<Rightarrow> 'a outcome \<Rightarrow> ('a \<Rightarrow> sdp) \<Rightarrow> sdp \<Rightarrow> (sdp \<times> int) outcome" where
  "take_line code r f s = (case r of Fault \<Rightarrow> Fault | Err _ \<Rightarrow> Ok (s, code) | Ok x \<Rightarrow> Ok (f x, 0))"

definition session_line :: "sdp_junk \<Rightarrow> string \<Rightarrow> sdp \<Rightarrow> (sdp \<times> int) outcome" where
  "session_line j line s =
     (if DirAttr_isMyPrefix line then Ok (s\<lparr>sdp_dir := Some (DirAttr_parse (j_dir j) line)\<rparr>, 0)
      else if starts_with line Uri_prefix then take_line (-10) (Uri_parse line) (\<lambda>x. s\<lparr>sdp_uri := Some x\<rparr>) s
      else if starts_with line EmailAddress_prefix then take_line (-11) (EmailAddress_parse line) (\<lambda>x. s\<lparr>sdp_email := Some x\<rparr>) s
      else if starts_with line Phone_prefix then take_line (-12) (Phone_parse line) (\<lambda>x. s\<lparr>sdp_phone := Some x\<rparr>) s
      else if starts_with line ConnectionInfo_prefix then take_line (-13) (ConnectionInfo_parse line) (\<lambda>x. s\<lparr>conn_info := Some x\<rparr>) s
      else if starts_with line SessionInformation_prefix then
        take_line (-9) (SessionInformation_parse line) (\<lambda>x. s\<lparr>session_info := Some x\<rparr>) s
      else if starts_with line Timing_prefix then take_line (-10) (Timing_parse line) (\<lambda>x. s\<lparr>timing := x\<rparr>) s
      else if starts_with line IceUfrag_prefix then take_line (-14) (IceUfrag_parse line) (\<lambda>x. s\<lparr>sdp_ice_ufrag := Some x\<rparr>) s
      else if starts_with line IcePwd_prefix then take_line (-15) (IcePwd_parse line) (\<lambda>x. s\<lparr>sdp_ice_pwd := Some x\<rparr>) s
      else Ok (s, 0))"

text \<open>The lines in front of the first \<open>m=\<close> line.  The index is not compared with the number of lines: without
  an \<open>m=\<close> line the loop runs out of the vector.  The value is the object, the code, and the lines from the
  first \<open>m=\<close> on.\<close>

fun session_lines :: "sdp_junk \<Rightarrow> string list \<Rightarrow> sdp \<Rightarrow> (sdp \<times> int \<times> string list) outcome" where
  "session_lines j [] s = Fault"
| "session_lines j (l # ls) s =
     (if starts_with l MediaSdp_prefix then Ok (s, 0, l # ls)
      else obind (session_line j l s) (\<lambda>(s, code).
        if code \<noteq> 0 then Ok (s, code, l # ls) else session_lines j ls s))"

definition flush :: "media_sdp option \<Rightarrow> sdp \<Rightarrow> sdp" where
  "flush cur s = (case cur of None \<Rightarrow> s | Some m \<Rightarrow> s\<lparr>media_sdps := media_sdps s @ [m]\<rparr>)"

text \<open>The lines from the first \<open>m=\<close> on, with the media description under construction.\<close>

fun media_lines :: "sdp_junk \<Rightarrow> string list \<Rightarrow> media_sdp option \<Rightarrow> sdp \<Rightarrow> (sdp \<times> int) outcome" where
  "media_lines j [] cur s = Ok (flush cur s, 0)"
| "media_lines j (l # ls) cur s =
     (if starts_with l MediaSdp_prefix then
        (case MediaSdp_parse j l of
           Fault \<Rightarrow> Fault
         | Err _ \<Rightarrow> Ok (flush cur s, -7)
         | Ok m \<Rightarrow> media_lines j ls (Some m) (flush cur s))
      else
        obind (case cur of
                 None \<Rightarrow> Ok (None, False)
               | Some m \<Rightarrow> obind (parseAttr j l m) (\<lambda>(m, ret). Ok (Some m, ret))) (\<lambda>(cur, ret).
          if \<not> ret \<and> starts_with l BundleAttr_prefix then
            (case BundleAttr_parse [] l of
               Fault \<Rightarrow> Fault
             | Err _ \<Rightarrow> Ok (s, -14)
             | Ok b \<Rightarrow> media_lines j ls cur (s\<lparr>bundle_attr := Some b\<rparr>))
          else media_lines j ls cur s))"

definition Sdp_parse :: "sdp_junk \<Rightarrow> string \<Rightarrow> sdp \<Rightarrow> (sdp \<times> int) outcome" where
  "Sdp_parse j text s =
     (let lines = split text [LF] in
      if length lines \<le> 3 then Ok (s, -1)
      else if \<not> starts_with (lines ! 0) ProtocolVersion_prefix then Ok (s, -1)
      else obind (take_line (-2) (ProtocolVersion_parse (lines ! 0)) (\<lambda>x. s\<lparr>version := x\<rparr>) s) (\<lambda>(s, code).
      if code \<noteq> 0 then Ok (s, code)
      else if \<not> starts_with (lines ! 1) Origin_prefix then Ok (s, -3)
      else obind (take_line (-4) (Origin_parse (lines ! 1)) (\<lambda>x. s\<lparr>sdp_origin := x\<rparr>) s) (\<lambda>(s, code).
      if code \<noteq> 0 then Ok (s, code)
      else if \<not> starts_with (lines ! 2) SessionName_prefix then Ok (s, -5)
      else obind (take_line (-6) (SessionName_parse (lines ! 2)) (\<lambda>x. s\<lparr>sdp_session_name := x\<rparr>) s) (\<lambda>(s, code).
      if code \<noteq> 0 then Ok (s, code)
      else obind (session_lines j (drop 3 lines) s) (\<lambda>(s, code, rest).
      if code \<noteq> 0 then Ok (s, code) else media_lines j rest None s)))))"

text \<open>The credentials of the session level, or else those of the first media description.\<close>

definition Sdp_getIceUfrag :: "sdp \<Rightarrow> string option" where
  "Sdp_getIceUfrag s =
     (case sdp_ice_ufrag s of
        Some u \<Rightarrow> Some u
      | None \<Rightarrow> (case media_sdps s of [] \<Rightarrow> None | m # _ \<Rightarrow> m_ice_ufrag m))"

definition Sdp_getIcePwd :: "sdp \<Rightarrow> string option" where
  "Sdp_getIcePwd s =
     (case sdp_ice_pwd s of
        Some u \<Rightarrow> Some u
      | None \<Rightarrow> (case media_sdps s of [] \<Rightarrow> None | m # _ \<Rightarrow> m_ice_pwd m))"

section \<open>Printing\<close>

definition Sdp_toString :: "hash_order \<Rightarrow> sdp \<Rightarrow> string outcome" where
  "Sdp_toString h s =
     obind (case bundle_attr s of None \<Rightarrow> Ok [] | Some b \<Rightarrow> BundleAttr_toString b) (\<lambda>bundle.
       Ok (ProtocolVersion_toString (version s) @ Origin_toString (sdp_origin s) @ SessionName_toString (sdp_session_name s)
         @ Timing_toString (timing s) @ or_empty SessionInformation_toString (session_info s) @ or_empty ToolAttr_toString (sdp_tool s)
         @ concat (map (\<lambda>a. ''a='' @ a @ [LF]) (sdp_attrs s))
         @ or_empty IceUfrag_toString (sdp_ice_ufrag s) @ or_empty IcePwd_toString (sdp_ice_pwd s)
         @ bundle @ concat (map (MediaSdp_toString h) (media_sdps s))))"

section \<open>Lemmas\<close>

text \<open>Parsing is line by line: lines that parse one after the other can be taken out of the front.\<close>

fun session_fold :: "sdp_junk \<Rightarrow> string list \<Rightarrow> sdp \<Rightarrow> sdp outcome" where
  "session_fold j [] s = Ok s"
| "session_fold j (l # ls) s = obind (session_line j l s) (\<lambda>(s, code). if code = 0 then session_fold j ls s else Err code)"

fun attr_fold :: "sdp_junk \<Rightarrow> string list \<Rightarrow> media_sdp \<Rightarrow> media_sdp outcome" where
  "attr_fold j [] m = Ok m"
| "attr_fold j (l # ls) m = obind (parseAttr j l m) (\<lambda>(m, _). attr_fold j ls m)"

lemma media_lines_attrs:
  assumes "\<forall>l \<in> set ls. \<not> starts_with l MediaSdp_prefix \<and> \<not> starts_with l BundleAttr_prefix" "attr_fold j ls m = Ok m'"
  shows "media_lines j (ls @ rest) (Some m) s = media_lines j rest (Some m') s"
  using assms
proof (induction ls arbitrary: m)
  case (Cons l ls)
  then obtain m1 r where "parseAttr j l m = Ok (m1, r)" "attr_fold j ls m1 = Ok m'"
    by (auto simp: obind_Ok_iff)
  then show ?case using Cons by simp
qed simp

lemma session_lines_fold:
  assumes "\<forall>l \<in> set ls. \<not> starts_with l MediaSdp_prefix" "session_fold j ls s = Ok s'"
  shows "session_lines j (ls @ rest) s = session_lines j rest s'"
  using assms
proof (induction ls arbitrary: s)
  case (Cons l ls)
  then obtain s1 where "session_line j l s = Ok (s1, 0)" "session_fold j ls s1 = Ok s'"
    by (auto simp: obind_Ok_iff split: if_splits)
  then show ?case using Cons by auto
qed simp

text \<open>A media section: its \<open>m=\<close> line, its attribute lines, and the description they give.\<close>

definition section_ok :: "sdp_junk \<Rightarrow> string \<times> string list \<Rightarrow> media_sdp \<Rightarrow> bool" where
  "section_ok j sec m \<longleftrightarrow> starts_with (fst sec) MediaSdp_prefix
     \<and> (\<forall>l \<in> set (snd sec). \<not> starts_with l MediaSdp_prefix \<and> \<not> starts_with l BundleAttr_prefix)
     \<and> obind (MediaSdp_parse j (fst sec)) (attr_fold j (snd sec)) = Ok m"

lemma media_lines_sections:
  assumes "list_all2 (section_ok j) secs ms"
  shows "media_lines j (concat (map (\<lambda>(l, ls). l # ls) secs)) cur s
    = Ok (s\<lparr>media_sdps := media_sdps s @ (case cur of None \<Rightarrow> [] | Some m \<Rightarrow> [m]) @ ms\<rparr>, 0)"
  using assms
proof (induction secs ms arbitrary: cur s rule: list_all2_induct)
  case Nil
  then show ?case by (auto simp: flush_def split: option.splits)
next
  case (Cons sec secs m ms)
  obtain l ls where sec: "sec = (l, ls)" by (cases sec)
  then obtain m0 where "starts_with l MediaSdp_prefix" "MediaSdp_parse j l = Ok m0" "attr_fold j ls m0 = Ok m"
    "\<forall>l \<in> set ls. \<not> starts_with l MediaSdp_prefix \<and> \<not> starts_with l BundleAttr_prefix"
    using Cons(1) by (auto simp: section_ok_def obind_Ok_iff)
  then show ?case using Cons(3) [of "Some m" "flush cur s"] media_lines_attrs [of ls j m0 m]
    by (auto simp: sec flush_def split: option.splits)
qed

text \<open>The lines of a text whose lines end in a line feed.\<close>

definition lf_lines :: "string list \<Rightarrow> string" where
  "lf_lines ls = concat (map (\<lambda>l. l @ [LF]) ls)"

lemma str_fields_lf_lines: "\<forall>l \<in> set ls. LF \<notin> set l \<Longrightarrow> str_fields [LF] (lf_lines ls) = ls @ [[]]"
proof (induction ls)
  case (Cons l ls)
  have "lf_lines (l # ls) = l @ LF # lf_lines ls" by (simp add: lf_lines_def)
  then have "str_fields [LF] (lf_lines (l # ls)) = (l @ hd (str_fields [LF] (LF # lf_lines ls))) # tl (str_fields [LF] (LF # lf_lines ls))"
    using str_fields_append [of l "[LF]" "LF # lf_lines ls"] Cons(2) by auto
  then show ?case using Cons by (simp split: list.splits)
qed (simp add: lf_lines_def)

lemma split_lf_lines: "\<forall>l \<in> set ls. LF \<notin> set l \<and> l \<noteq> [] \<Longrightarrow> split (lf_lines ls) [LF] = ls"
  by (simp add: split_fields str_fields_lf_lines)

lemma take_line_media:
  "take_line c r f s = Ok (s1, k) \<Longrightarrow> (\<And>x. media_sdps (f x) = media_sdps s) \<Longrightarrow> media_sdps s1 = media_sdps s"
  by (auto simp: take_line_def split: outcome.splits)

lemma session_line_media: "session_line j l s = Ok (s1, c) \<Longrightarrow> media_sdps s1 = media_sdps s"
  unfolding session_line_def by (simp split: if_splits; (erule take_line_media; simp)?; auto)

lemma session_lines_some_media:
  "session_lines j ls s = Ok (s', 0, rest) \<Longrightarrow> \<exists>l ls'. rest = l # ls' \<and> starts_with l MediaSdp_prefix \<and> media_sdps s' = media_sdps s"
proof (induction ls arbitrary: s)
  case (Cons l ls)
  show ?case
  proof (cases "starts_with l MediaSdp_prefix")
    case False
    with Cons(2) obtain s1 where "session_line j l s = Ok (s1, 0)" "session_lines j ls s1 = Ok (s', 0, rest)"
      by (auto simp: obind_Ok_iff split: if_splits)
    then show ?thesis using Cons(1) [of s1] session_line_media by fastforce
  qed (use Cons in auto)
qed simp

lemma media_lines_length:
  "media_lines j ls cur s = Ok (s', 0) \<Longrightarrow> length (media_sdps s) + (if cur = None then 0 else 1) \<le> length (media_sdps s')"
proof (induction ls arbitrary: cur s)
  case Nil
  then show ?case by (auto simp: flush_def)
next
  case (Cons l ls)
  show ?case
  proof (cases "starts_with l MediaSdp_prefix")
    case True
    with Cons(2) obtain m1 where "media_lines j ls (Some m1) (flush cur s) = Ok (s', 0)"
      by (simp split: outcome.splits)
    from Cons(1) [OF this] show ?thesis by (auto simp: flush_def split: option.splits)
  next
    case False
    with Cons(2) obtain cur' s1 where "media_lines j ls cur' s1 = Ok (s', 0)" "media_sdps s1 = media_sdps s" "cur' = None \<longleftrightarrow> cur = None"
      by (fastforce simp: obind_Ok_iff split: if_splits outcome.splits option.splits)
    then show ?thesis using Cons(1) [of cur' s1] by simp
  qed
qed

lemma session_lines_no_media:
  "\<forall>l \<in> set ls. \<not> starts_with l MediaSdp_prefix \<Longrightarrow> session_fold j ls s = Ok s' \<Longrightarrow> session_lines j ls s = Fault"
  using session_lines_fold [of ls j s s' "[]"] by simp

lemma Sdp_parse_lines:
  assumes "split text [LF] = vl # ol # sl # ss @ rest" "ss @ rest \<noteq> []"
    and "starts_with vl ProtocolVersion_prefix" "ProtocolVersion_parse vl = Ok v"
    and "starts_with ol Origin_prefix" "Origin_parse ol = Ok org"
    and "starts_with sl SessionName_prefix" "SessionName_parse sl = Ok name"
    and "\<forall>l \<in> set ss. \<not> starts_with l MediaSdp_prefix"
    and "session_fold j ss (s\<lparr>version := v, sdp_origin := org, sdp_session_name := name\<rparr>) = Ok s1"
  shows "Sdp_parse j text s = obind (session_lines j rest s1) (\<lambda>(s, code, rest).
      if code \<noteq> 0 then Ok (s, code) else media_lines j rest None s)"
proof -
  have "3 < length (split text [LF])" using assms(1,2) by (cases ss; cases rest) auto
  then show ?thesis
    using session_lines_fold [OF assms(9,10), of rest] assms(3-8) by (simp add: Sdp_parse_def take_line_def assms(1) Let_def eval_nat_numeral)
qed

lemma session_fold_media: "session_fold j ls s = Ok s' \<Longrightarrow> media_sdps s' = media_sdps s"
proof (induction ls arbitrary: s)
  case (Cons l ls)
  then obtain s1 where "session_line j l s = Ok (s1, 0)" "session_fold j ls s1 = Ok s'"
    by (auto simp: obind_Ok_iff split: if_splits)
  then show ?case using Cons(1) [of s1] session_line_media by fastforce
qed simp

definition section_lines :: "(string \<times> string list) list \<Rightarrow> string list" where
  "section_lines secs = concat (map (\<lambda>(l, ls). l # ls) secs)"

lemma Sdp_parse_sections:
  assumes "split text [LF] = vl # ol # sl # ss @ section_lines secs" "secs \<noteq> []"
    and "starts_with vl ProtocolVersion_prefix" "ProtocolVersion_parse vl = Ok v"
    and "starts_with ol Origin_prefix" "Origin_parse ol = Ok org"
    and "starts_with sl SessionName_prefix" "SessionName_parse sl = Ok name"
    and "\<forall>l \<in> set ss. \<not> starts_with l MediaSdp_prefix"
    and "session_fold j ss (s\<lparr>version := v, sdp_origin := org, sdp_session_name := name\<rparr>) = Ok s1"
    and "list_all2 (section_ok j) secs ms"
  shows "Sdp_parse j text s = Ok (s1\<lparr>media_sdps := media_sdps s @ ms\<rparr>, 0)"
proof -
  obtain l ls secs' where secs: "secs = (l, ls) # secs'" using assms(2) by (cases secs) auto
  then have m: "starts_with l MediaSdp_prefix" using assms(11) by (auto simp: list_all2_Cons1 section_ok_def)
  have "session_lines j (section_lines secs) s1 = Ok (s1, 0, section_lines secs)" by (simp add: section_lines_def secs m)
  moreover have "ss @ section_lines secs \<noteq> []" by (simp add: section_lines_def secs)
  ultimately show ?thesis
    using Sdp_parse_lines [OF assms(1) _ assms(3-10)] media_lines_sections [OF assms(11), of None s1] session_fold_media [OF assms(10)]
    by (simp add: section_lines_def)
qed

text \<open>An offer as a browser sends it, cut to one codec per section; \<open>d\<close> is the direction of the audio section.\<close>

definition with_cr :: "string list \<Rightarrow> string list" where
  "with_cr ls = map (\<lambda>l. l @ [CR]) ls"

definition offer_head :: "string list" where
  "offer_head = with_cr [''v=0'', ''o=- 7 2 IN IP4 127.0.0.1'', ''s=-'', ''t=0 0'']"

definition offer_audio :: "string \<Rightarrow> string \<times> string list" where
  "offer_audio d = (''m=audio 9 UDP/TLS/RTP/SAVPF 111'' @ [CR], with_cr
     [''a=ice-ufrag:Yx4z'', ''a=ice-pwd:secretsecret'', ''a=mid:0'', d, ''a=rtpmap:111 opus/48000/2''])"

definition offer_video :: "string \<times> string list" where
  "offer_video = (''m=video 9 UDP/TLS/RTP/SAVPF 96'' @ [CR], with_cr
     [''a=mid:1'', ''a=sendonly'', ''a=rtpmap:96 H264/90000'', ''a=rtcp-fb:96 nack pli'',
      ''a=fmtp:96 level-asymmetry-allowed=1;packetization-mode=1;profile-level-id=42001f''])"

definition offer_text :: "string \<Rightarrow> string" where
  "offer_text d = lf_lines (offer_head @ section_lines [offer_audio d, offer_video])"

definition junk0 :: sdp_junk where
  "junk0 = \<lparr>j_dir = 0, j_curr_pt = 0, j_payload_type = 0, j_clock_rate = 0, j_ssrc_id = 0, j_port_count = 0\<rparr>"

definition origin0 :: origin where
  "origin0 = \<lparr>username = [], session_id = 0, session_version = 0, nettype = [], addrtype = [], unicast_address = []\<rparr>"

text \<open>What its sections are parsed to.\<close>

definition audio_media :: "string \<Rightarrow> media_sdp" where
  "audio_media d = \<lparr>media = ''audio'', port = 9, port_count = 0, proto = ''UDP/TLS/RTP/SAVPF'', fmts = [111],
     m_ice_ufrag = Some ''Yx4z'', m_ice_pwd = Some ''secretsecret'', m_ice_option = None, candidates = [], rtcp_mux = False,
     payloads = [(111, Payload_new 111 ''opus'' 48000 [''2''])], fingerprint = ([], []), curr_pt = 111, dir = DirAttr_parse 0 d,
     setup_role = [], max_ptime = None, ext_maps = [], m_connection = None, mid = ''0'', m_ssrc_group = None, ssrcs = []\<rparr>"

definition video_media :: media_sdp where
  "video_media = \<lparr>media = ''video'', port = 9, port_count = 0, proto = ''UDP/TLS/RTP/SAVPF'', fmts = [96],
     m_ice_ufrag = None, m_ice_pwd = None, m_ice_option = None, candidates = [], rtcp_mux = False,
     payloads = [(96, \<lparr>payload_type = 96, encoding_name = ''H264'', clock_rate = 90000, encoding_params = [],
        rtcp_fbs = [\<lparr>fb_pt = 96, fb_val = ''nack'', fb_param = ''pli''\<rparr>],
        fmtps = [(96, \<lparr>fmtp_pt = 96, fmt_params = [(''level-asymmetry-allowed'', ''1''), (''packetization-mode'', ''1''),
          (''profile-level-id'', ''42001f'')]\<rparr>)]\<rparr>)],
     fingerprint = ([], []), curr_pt = 96, dir = MEDIA_SENDONLY, setup_role = [], max_ptime = None, ext_maps = [], m_connection = None,
     mid = ''1'', m_ssrc_group = None, ssrcs = []\<rparr>"

definition offer_origin :: origin where
  "offer_origin = \<lparr>username = ''-'', session_id = 7, session_version = 2,
     nettype = ''IN'', addrtype = ''IP4'', unicast_address = ''127.0.0.1''\<rparr>"

definition offer_session :: "sdp \<Rightarrow> sdp" where
  "offer_session s = s\<lparr>version := 0, sdp_origin := offer_origin, sdp_session_name := ''-'', timing := (0, 0)\<rparr>"

lemma offer_head_lines: "split (lf_lines offer_head) [LF] = offer_head ! 0 # offer_head ! 1 # offer_head ! 2 # [offer_head ! 3]"
  unfolding offer_head_def with_cr_def by (subst split_lf_lines) simp_all

lemma offer_text_lines:
  "LF \<notin> set d \<Longrightarrow> split (offer_text d) [LF] = offer_head ! 0 # offer_head ! 1 # offer_head ! 2 # [offer_head ! 3] @ section_lines [offer_audio d, offer_video]"
  unfolding offer_text_def offer_head_def offer_audio_def offer_video_def section_lines_def with_cr_def
  by (subst split_lf_lines) simp_all

lemma offer_sections:
  "d \<in> {''a=sendonly'', ''a=recvonly''} \<Longrightarrow> list_all2 (section_ok junk0) [offer_audio d, offer_video] [audio_media d, video_media]"
  by (elim insertE emptyE; simp only:; code_simp)

lemma offer_lines:
  "starts_with (offer_head ! 0) ProtocolVersion_prefix" "starts_with (offer_head ! 1) Origin_prefix"
  "starts_with (offer_head ! 2) SessionName_prefix"
  "ProtocolVersion_parse (offer_head ! 0) = Ok 0" "Origin_parse (offer_head ! 1) = Ok offer_origin"
  "SessionName_parse (offer_head ! 2) = Ok ''-''" "\<forall>l \<in> set [offer_head ! 3]. \<not> starts_with l MediaSdp_prefix"
  by code_simp+

lemma offer_session_lines:
  "session_fold junk0 [offer_head ! 3] (s\<lparr>version := 0, sdp_origin := offer_origin, sdp_session_name := ''-''\<rparr>) = Ok (offer_session s)"
proof -
  have "Timing_parse (offer_head ! 3) = Ok (0, 0)" "starts_with (offer_head ! 3) Timing_prefix" "\<not> DirAttr_isMyPrefix (offer_head ! 3)"
    "\<not> starts_with (offer_head ! 3) Uri_prefix" "\<not> starts_with (offer_head ! 3) EmailAddress_prefix"
    "\<not> starts_with (offer_head ! 3) Phone_prefix" "\<not> starts_with (offer_head ! 3) ConnectionInfo_prefix"
    "\<not> starts_with (offer_head ! 3) SessionInformation_prefix" by code_simp+
  then show ?thesis by (simp add: session_line_def take_line_def offer_session_def)
qed

lemma offer_text_parsed:
  assumes "d \<in> {''a=sendonly'', ''a=recvonly''}"
  shows "Sdp_parse junk0 (offer_text d) s
     = Ok ((offer_session s)\<lparr>media_sdps := media_sdps s @ [audio_media d, video_media]\<rparr>, 0)"
proof -
  have "LF \<notin> set d" using assms by auto
  then show ?thesis
    using Sdp_parse_sections [OF offer_text_lines _ offer_lines(1,4,2,5,3,6,7) offer_session_lines offer_sections [OF assms]]
    by simp
qed

text \<open>Claim C22: An offer is parsed section by section: version, origin and session name in that order, the
  session-level lines folded into the description, and behind them one media description per \<open>m=\<close> line, in
  order, made of that line and of the attribute lines up to the next one and of nothing else.  No
  section sees the attributes of another, and the code is 0.
\<close>

theorem offer_parsed_by_sections:
  assumes "split text [LF] = vl # ol # sl # ss @ section_lines secs" "secs \<noteq> []"
    and "starts_with vl ProtocolVersion_prefix" "ProtocolVersion_parse vl = Ok v"
    and "starts_with ol Origin_prefix" "Origin_parse ol = Ok org"
    and "starts_with sl SessionName_prefix" "SessionName_parse sl = Ok name"
    and "\<forall>l \<in> set ss. \<not> starts_with l MediaSdp_prefix"
    and "session_fold j ss (s\<lparr>version := v, sdp_origin := org, sdp_session_name := name\<rparr>) = Ok s1"
    and "list_all2 (section_ok j) secs ms"
  shows "Sdp_parse j text s = Ok (s1\<lparr>media_sdps := media_sdps s @ ms\<rparr>, 0)"
  using assms by (rule Sdp_parse_sections)

theorem offer_parsed_by_sections_witness:
  "Sdp_parse junk0 (offer_text ''a=sendonly'') (Sdp_default 0 origin0)
     = Ok ((offer_session (Sdp_default 0 origin0))\<lparr>media_sdps := [audio_media ''a=sendonly'', video_media]\<rparr>, 0)"
  using offer_parsed_by_sections [OF offer_text_lines _ offer_lines(1,4,2,5,3,6,7) offer_session_lines offer_sections,
      of "''a=sendonly''" "Sdp_default 0 origin0"]
  by (simp add: Sdp_default_def)

text \<open>A description without an \<open>m=\<close> line is not rejected: the loop over the session-level lines does not compare its
  index with the number of lines and reads behind the vector.
\<close>

theorem offer_without_media_faults:
  assumes "split text [LF] = vl # ol # sl # ss" "ss \<noteq> []"
    and "starts_with vl ProtocolVersion_prefix" "ProtocolVersion_parse vl = Ok v"
    and "starts_with ol Origin_prefix" "Origin_parse ol = Ok org"
    and "starts_with sl SessionName_prefix" "SessionName_parse sl = Ok name"
    and "\<forall>l \<in> set ss. \<not> starts_with l MediaSdp_prefix"
    and "session_fold j ss (s\<lparr>version := v, sdp_origin := org, sdp_session_name := name\<rparr>) = Ok s1"
  shows "Sdp_parse j text s = Fault"
  using Sdp_parse_lines [of "text" vl ol sl ss "[]" v org name j s s1] assms by simp

theorem offer_without_media_faults_witness: "Sdp_parse junk0 (lf_lines offer_head) (Sdp_default 0 origin0) = Fault"
  by (rule offer_without_media_faults [OF offer_head_lines _ offer_lines(1,4,2,5,3,6,7) offer_session_lines]) simp

lemma guarded_lineE:
  assumes "(if \<not> b then Ok (s0, e) else
      obind (take_line c r f s) (\<lambda>(s, code). if code \<noteq> 0 then Ok (s, code) else g s)) = Ok (s', 0)" "e \<noteq> 0" "c \<noteq> 0"
  obtains x where "r = Ok x" "g (f x) = Ok (s', 0)"
  using assms by (auto simp: take_line_def split: outcome.splits if_splits)

lemma Sdp_parse_OkE:
  assumes "Sdp_parse j text s = Ok (s', 0)"
  obtains s1 s2 rest where "media_sdps s1 = media_sdps s" "session_lines j (drop 3 (split text [LF])) s1 = Ok (s2, 0, rest)"
    "media_lines j rest None s2 = Ok (s', 0)"
proof -
  have long: "\<not> length (split text [LF]) \<le> 3" using assms by (auto simp: Sdp_parse_def)
  have "\<exists>s1. obind (session_lines j (drop 3 (split text [LF])) s1)
         (\<lambda>(s, code, rest). if code \<noteq> 0 then Ok (s, code) else media_lines j rest None s) = Ok (s', 0)
      \<and> media_sdps s1 = media_sdps s"
    using assms unfolding Sdp_parse_def Let_def if_not_P [OF long]
    by (elim guarded_lineE) (simp_all, (intro exI conjI, assumption, simp))
  then show thesis by (auto simp: obind_Ok_iff split: if_splits intro: that)
qed

text \<open>
  A description that is accepted has at least one media description more than before, so the caller may
  look at the first one.
\<close>

lemma parsed_offer_has_media:
  assumes "Sdp_parse j text s = Ok (s', 0)"
  shows "length (media_sdps s) < length (media_sdps s')"
proof -
  obtain s1 s2 rest where s1: "media_sdps s1 = media_sdps s" "session_lines j (drop 3 (split text [LF])) s1 = Ok (s2, 0, rest)"
      "media_lines j rest None s2 = Ok (s', 0)"
    using Sdp_parse_OkE [OF assms] by metis
  from session_lines_some_media [OF s1(2)] obtain l ls where l: "rest = l # ls" "starts_with l MediaSdp_prefix" by auto
  with s1(3) obtain m where "media_lines j ls (Some m) s2 = Ok (s', 0)" by (auto simp: flush_def split: outcome.splits)
  then show ?thesis using media_lines_length [of j ls "Some m" s2 s'] session_lines_some_media [OF s1(2)] s1(1) by auto
qed

end
