(* ===== verification/Webrtc_Signal.thy ===== *)
theory Webrtc_Signal
  imports Rtmp_Session Webrtc Sdp
begin

text \<open>
  The signalling side of a WebRTC session (\<open>src/server/webrtc/webrtc_session.cpp\<close>): the websocket message
  that carries a browser's offer, the answer built for it, and the registration of the session as a
  source or as a sink of the media manager.

  Outside the repository are jsoncpp, which is a data type of values and two arguments (the reader and
  the printer), the websocket library, whose \<open>send\<close> is an event of the result, and the random numbers,
  the certificate and the configuration, which are fields of \<open>signal_env\<close>.  Both descriptions are
  members of the session and live as long as it does.
\<close>

section \<open>Data\<close>

record signal_session = webrtc_session +
  signal_name :: string
  signal_id :: u64
  remote_sdp :: sdp
  local_sdp :: sdp

record signal_env =
  env_junk :: sdp_junk
  env_hash :: hash_order
  rand_session_id :: u64
  rand_origin_id :: u64
  cert_fingerprint :: string
  local_ip :: string
  webrtc_udp_port :: u16
  ws_domain :: string

datatype json = JNull | JString string | JObject "(string \<times> json) list" | JOther

datatype signal_event = SendText string | AddMediaSink nat

text \<open>A new session: the credentials are random strings, version and origin of both descriptions are not
  initialised.\<close>

definition signal_new :: "string \<Rightarrow> string \<Rightarrow> u32 \<Rightarrow> origin \<Rightarrow> signal_session" where
  "signal_new ufrag pwd v org = \<lparr>local_ice_ufrag = ufrag, local_ice_pwd = pwd, remote_ice_ufrag = [], remote_ice_pwd = [],
     audio_pt = 111, video_pt = 127, signal_name = [], signal_id = 0, remote_sdp = Sdp_default v org, local_sdp = Sdp_default v org\<rparr>"

section \<open>The answer\<close>

definition local_candidate :: "signal_env \<Rightarrow> candidate" where
  "local_candidate e = \<lparr>foundation = ''fund_common'', component_id = 1, transport = ''UDP'', priority = 2130706431,
     cand_address = local_ip e, cand_port = webrtc_udp_port e, cand_type = CAND_TYPE_HOST, rel_addr = [], rel_port = 0,
     exts = [(''generation'', ''0'')]\<rparr>"

text \<open>What the audio and the video branch have in common; \<open>pt\<close> is the payload type on the \<open>m=\<close> line.\<close>

definition local_media :: "signal_env \<Rightarrow> signal_session \<Rightarrow> string \<Rightarrow> byte \<Rightarrow> media_sdp \<Rightarrow> media_sdp" where
  "local_media e s kind pt remote =
     (let m = (MediaSdp_default (env_junk e))\<lparr>media := kind, port := 9, port_count := 1, proto := ''UDP/TLS/RTP/SAVPF'',
            fmts := [ucast pt], m_connection := Some (ConnectionInfo_new ''IN'' ''IP4'' ''0.0.0.0''),
            m_ice_ufrag := Some (local_ice_ufrag s), m_ice_pwd := Some (local_ice_pwd s),
            dir := MediaSdp_getReverseDir remote, setup_role := ''passive'', mid := mid remote, rtcp_mux := True,
            candidates := [local_candidate e], m_ssrc_group := m_ssrc_group remote\<rparr>;
          m = fold (\<lambda>(_, r). MediaSdp_addSsrc \<lparr>ssrc_id = ssrc_id r, cname = signal_name s, mslabel = signal_name s,
                              label = signal_name s @ ''_'' @ kind\<rparr>)
                (hm_iter (ord_u32 (env_hash e)) (ssrcs remote)) m in
      m\<lparr>fingerprint := (''sha-1'', cert_fingerprint e)\<rparr>)"

definition feedback :: "byte \<Rightarrow> string \<Rightarrow> string \<Rightarrow> rtcp_fb" where
  "feedback pt val param = \<lparr>fb_pt = ucast pt, fb_val = val, fb_param = param\<rparr>"

definition local_audio :: "signal_env \<Rightarrow> signal_session \<Rightarrow> media_sdp \<Rightarrow> media_sdp option" where
  "local_audio e s remote =
     (case MediaSdp_searchPayload (env_hash e) ''opus'' remote of
        None \<Rightarrow> None
      | Some rap \<Rightarrow>
          let pt = audio_pt s;
              p = Payload_new (ucast pt) (encoding_name rap) (clock_rate rap) (encoding_params rap);
              p = Payload_addRtcpFb (feedback pt ''nack'' []) p;
              p = Payload_addRtcpFb (feedback pt ''nack'' ''pli'') p in
          Some (MediaSdp_addPayload p (local_media e s ''audio'' pt remote)))"

definition wanted_fmtp :: "fmtp \<Rightarrow> bool" where
  "wanted_fmtp f \<longleftrightarrow> Fmtp_getParam ''packetization-mode'' f = ''1'' \<and> Fmtp_getParam ''level-asymmetry-allowed'' f = ''1''
     \<and> Fmtp_getParam ''profile-level-id'' f = ''42001f''"

definition wanted_payload :: "hash_order \<Rightarrow> payload \<Rightarrow> bool" where
  "wanted_payload h p \<longleftrightarrow> encoding_name p = ''H264'' \<and> list_ex (\<lambda>(_, f). wanted_fmtp f) (hm_iter (ord_u32 h) (fmtps p))"

text \<open>The loop over the payloads is not left at a match: the last one wins.\<close>

definition match_video_payload :: "hash_order \<Rightarrow> media_sdp \<Rightarrow> payload option" where
  "match_video_payload h remote =
     fold (\<lambda>(_, p) found. if wanted_payload h p then Some p else found) (hm_iter (ord_u32 h) (payloads remote)) None"

text \<open>The payload type of the match is stored in the session, behind the \<open>m=\<close> line that was made from the one
  stored before.\<close>

definition local_video :: "signal_env \<Rightarrow> signal_session \<Rightarrow> media_sdp \<Rightarrow> (media_sdp \<times> signal_session) option" where
  "local_video e s remote =
     (case match_video_payload (env_hash e) remote of
        None \<Rightarrow> None
      | Some mp \<Rightarrow>
          let m = local_media e s ''video'' (video_pt s) remote;
              pt = ucast (payload_type mp);
              p = Payload_new (ucast pt) (encoding_name mp) (clock_rate mp) (encoding_params mp);
              p = fold Payload_addRtcpFb [feedback pt ''ccm'' ''fir'', feedback pt ''goog-remb'' [], feedback pt ''nack'' [],
                    feedback pt ''nack'' ''pli'', feedback pt ''transport-cc'' []] p;
              p = fold (\<lambda>(_, f). Payload_addFmtp f) (hm_iter (ord_u32 (env_hash e)) (fmtps mp)) p in
          Some (MediaSdp_addPayload p m, s\<lparr>video_pt := pt\<rparr>))"

definition addMediaSdp :: "media_sdp \<Rightarrow> signal_session \<Rightarrow> signal_session" where
  "addMediaSdp m s = s\<lparr>local_sdp := (local_sdp s)\<lparr>media_sdps := media_sdps (local_sdp s) @ [m]\<rparr>\<rparr>"

fun answer_medias :: "signal_env \<Rightarrow> media_sdp list \<Rightarrow> signal_session \<Rightarrow> signal_session \<times> int" where
  "answer_medias e [] s = (s, 0)"
| "answer_medias e (r # rs) s =
     (if media r = ''audio'' then
        (case local_audio e s r of
           None \<Rightarrow> (s, -12)
         | Some m \<Rightarrow> answer_medias e rs (addMediaSdp m s))
      else if media r = ''video'' then
        (case local_video e s r of
           None \<Rightarrow> (s, -13)
         | Some (m, s) \<Rightarrow> answer_medias e rs (addMediaSdp m s))
      else answer_medias e rs s)"

definition is_av :: "media_sdp \<Rightarrow> bool" where
  "is_av m \<longleftrightarrow> media m = ''audio'' \<or> media m = ''video''"

text \<open>The head of the answer is written over the one there was; attributes and media descriptions are
  added to it.\<close>

definition answer_head :: "signal_env \<Rightarrow> signal_session \<Rightarrow> sdp" where
  "answer_head e s = (local_sdp s)\<lparr>version := 0,
     sdp_origin := \<lparr>username = ''-'', session_id = rand_origin_id e, session_version = 1, nettype = ''IN'', addrtype = ''IP4'',
                    unicast_address = ''127.0.0.1''\<rparr>,
     sdp_session_name := signal_name s, timing := (0, 0), sdp_tool := Some ''mms'',
     bundle_attr := Some (if 1 < length (media_sdps (remote_sdp s)) then map mid (filter is_av (media_sdps (remote_sdp s)))
                          else [''video'', ''audio'', ''data'']),
     sdp_attrs := sdp_attrs (local_sdp s) @ [''ice-lite'', ''msid-semantic: WMS '' @ signal_name s]\<rparr>"

definition createLocalSdp :: "signal_env \<Rightarrow> signal_session \<Rightarrow> signal_session \<times> int" where
  "createLocalSdp e s = answer_medias e (media_sdps (remote_sdp s)) (s\<lparr>local_sdp := answer_head e s\<rparr>)"

definition sendLocalSdp :: "(json \<Rightarrow> string) \<Rightarrow> signal_env \<Rightarrow> signal_session \<Rightarrow> signal_event outcome" where
  "sendLocalSdp styled e s =
     obind (Sdp_toString (env_hash e) (local_sdp s)) (\<lambda>text.
       Ok (SendText (styled (JObject [(''message'', JObject [(''sdp'', JString text), (''type'', JString ''answer'')])]))))"

definition processOfferMsg ::
  "(json \<Rightarrow> string) \<Rightarrow> signal_env \<Rightarrow> string \<Rightarrow> signal_session \<Rightarrow> (bool \<times> signal_session \<times> signal_event list) outcome" where
  "processOfferMsg styled e text s =
     (let s = s\<lparr>signal_id := rand_session_id e\<rparr> in
      obind (Sdp_parse (env_junk e) text (remote_sdp s)) (\<lambda>(r, ret).
        let s = s\<lparr>remote_sdp := r\<rparr> in
        if ret \<noteq> 0 then Ok (False, s, [])
        else case Sdp_getIceUfrag r of
          None \<Rightarrow> Ok (False, s, [])
        | Some ufrag \<Rightarrow>
            let s = s\<lparr>remote_ice_ufrag := ufrag\<rparr> in
            case Sdp_getIcePwd r of
              None \<Rightarrow> Ok (False, s, [])
            | Some pwd \<Rightarrow>
                let s = s\<lparr>remote_ice_pwd := pwd\<rparr> in
                case createLocalSdp e s of (s, code) \<Rightarrow>
                  if code \<noteq> 0 then Ok (False, s, [])
                  else obind (sendLocalSdp styled e s) (\<lambda>ev. Ok (True, s, [ev]))))"

section \<open>Messages\<close>

text \<open>\<open>isMember\<close> and the subscript of jsoncpp are for objects and null only; anything else is an error the code
  does not catch.\<close>

fun member :: "json \<Rightarrow> string \<Rightarrow> json option outcome" where
  "member JNull k = Ok None"
| "member (JObject kvs) k = Ok (map_of kvs k)"
| "member _ k = Fault"

fun as_string :: "json option \<Rightarrow> string option" where
  "as_string (Some (JString s)) = Some s"
| "as_string _ = None"

text \<open>The tail of \<open>onMessage\<close>: \<open>close\<close> does nothing, so a failed offer leaves the session as it is.\<close>

definition onOffer ::
  "(json \<Rightarrow> string) \<Rightarrow> signal_env \<Rightarrow> nat \<Rightarrow> string \<Rightarrow> signal_session \<Rightarrow> media_server
     \<Rightarrow> (signal_session \<times> media_server \<times> signal_event list) outcome" where
  "onOffer styled e sid text s srv =
     obind (processOfferMsg styled e text s) (\<lambda>(ok, s, evs).
       if \<not> ok then Ok (s, srv, evs)
       else obind (vec_at (media_sdps (remote_sdp s)) 0) (\<lambda>m.
         if dir m = MEDIA_SENDONLY \<or> dir m = MEDIA_SENDRECV then Ok (s, snd (addSource (signal_name s) sid srv), evs)
         else if dir m = MEDIA_RECVONLY then
           (case getSource (signal_name s) srv of
              None \<Rightarrow> Ok (s, srv, evs)
            | Some p \<Rightarrow> Ok (s, srv, evs @ [AddMediaSink p]))
         else Ok (s, srv, evs)))"

definition onMessage ::
  "(string \<Rightarrow> json option) \<Rightarrow> (json \<Rightarrow> string) \<Rightarrow> signal_env \<Rightarrow> nat \<Rightarrow> bool \<Rightarrow> string \<Rightarrow> signal_session \<Rightarrow> media_server
     \<Rightarrow> (signal_session \<times> media_server \<times> signal_event list) outcome" where
  "onMessage reader styled e sid is_text payload_text s srv =
     (if \<not> is_text then Ok (s, srv, [])
      else case reader payload_text of
        None \<Rightarrow> Ok (s, srv, [])
      | Some root \<Rightarrow>
          obind (member root ''app'') (\<lambda>av. (case as_string av of None \<Rightarrow> Ok (s, srv, []) | Some an \<Rightarrow>
          obind (member root ''stream'') (\<lambda>stream. (case as_string stream of None \<Rightarrow> Ok (s, srv, []) | Some stream \<Rightarrow>
          obind (member root ''message'') (\<lambda>msg. (case msg of Some (JObject msg) \<Rightarrow>
            (case as_string (map_of msg ''type'') of None \<Rightarrow> Ok (s, srv, []) | Some ty \<Rightarrow>
             if ty \<noteq> ''offer'' then Ok (s, srv, [])
             else (case as_string (map_of msg ''sdp'') of None \<Rightarrow> Ok (s, srv, []) | Some text \<Rightarrow>
               onOffer styled e sid text (s\<lparr>signal_name := ws_domain e @ ''/'' @ an @ ''/'' @ stream\<rparr>) srv))
            | _ \<Rightarrow> Ok (s, srv, []))))))))"

section \<open>Lemmas\<close>

lemma fold_addSsrc_keeps:
  "media (fold (\<lambda>(_, r). MediaSdp_addSsrc (f r)) rs m) = media m" "mid (fold (\<lambda>(_, r). MediaSdp_addSsrc (f r)) rs m) = mid m"
  "dir (fold (\<lambda>(_, r). MediaSdp_addSsrc (f r)) rs m) = dir m" "setup_role (fold (\<lambda>(_, r). MediaSdp_addSsrc (f r)) rs m) = setup_role m"
  "m_ice_ufrag (fold (\<lambda>(_, r). MediaSdp_addSsrc (f r)) rs m) = m_ice_ufrag m"
  "m_ice_pwd (fold (\<lambda>(_, r). MediaSdp_addSsrc (f r)) rs m) = m_ice_pwd m"
  "rtcp_mux (fold (\<lambda>(_, r). MediaSdp_addSsrc (f r)) rs m) = rtcp_mux m"
  "candidates (fold (\<lambda>(_, r). MediaSdp_addSsrc (f r)) rs m) = candidates m"
  "payloads (fold (\<lambda>(_, r). MediaSdp_addSsrc (f r)) rs m) = payloads m" "fmts (fold (\<lambda>(_, r). MediaSdp_addSsrc (f r)) rs m) = fmts m"
  by (induction rs arbitrary: m) (auto simp: MediaSdp_addSsrc_def)

lemma local_media_simps [simp]:
  "media (local_media e s k pt r) = k" "mid (local_media e s k pt r) = mid r" "dir (local_media e s k pt r) = MediaSdp_getReverseDir r"
  "setup_role (local_media e s k pt r) = ''passive''" "m_ice_ufrag (local_media e s k pt r) = Some (local_ice_ufrag s)"
  "m_ice_pwd (local_media e s k pt r) = Some (local_ice_pwd s)" "rtcp_mux (local_media e s k pt r)"
  "candidates (local_media e s k pt r) = [local_candidate e]" "payloads (local_media e s k pt r) = []"
  "fmts (local_media e s k pt r) = [ucast pt]" "fingerprint (local_media e s k pt r) = (''sha-1'', cert_fingerprint e)"
  by (simp_all add: local_media_def Let_def fold_addSsrc_keeps MediaSdp_default_def)

text \<open>The payload types of a section in the order in which the code looks at them.\<close>

definition offered :: "hash_order \<Rightarrow> media_sdp \<Rightarrow> payload list" where
  "offered h r = map snd (hm_iter (ord_u32 h) (payloads r))"

definition suits :: "hash_order \<Rightarrow> media_sdp \<Rightarrow> payload \<Rightarrow> bool" where
  "suits h r q \<longleftrightarrow> (if media r = ''audio'' then encoding_name q = ''opus'' else wanted_payload h q)"

text \<open>What an answer section owes to the section of the offer.\<close>

definition answers :: "signal_env \<Rightarrow> signal_session \<Rightarrow> media_sdp \<Rightarrow> media_sdp \<Rightarrow> bool" where
  "answers e s r m \<longleftrightarrow> media m = media r \<and> mid m = mid r \<and> dir m = MediaSdp_getReverseDir r \<and> setup_role m = ''passive''
     \<and> m_ice_ufrag m = Some (local_ice_ufrag s) \<and> m_ice_pwd m = Some (local_ice_pwd s)
     \<and> fingerprint m = (''sha-1'', cert_fingerprint e) \<and> rtcp_mux m \<and> candidates m = [local_candidate e]
     \<and> (\<exists>q \<in> set (offered (env_hash e) r). suits (env_hash e) r q
          \<and> (\<exists>p. payloads m = [(payload_type p, p)] \<and> encoding_name p = encoding_name q \<and> clock_rate p = clock_rate q
               \<and> encoding_params p = encoding_params q
               \<and> payload_type p = (if media r = ''audio'' then ucast (audio_pt s) else ucast (ucast (payload_type q) :: byte))))"

lemma answers_cong: "local_ice_ufrag s = local_ice_ufrag s' \<Longrightarrow> local_ice_pwd s = local_ice_pwd s' \<Longrightarrow> audio_pt s = audio_pt s'
    \<Longrightarrow> answers e s = answers e s'"
  by (simp add: answers_def fun_eq_iff)

lemma match_fold:
  "fold (\<lambda>(_, p) found. if P p then Some p else found) xs acc
     = (case filter P (map snd xs) of [] \<Rightarrow> acc | ps \<Rightarrow> Some (last ps))"
  by (induction xs arbitrary: acc) (auto split: list.splits)

lemma match_video_payload_eq:
  "match_video_payload h r = (case filter (wanted_payload h) (offered h r) of [] \<Rightarrow> None | ps \<Rightarrow> Some (last ps))"
  by (simp add: match_video_payload_def match_fold offered_def)

lemma fold_addFmtp_keeps:
  "payload_type (fold (\<lambda>(_, f). Payload_addFmtp f) fs p) = payload_type p"
  "encoding_name (fold (\<lambda>(_, f). Payload_addFmtp f) fs p) = encoding_name p"
  "clock_rate (fold (\<lambda>(_, f). Payload_addFmtp f) fs p) = clock_rate p"
  "encoding_params (fold (\<lambda>(_, f). Payload_addFmtp f) fs p) = encoding_params p"
  by (induction fs arbitrary: p) (auto simp: Payload_addFmtp_def)

lemma local_audio_cases:
  assumes "media r = ''audio''"
  shows "(local_audio e s r = None \<longleftrightarrow> (\<forall>q \<in> set (offered (env_hash e) r). \<not> suits (env_hash e) r q))
    \<and> (\<forall>m. local_audio e s r = Some m \<longrightarrow> answers e s r m)"
  using assms
  by (auto simp: local_audio_def MediaSdp_searchPayload_def offered_def [symmetric] suits_def find_None_iff find_Some_iff answers_def
      Let_def MediaSdp_addPayload_def hm_insert_def Payload_new_def Payload_addRtcpFb_def intro!: nth_mem split: option.splits)

lemma last_of_nonempty: "(case xs of [] \<Rightarrow> None | ps \<Rightarrow> Some (last ps)) = Some q \<Longrightarrow> q \<in> set xs"
  using last_in_set [of xs] by (auto split: list.splits)

lemma local_video_cases:
  assumes "media r = ''video''"
  shows "(local_video e s r = None \<longleftrightarrow> (\<forall>q \<in> set (offered (env_hash e) r). \<not> suits (env_hash e) r q))
    \<and> (\<forall>m s'. local_video e s r = Some (m, s') \<longrightarrow> answers e s r m \<and> fmts m = [ucast (video_pt s)] \<and> (\<exists>pt. s' = s\<lparr>video_pt := pt\<rparr>))"
proof (cases "match_video_payload (env_hash e) r")
  case None
  then show ?thesis using assms
    by (auto simp: local_video_def match_video_payload_eq suits_def filter_empty_conv split: list.splits)
next
  case (Some q)
  then have "q \<in> set (filter (wanted_payload (env_hash e)) (offered (env_hash e) r))"
    unfolding match_video_payload_eq by (rule last_of_nonempty)
  then have q: "q \<in> set (offered (env_hash e) r)" "suits (env_hash e) r q" using assms by (auto simp: suits_def)
  then show ?thesis using assms Some
    by (auto simp: local_video_def Let_def answers_def MediaSdp_addPayload_def hm_insert_def Payload_new_def Payload_addRtcpFb_def
        fold_addFmtp_keeps intro!: bexI [of _ q])
qed

lemma addMediaSdp_simps [simp]:
  "local_ice_ufrag (addMediaSdp m s) = local_ice_ufrag s" "local_ice_pwd (addMediaSdp m s) = local_ice_pwd s"
  "audio_pt (addMediaSdp m s) = audio_pt s" "remote_sdp (addMediaSdp m s) = remote_sdp s" "video_pt (addMediaSdp m s) = video_pt s"
  "remote_ice_ufrag (addMediaSdp m s) = remote_ice_ufrag s" "remote_ice_pwd (addMediaSdp m s) = remote_ice_pwd s"
  "signal_name (addMediaSdp m s) = signal_name s"
  "media_sdps (local_sdp (addMediaSdp m s)) = media_sdps (local_sdp s) @ [m]"
  "bundle_attr (local_sdp (addMediaSdp m s)) = bundle_attr (local_sdp s)"
  by (simp_all add: addMediaSdp_def)

lemma answer_medias_keeps:
  "answer_medias e rs s = (s', code) \<Longrightarrow> local_ice_ufrag s' = local_ice_ufrag s \<and> local_ice_pwd s' = local_ice_pwd s
    \<and> remote_sdp s' = remote_sdp s \<and> remote_ice_ufrag s' = remote_ice_ufrag s \<and> remote_ice_pwd s' = remote_ice_pwd s
    \<and> signal_name s' = signal_name s \<and> bundle_attr (local_sdp s') = bundle_attr (local_sdp s)"
proof (induction rs arbitrary: s)
  case (Cons r rs)
  show ?case using Cons.prems Cons.IH local_video_cases [of r e s]
    by (fastforce split: if_splits option.splits prod.splits)
qed simp

lemma answer_medias_answers:
  assumes "answer_medias e rs s = (s', code)"
  shows "(code = 0 \<longleftrightarrow> (\<forall>r \<in> set (filter is_av rs). \<exists>q \<in> set (offered (env_hash e) r). suits (env_hash e) r q))
    \<and> (code = 0 \<longrightarrow> (\<exists>ms. media_sdps (local_sdp s') = media_sdps (local_sdp s) @ ms \<and> list_all2 (answers e s) (filter is_av rs) ms))"
  using assms
proof (induction rs arbitrary: s)
  case (Cons r rs)
  have step: ?case if m: "answer_medias e rs (addMediaSdp m s1) = (s', code)" "answers e s r m" "is_av r"
      "\<exists>q \<in> set (offered (env_hash e) r). suits (env_hash e) r q" "answers e s1 = answers e s" "local_sdp s1 = local_sdp s" for m s1
  proof -
    have "answers e (addMediaSdp m s1) = answers e s" using m(5) answers_cong [of "addMediaSdp m s1" s1] by simp
    then show ?thesis using Cons.IH [OF m(1)] m(2-4,6) by (auto simp: list_all2_Cons1)
  qed
  consider "media r = ''audio''" | "media r = ''video''" | "\<not> is_av r" by (auto simp: is_av_def)
  then show ?case
  proof cases
    case 1
    then show ?thesis using Cons.prems local_audio_cases [OF 1, of e s] step
      by (cases "local_audio e s r") (auto simp: is_av_def)
  next
    case 2
    note video = local_video_cases [OF 2, of e s]
    show ?thesis
    proof (cases "local_video e s r")
      case None
      then show ?thesis using 2 Cons.prems video by (auto simp: is_av_def)
    next
      case (Some ms)
      then obtain m pt where ms: "ms = (m, s\<lparr>video_pt := pt\<rparr>)" using video by (cases ms) blast
      show ?thesis
      proof (rule step [of m "s\<lparr>video_pt := pt\<rparr>"])
        show "answers e (s\<lparr>video_pt := pt\<rparr>) = answers e s" by (rule answers_cong) simp_all
      qed (use Some ms 2 Cons.prems video in \<open>auto simp: is_av_def\<close>)
    qed
  next
    case 3
    then show ?thesis using Cons.prems Cons.IH [of s] by (auto simp: is_av_def)
  qed
qed simp

lemma createLocalSdp_keeps:
  assumes "createLocalSdp e s = (s', code)"
  shows "local_ice_ufrag s' = local_ice_ufrag s" "local_ice_pwd s' = local_ice_pwd s" "remote_sdp s' = remote_sdp s"
    "remote_ice_ufrag s' = remote_ice_ufrag s" "remote_ice_pwd s' = remote_ice_pwd s" "signal_name s' = signal_name s"
    "bundle_attr (local_sdp s') = bundle_attr (answer_head e s)"
  using answer_medias_keeps [OF assms [unfolded createLocalSdp_def]] by simp_all

lemma createLocalSdp_answers:
  assumes "createLocalSdp e s = (s', code)"
  shows "code = 0 \<longleftrightarrow> (\<forall>r \<in> set (filter is_av (media_sdps (remote_sdp s))). \<exists>q \<in> set (offered (env_hash e) r). suits (env_hash e) r q)"
    and "code = 0 \<Longrightarrow> \<exists>ms. media_sdps (local_sdp s') = media_sdps (local_sdp s) @ ms
      \<and> list_all2 (answers e s) (filter is_av (media_sdps (remote_sdp s))) ms"
proof -
  have "answers e (s\<lparr>local_sdp := answer_head e s\<rparr>) = answers e s" by (rule answers_cong) simp_all
  moreover have "media_sdps (answer_head e s) = media_sdps (local_sdp s)" by (simp add: answer_head_def)
  ultimately show "code = 0 \<longleftrightarrow> (\<forall>r \<in> set (filter is_av (media_sdps (remote_sdp s))). \<exists>q \<in> set (offered (env_hash e) r). suits (env_hash e) r q)"
    and "code = 0 \<Longrightarrow> \<exists>ms. media_sdps (local_sdp s') = media_sdps (local_sdp s) @ ms
      \<and> list_all2 (answers e s) (filter is_av (media_sdps (remote_sdp s))) ms"
    using answer_medias_answers [OF assms [unfolded createLocalSdp_def]] by simp_all
qed

lemma answer_medias_code: "snd (answer_medias e rs s) \<in> {0, -12, -13}"
  by (induction e rs s rule: answer_medias.induct) (auto split: option.splits prod.splits)

lemma processOfferMsg_trueE:
  assumes "processOfferMsg styled e text s = Ok (True, s', evs)"
  obtains r u p reply where "Sdp_parse (env_junk e) text (remote_sdp s) = Ok (r, 0)" "Sdp_getIceUfrag r = Some u" "Sdp_getIcePwd r = Some p"
    "createLocalSdp e (s\<lparr>signal_id := rand_session_id e, remote_sdp := r, remote_ice_ufrag := u, remote_ice_pwd := p\<rparr>) = (s', 0)"
    "Sdp_toString (env_hash e) (local_sdp s') = Ok reply"
    "evs = [SendText (styled (JObject [(''message'', JObject [(''sdp'', JString reply), (''type'', JString ''answer'')])]))]"
  using assms unfolding processOfferMsg_def Let_def
  by (auto simp: obind_Ok_iff sendLocalSdp_def split: if_splits option.splits prod.splits)

lemma media_lines_appends: "media_lines j ls cur s = Ok (s', c) \<Longrightarrow> \<exists>new. media_sdps s' = media_sdps s @ new"
proof (induction ls arbitrary: cur s)
  case (Cons l ls)
  show ?case
  proof (cases "starts_with l MediaSdp_prefix")
    case True
    with Cons.prems consider m where "media_lines j ls (Some m) (flush cur s) = Ok (s', c)" | "s' = flush cur s"
      by (auto split: outcome.splits)
    then show ?thesis using Cons.IH [of _ "flush cur s"] by cases (fastforce simp: flush_def split: option.splits)+
  next
    case False
    with Cons.prems consider cur' s1 where "media_lines j ls cur' s1 = Ok (s', c)" "media_sdps s1 = media_sdps s" | "s' = s"
      by (fastforce simp: obind_Ok_iff split: if_splits outcome.splits option.splits)
    then show ?thesis using Cons.IH by cases (metis, simp)
  qed
qed (auto simp: flush_def split: option.splits)

lemma Sdp_parse_appends: "Sdp_parse j text s = Ok (s', 0) \<Longrightarrow> \<exists>new. media_sdps s' = media_sdps s @ new"
  by (metis Sdp_parse_OkE media_lines_appends session_lines_some_media)

lemma ucast_byte_u32: "ucast (ucast (b :: byte) :: u32) = b"
  by (simp add: ucast_up_ucast_id is_up)

lemma Sdp_toString_group:
  assumes "bundle_attr s = Some b" "BundleAttr_toString b = Ok line"
  shows "\<exists>pre post. Sdp_toString h s = Ok (pre @ line @ post)"
  unfolding Sdp_toString_def assms option.case obind.simps outcome.inject
  by (simp only: append_assoc [symmetric]) (intro exI, rule refl)

section \<open>Properties\<close>

text \<open>Claim C11: The answer mirrors the offer: it is complete exactly if every audio section offers opus and every video
  section an H.264 payload with the parameters the server wants, and then it has one section per audio
  or video section of the offer, in their order, with the same kind and identifier, the opposite
  direction, the passive DTLS role, the session's own ICE credentials, the fingerprint of its
  certificate, one host candidate, and one payload type with the codec, clock rate and parameters of
  one that was offered.
\<close>

theorem answer_mirrors_offer:
  assumes "createLocalSdp e s = (s', code)"
  shows "code \<in> {0, -12, -13}
    \<and> (code = 0 \<longleftrightarrow> (\<forall>r \<in> set (filter is_av (media_sdps (remote_sdp s))). \<exists>q \<in> set (offered (env_hash e) r). suits (env_hash e) r q))
    \<and> (code = 0 \<longrightarrow> (\<exists>ms. media_sdps (local_sdp s') = media_sdps (local_sdp s) @ ms
         \<and> list_all2 (answers e s) (filter is_av (media_sdps (remote_sdp s))) ms))"
  using createLocalSdp_answers [OF assms] answer_medias_code [of e "media_sdps (remote_sdp s)" "s\<lparr>local_sdp := answer_head e s\<rparr>"] assms
  by (simp add: createLocalSdp_def)

text \<open>Claim C12: Signalling arms the ICE check: when an offer is accepted the session holds the user fragment and the
  password of the description it parsed, keeps its own, sends exactly one message, the printed answer,
  and from then on rejects every binding request whose remote name is not the offered fragment.
\<close>

theorem offer_arms_ice_check:
  assumes "processOfferMsg styled e text s = Ok (True, s', evs)"
  shows "Sdp_parse (env_junk e) text (remote_sdp s) = Ok (remote_sdp s', 0)
    \<and> Sdp_getIceUfrag (remote_sdp s') = Some (remote_ice_ufrag s') \<and> Sdp_getIcePwd (remote_sdp s') = Some (remote_ice_pwd s')
    \<and> local_ice_ufrag s' = local_ice_ufrag s \<and> local_ice_pwd s' = local_ice_pwd s
    \<and> (\<exists>reply. Sdp_toString (env_hash e) (local_sdp s') = Ok reply
         \<and> evs = [SendText (styled (JObject [(''message'', JObject [(''sdp'', JString reply), (''type'', JString ''answer'')])]))])
    \<and> (\<forall>hmac junk heap m ep l r. username_attr m = Some (l, r) \<and> r \<noteq> remote_ice_ufrag s' \<longrightarrow>
         processStunBindingReq hmac junk heap (webrtc_session.truncate s') m ep = Ok None)"
proof -
  obtain r u p reply where o: "Sdp_parse (env_junk e) text (remote_sdp s) = Ok (r, 0)" "Sdp_getIceUfrag r = Some u" "Sdp_getIcePwd r = Some p"
    "createLocalSdp e (s\<lparr>signal_id := rand_session_id e, remote_sdp := r, remote_ice_ufrag := u, remote_ice_pwd := p\<rparr>) = (s', 0)"
    "Sdp_toString (env_hash e) (local_sdp s') = Ok reply"
    "evs = [SendText (styled (JObject [(''message'', JObject [(''sdp'', JString reply), (''type'', JString ''answer'')])]))]"
    using processOfferMsg_trueE [OF assms] by metis
  have "remote_ice_ufrag (webrtc_session.truncate s') = remote_ice_ufrag s'" by (simp add: webrtc_session.defs)
  then show ?thesis using o createLocalSdp_keeps [OF o(4)] by (auto simp: processStunBindingReq_def Let_def)
qed

text \<open>Nothing of an earlier offer is forgotten: after a second accepted offer the session still checks the user
  fragment of the first media section it ever saw, and the new answer repeats the sections of the
  old answer and answers those of the old offer once more.
\<close>

theorem renegotiation_repeats_first_offer:
  assumes "media_sdps (remote_sdp s) = m # ms" "m_ice_ufrag m = Some u"
    and "processOfferMsg styled e text s = Ok (True, s', evs)" "sdp_ice_ufrag (remote_sdp s') = None"
  shows "remote_ice_ufrag s' = u
    \<and> (\<exists>again new. media_sdps (local_sdp s') = media_sdps (local_sdp s) @ again @ new \<and> list_all2 (answers e s) (filter is_av (m # ms)) again)"
proof -
  obtain r u' p where o: "Sdp_parse (env_junk e) text (remote_sdp s) = Ok (r, 0)" "Sdp_getIceUfrag r = Some u'"
    "createLocalSdp e (s\<lparr>signal_id := rand_session_id e, remote_sdp := r, remote_ice_ufrag := u', remote_ice_pwd := p\<rparr>) = (s', 0)"
    using processOfferMsg_trueE [OF assms(3)] by metis
  let ?s = "s\<lparr>signal_id := rand_session_id e, remote_sdp := r, remote_ice_ufrag := u', remote_ice_pwd := p\<rparr>"
  obtain new where r: "media_sdps r = (m # ms) @ new" using Sdp_parse_appends [OF o(1)] assms(1) by auto
  have "answers e ?s = answers e s" by (rule answers_cong) simp_all
  then obtain as where as: "media_sdps (local_sdp s') = media_sdps (local_sdp s) @ as"
      "list_all2 (answers e s) (filter is_av (m # ms) @ filter is_av new) as"
    using createLocalSdp_answers(2) [OF o(3)] by (auto simp: r filter_append [of is_av "m # ms", simplified append_Cons] simp del: filter.simps)
  then obtain again rest where "as = again @ rest" "list_all2 (answers e s) (filter is_av (m # ms)) again"
    by (auto simp: list_all2_append1)
  moreover have "u' = u" using o(2) r assms(2,4) createLocalSdp_keeps(3) [OF o(3)] by (simp add: Sdp_getIceUfrag_def)
  ultimately show ?thesis using as createLocalSdp_keeps(4) [OF o(3)] by auto
qed

text \<open>The answer to a video section names the wrong format: its \<open>m=\<close> line carries the payload type the session held
  before (127 in a new session), while the \<open>rtpmap\<close> line and the receiver use the one that was
  offered.
\<close>

theorem answer_video_format_is_stale:
  assumes "createLocalSdp e s = (s', 0)" "media_sdps (remote_sdp s) = [r]" "media r = ''video''" "media_sdps (local_sdp s) = []"
    and "\<forall>q \<in> set (offered (env_hash e) r). suits (env_hash e) r q \<longrightarrow> payload_type q = ucast (pt :: byte)"
  shows "\<exists>m. media_sdps (local_sdp s') = [m] \<and> fmts m = [ucast (video_pt s)] \<and> map fst (payloads m) = [ucast pt]"
proof -
  let ?s = "s\<lparr>local_sdp := answer_head e s\<rparr>"
  obtain m s1 where m: "local_video e ?s r = Some (m, s1)" "s' = addMediaSdp m s1"
    using assms(1-3) by (auto simp: createLocalSdp_def split: option.splits)
  note v = local_video_cases [OF assms(3), of e ?s]
  obtain pt' where s1: "s1 = ?s\<lparr>video_pt := pt'\<rparr>" using v m(1) by blast
  have "media_sdps (local_sdp s') = [m]" using m(2) s1 assms(4) by (simp add: answer_head_def)
  moreover have "fmts m = [ucast (video_pt s)]" using v m(1) by auto
  moreover have "map fst (payloads m) = [ucast pt]"
  proof -
    have "answers e ?s r m" using v m(1) by auto
    then obtain q p where q: "q \<in> set (offered (env_hash e) r)" "suits (env_hash e) r q" "payloads m = [(payload_type p, p)]"
        "payload_type p = ucast (ucast (payload_type q) :: byte)"
      unfolding answers_def assms(3) by auto
    have "payload_type q = ucast pt" using assms(5) q(1,2) by blast
    then show ?thesis by (simp only: q(3,4) ucast_byte_u32 list.map fst_conv)
  qed
  ultimately show ?thesis by (intro exI [of _ m] conjI)
qed

text \<open>
  The group line breaks on offers that are not one audio and one video section: with several sections of
  which fewer than two are audio or video the printer reads outside the list of identifiers, and an
  offer with a single section is answered with the identifiers \<open>video\<close> and \<open>audio\<close> whatever its own
  is.
\<close>

theorem answer_group_line:
  assumes "createLocalSdp e s = (s', 0)"
  shows "(1 < length (media_sdps (remote_sdp s)) \<and> length (filter is_av (media_sdps (remote_sdp s))) < 2
      \<longrightarrow> sendLocalSdp styled e s' = Fault)
    \<and> (length (media_sdps (remote_sdp s)) = 1
      \<longrightarrow> (\<exists>pre post. Sdp_toString (env_hash e) (local_sdp s') = Ok (pre @ ''a=group:BUNDLE video audio'' @ [LF] @ post)))"
proof -
  note b = createLocalSdp_keeps(7) [OF assms]
  have "sendLocalSdp styled e s' = Fault"
    if "1 < length (media_sdps (remote_sdp s))" "length (filter is_av (media_sdps (remote_sdp s))) < 2"
    using that b by (auto simp: answer_head_def sendLocalSdp_def Sdp_toString_def BundleAttr_toString_def vec_at_def)
  moreover have "BundleAttr_toString [''video'', ''audio'', ''data''] = Ok (''a=group:BUNDLE video audio'' @ [LF])" by code_simp
  then have "\<exists>pre post. Sdp_toString (env_hash e) (local_sdp s') = Ok (pre @ (''a=group:BUNDLE video audio'' @ [LF]) @ post)"
    if "length (media_sdps (remote_sdp s)) = 1"
    using that b by (intro Sdp_toString_group) (simp_all add: answer_head_def)
  ultimately show ?thesis by (simp only: append_assoc) blast
qed
text \<open>A text message that carries an offer for a stream of an application.\<close>

definition offer_message :: "(string \<Rightarrow> json option) \<Rightarrow> string \<Rightarrow> string \<Rightarrow> string \<Rightarrow> string \<Rightarrow> bool" where
  "offer_message reader payload_text an stream sdp_text \<longleftrightarrow>
     (\<exists>kvs msg. reader payload_text = Some (JObject kvs) \<and> map_of kvs ''app'' = Some (JString an)
        \<and> map_of kvs ''stream'' = Some (JString stream) \<and> map_of kvs ''message'' = Some (JObject msg)
        \<and> map_of msg ''type'' = Some (JString ''offer'') \<and> map_of msg ''sdp'' = Some (JString sdp_text))"

definition stream_of :: "signal_env \<Rightarrow> string \<Rightarrow> string \<Rightarrow> string" where
  "stream_of e an stream = ws_domain e @ ''/'' @ an @ ''/'' @ stream"

lemma onMessage_offer:
  assumes "offer_message reader payload_text an stream sdp_text"
  shows "onMessage reader styled e sid True payload_text s srv = onOffer styled e sid sdp_text (s\<lparr>signal_name := stream_of e an stream\<rparr>) srv"
  using assms unfolding offer_message_def by (elim exE conjE) (simp add: onMessage_def stream_of_def)

lemma onOffer_accepted:
  assumes "processOfferMsg styled e text s = Ok (True, s', evs)"
  obtains m ms where "media_sdps (remote_sdp s') = m # ms" "signal_name s' = signal_name s"
    "onOffer styled e sid text s srv =
       (if dir m = MEDIA_SENDONLY \<or> dir m = MEDIA_SENDRECV then Ok (s', snd (addSource (signal_name s) sid srv), evs)
        else if dir m = MEDIA_RECVONLY then
          (case getSource (signal_name s) srv of None \<Rightarrow> Ok (s', srv, evs) | Some p \<Rightarrow> Ok (s', srv, evs @ [AddMediaSink p]))
        else Ok (s', srv, evs))"
proof -
  obtain r u p where o: "Sdp_parse (env_junk e) text (remote_sdp s) = Ok (r, 0)"
    "createLocalSdp e (s\<lparr>signal_id := rand_session_id e, remote_sdp := r, remote_ice_ufrag := u, remote_ice_pwd := p\<rparr>) = (s', 0)"
    using processOfferMsg_trueE [OF assms] by metis
  have r: "remote_sdp s' = r" "signal_name s' = signal_name s" using createLocalSdp_keeps(3,6) [OF o(2)] by simp_all
  then obtain m ms where "media_sdps (remote_sdp s') = m # ms" using parsed_offer_has_media [OF o(1)] by (cases "media_sdps r") auto
  then show thesis using that assms r by (simp add: onOffer_def vec_at_def)
qed

text \<open>Claim C19: Publisher and player meet under the name made of the websocket's domain, the application and the stream:
  a browser whose accepted offer sends becomes the source of that name, if the name is free, and a
  later browser whose accepted offer only receives is handed to it as a sink.  An accepted offer is
  never followed by an access outside the list of media descriptions.
\<close>

theorem player_joins_webrtc_publisher:
  assumes "offer_message reader msg1 an stream sdp1" "offer_message reader msg2 an stream sdp2"
    and "processOfferMsg styled e sdp1 (s\<lparr>signal_name := stream_of e an stream\<rparr>) = Ok (True, s', evs)"
    and "dir (hd (media_sdps (remote_sdp s'))) = MEDIA_SENDONLY" "getSource (stream_of e an stream) srv = None"
    and "processOfferMsg styled e' sdp2 (t\<lparr>signal_name := stream_of e' an stream\<rparr>) = Ok (True, t', evs')" "ws_domain e' = ws_domain e"
    and "dir (hd (media_sdps (remote_sdp t'))) = MEDIA_RECVONLY"
  shows "\<exists>srv'. onMessage reader styled e sid True msg1 s srv = Ok (s', srv', evs)
    \<and> onMessage reader styled e' tid True msg2 t srv' = Ok (t', srv', evs' @ [AddMediaSink sid])
    \<and> (\<forall>name. name \<noteq> stream_of e an stream \<longrightarrow> getSource name srv' = getSource name srv)"
proof -
  let ?n = "stream_of e an stream"
  let ?srv = "snd (addSource ?n sid srv)"
  have n: "stream_of e' an stream = ?n" using assms(7) by (simp add: stream_of_def)
  have "onOffer styled e sid sdp1 (s\<lparr>signal_name := ?n\<rparr>) srv = Ok (s', ?srv, evs)"
    using assms(4) by (auto intro: onOffer_accepted [OF assms(3), of sid srv])
  moreover have src: "getSource ?n ?srv = Some sid" "name \<noteq> ?n \<Longrightarrow> getSource name ?srv = getSource name srv" for name
    using assms(5) by (auto simp: addSource_def getSource_def)
  moreover have "onOffer styled e' tid sdp2 (t\<lparr>signal_name := ?n\<rparr>) ?srv = Ok (t', ?srv, evs' @ [AddMediaSink sid])"
    using assms(8) src(1) by (auto intro: onOffer_accepted [OF assms(6) [unfolded n], of tid ?srv])
  ultimately show ?thesis using onMessage_offer [OF assms(1)] onMessage_offer [OF assms(2)] n by auto
qed
section \<open>An offer and its answer\<close>

definition demo_env :: signal_env where
  "demo_env = \<lparr>env_junk = junk0, env_hash = \<lparr>ord_u32 = (\<lambda>ks. ks), ord_str = (\<lambda>ks. ks)\<rparr>, rand_session_id = 5, rand_origin_id = 6,
     cert_fingerprint = ''AB:CD'', local_ip = ''10.0.0.1'', webrtc_udp_port = 8878, ws_domain = ''example.org''\<rparr>"

definition demo_new :: signal_session where
  "demo_new = (signal_new ''srvr'' ''serverpwd'' 0 origin0)\<lparr>signal_name := stream_of demo_env ''live'' ''cam''\<rparr>"

definition offer_medias :: "string \<Rightarrow> media_sdp list" where
  "offer_medias d = [audio_media d, video_media]"

definition demo_remote :: "string \<Rightarrow> sdp \<Rightarrow> sdp" where
  "demo_remote d s = (offer_session s)\<lparr>media_sdps := media_sdps s @ offer_medias d\<rparr>"

text \<open>The session when it starts to build its answer, and with the answer.\<close>

definition demo_armed :: "string \<Rightarrow> signal_session \<Rightarrow> signal_session" where
  "demo_armed d s = s\<lparr>signal_id := 5, remote_sdp := demo_remote d (remote_sdp s), remote_ice_ufrag := ''Yx4z'', remote_ice_pwd := ''secretsecret''\<rparr>"

definition demo_answered :: "string \<Rightarrow> signal_session \<Rightarrow> signal_session" where
  "demo_answered d s = fst (createLocalSdp demo_env (demo_armed d s))"

lemma created_0: "snd (createLocalSdp e s) = 0 \<Longrightarrow> createLocalSdp e s = (fst (createLocalSdp e s), 0)"
  by (metis prod.collapse)

lemma demo_created:
  "createLocalSdp demo_env (demo_armed ''a=sendonly'' demo_new) = (demo_answered ''a=sendonly'' demo_new, 0)"
  "createLocalSdp demo_env (demo_armed ''a=recvonly'' demo_new) = (demo_answered ''a=recvonly'' demo_new, 0)"
  "createLocalSdp demo_env (demo_armed ''a=sendonly'' (demo_answered ''a=sendonly'' demo_new))
     = (demo_answered ''a=sendonly'' (demo_answered ''a=sendonly'' demo_new), 0)"
  unfolding demo_answered_def [of _ demo_new] demo_answered_def [of _ "fst x" for x] by (rule created_0, code_simp)+

lemma accepted_offer:
  assumes "d \<in> {''a=sendonly'', ''a=recvonly''}" "createLocalSdp demo_env (demo_armed d s) = (s', 0)"
    and "Sdp_getIceUfrag (demo_remote d (remote_sdp s)) = Some ''Yx4z''" "Sdp_getIcePwd (demo_remote d (remote_sdp s)) = Some ''secretsecret''"
    and "bundle_attr (local_sdp s') = Some (a # b # bs)"
  shows "processOfferMsg (\<lambda>_. ''json'') demo_env (offer_text d) s = Ok (True, s', [SendText ''json''])"
proof -
  have "Sdp_toString (env_hash demo_env) (local_sdp s') \<noteq> Fault" "Sdp_toString (env_hash demo_env) (local_sdp s') \<noteq> Err c" for c
    using assms(5) by (simp_all add: Sdp_toString_def BundleAttr_toString_def vec_at_def)
  then obtain t where "Sdp_toString (env_hash demo_env) (local_sdp s') = Ok t" by (cases "Sdp_toString (env_hash demo_env) (local_sdp s')") auto
  moreover have "env_junk demo_env = junk0" "rand_session_id demo_env = 5" by (simp_all add: demo_env_def)
  ultimately show ?thesis using assms offer_text_parsed [OF assms(1), of "remote_sdp s"]
    by (simp add: processOfferMsg_def sendLocalSdp_def demo_remote_def offer_medias_def demo_armed_def)
qed

lemma demo_accepted:
  "processOfferMsg (\<lambda>_. ''json'') demo_env (offer_text ''a=sendonly'') demo_new = Ok (True, demo_answered ''a=sendonly'' demo_new, [SendText ''json''])"
  "processOfferMsg (\<lambda>_. ''json'') demo_env (offer_text ''a=recvonly'') demo_new = Ok (True, demo_answered ''a=recvonly'' demo_new, [SendText ''json''])"
  "processOfferMsg (\<lambda>_. ''json'') demo_env (offer_text ''a=sendonly'') (demo_answered ''a=sendonly'' demo_new)
     = Ok (True, demo_answered ''a=sendonly'' (demo_answered ''a=sendonly'' demo_new), [SendText ''json''])"
proof -
  show "processOfferMsg (\<lambda>_. ''json'') demo_env (offer_text ''a=sendonly'') demo_new = Ok (True, demo_answered ''a=sendonly'' demo_new, [SendText ''json''])"
    by (rule accepted_offer [OF _ demo_created(1), of "''0''" "''1''" "[]"], simp) code_simp+
  show "processOfferMsg (\<lambda>_. ''json'') demo_env (offer_text ''a=recvonly'') demo_new = Ok (True, demo_answered ''a=recvonly'' demo_new, [SendText ''json''])"
    by (rule accepted_offer [OF _ demo_created(2), of "''0''" "''1''" "[]"], simp) code_simp+
  show "processOfferMsg (\<lambda>_. ''json'') demo_env (offer_text ''a=sendonly'') (demo_answered ''a=sendonly'' demo_new)
     = Ok (True, demo_answered ''a=sendonly'' (demo_answered ''a=sendonly'' demo_new), [SendText ''json''])"
    by (rule accepted_offer [OF _ demo_created(3), of "''0''" "''1''" "[''0'', ''1'']"], simp) code_simp+
qed

theorem answer_mirrors_offer_witness:
  "list_all2 (answers demo_env (demo_armed ''a=sendonly'' demo_new)) (filter is_av (media_sdps (remote_sdp (demo_armed ''a=sendonly'' demo_new))))
     (media_sdps (local_sdp (demo_answered ''a=sendonly'' demo_new)))
   \<and> map mid (media_sdps (local_sdp (demo_answered ''a=sendonly'' demo_new))) = [''0'', ''1'']"
proof -
  have "media_sdps (local_sdp (demo_armed ''a=sendonly'' demo_new)) = []" by code_simp
  moreover have "map mid (media_sdps (local_sdp (demo_answered ''a=sendonly'' demo_new))) = [''0'', ''1'']" by code_simp
  ultimately show ?thesis using answer_mirrors_offer [OF demo_created(1)] by auto
qed

theorem offer_arms_ice_check_witness:
  "remote_ice_ufrag (demo_answered ''a=sendonly'' demo_new) = ''Yx4z''
   \<and> Sdp_getIceUfrag (remote_sdp (demo_answered ''a=sendonly'' demo_new)) = Some (remote_ice_ufrag (demo_answered ''a=sendonly'' demo_new))"
proof -
  have "remote_ice_ufrag (demo_answered ''a=sendonly'' demo_new) = ''Yx4z''" by code_simp
  then show ?thesis using offer_arms_ice_check [OF demo_accepted(1)] by simp
qed

theorem renegotiation_repeats_first_offer_witness:
  "remote_ice_ufrag (demo_answered ''a=sendonly'' (demo_answered ''a=sendonly'' demo_new)) = ''Yx4z''
   \<and> map mid (media_sdps (local_sdp (demo_answered ''a=sendonly'' (demo_answered ''a=sendonly'' demo_new)))) = [''0'', ''1'', ''0'', ''1'', ''0'', ''1'']"
proof -
  have "map mid (media_sdps (local_sdp (demo_answered ''a=sendonly'' (demo_answered ''a=sendonly'' demo_new)))) = [''0'', ''1'', ''0'', ''1'', ''0'', ''1'']"
    "media_sdps (remote_sdp (demo_answered ''a=sendonly'' demo_new)) = audio_media ''a=sendonly'' # [video_media]"
    "m_ice_ufrag (audio_media ''a=sendonly'') = Some ''Yx4z''"
    "sdp_ice_ufrag (remote_sdp (demo_answered ''a=sendonly'' (demo_answered ''a=sendonly'' demo_new))) = None"
    by code_simp+
  then show ?thesis using renegotiation_repeats_first_offer [OF _ _ demo_accepted(3)] by simp
qed

definition demo_video_only :: signal_session where
  "demo_video_only = demo_new\<lparr>remote_sdp := (Sdp_default 0 origin0)\<lparr>media_sdps := [video_media]\<rparr>\<rparr>"

definition demo_with_data :: signal_session where
  "demo_with_data = demo_new\<lparr>remote_sdp := (Sdp_default 0 origin0)\<lparr>media_sdps :=
     [video_media, (MediaSdp_default junk0)\<lparr>media := ''application''\<rparr>]\<rparr>\<rparr>"

theorem answer_video_format_is_stale_witness:
  "\<exists>m. media_sdps (local_sdp (fst (createLocalSdp demo_env demo_video_only))) = [m] \<and> fmts m = [127] \<and> map fst (payloads m) = [96]"
proof -
  have "snd (createLocalSdp demo_env demo_video_only) = 0" by code_simp
  moreover have "media_sdps (remote_sdp demo_video_only) = [video_media]" "media (video_media) = ''video''"
    "media_sdps (local_sdp demo_video_only) = []" "video_pt demo_video_only = 127"
    "\<forall>q \<in> set (offered (env_hash demo_env) (video_media)).
       suits (env_hash demo_env) (video_media) q \<longrightarrow> payload_type q = ucast (96 :: byte)"
    by code_simp+
  ultimately show ?thesis using answer_video_format_is_stale [OF created_0, of demo_env demo_video_only _ 96] by simp
qed

theorem answer_group_line_witness:
  "sendLocalSdp (\<lambda>_. ''json'') demo_env (fst (createLocalSdp demo_env demo_with_data)) = Fault"
proof -
  have "snd (createLocalSdp demo_env demo_with_data) = 0" "1 < length (media_sdps (remote_sdp demo_with_data))"
    "length (filter is_av (media_sdps (remote_sdp demo_with_data))) < 2" by code_simp+
  then show ?thesis using answer_group_line [OF created_0, of demo_env demo_with_data] by simp
qed

definition demo_reader :: "string \<Rightarrow> json option" where
  "demo_reader text = Some (JObject [(''app'', JString ''live''), (''stream'', JString ''cam''),
     (''message'', JObject [(''type'', JString ''offer''), (''sdp'', JString text)])])"

definition demo_idle :: "nat \<Rightarrow> rtmp_session" where
  "demo_idle _ = \<lparr>domain = [], app = [], stream_name = [], session_name = [], is_publisher = False, is_player = False, session_closed = False,
     rtmp_session.media = RtmpMediaSource_new False False, last_send_pkt_index = 0, send_results = [], sent_msgs = []\<rparr>"

theorem player_joins_webrtc_publisher_witness:
  "\<exists>srv'. onMessage demo_reader (\<lambda>_. ''json'') demo_env 3 True (offer_text ''a=sendonly'') demo_new \<lparr>sessions = demo_idle, media_sources = Map.empty\<rparr>
       = Ok (demo_answered ''a=sendonly'' demo_new, srv', [SendText ''json''])
    \<and> onMessage demo_reader (\<lambda>_. ''json'') demo_env 4 True (offer_text ''a=recvonly'') demo_new srv'
       = Ok (demo_answered ''a=recvonly'' demo_new, srv', [SendText ''json'', AddMediaSink 3])"
proof -
  have "offer_message demo_reader t ''live'' ''cam'' t" for t by (simp add: offer_message_def demo_reader_def)
  moreover have "demo_new\<lparr>signal_name := stream_of demo_env ''live'' ''cam''\<rparr> = demo_new" by (simp add: demo_new_def)
  moreover have "dir (hd (media_sdps (remote_sdp (demo_answered ''a=sendonly'' demo_new)))) = MEDIA_SENDONLY"
    "dir (hd (media_sdps (remote_sdp (demo_answered ''a=recvonly'' demo_new)))) = MEDIA_RECVONLY" by code_simp+
  moreover have "getSource (stream_of demo_env ''live'' ''cam'') \<lparr>sessions = demo_idle, media_sources = Map.empty\<rparr> = None"
    by (simp add: getSource_def)
  ultimately show ?thesis
    using player_joins_webrtc_publisher [of demo_reader "offer_text ''a=sendonly''" "''live''" "''cam''" "offer_text ''a=sendonly''"
        "offer_text ''a=recvonly''" "offer_text ''a=recvonly''" "\<lambda>_. ''json''" demo_env demo_new _ _
        "\<lparr>sessions = demo_idle, media_sources = Map.empty\<rparr>" demo_env demo_new _ _ 3 4] demo_accepted(1,2)
    by fastforce
qed

end
