(* ===== verification/Http.thy ===== *)
theory Http
  imports Tcp_Socket Cpp_Text
begin

text \<open>
  The HTTP side of the server up to a parsed request: \<open>src/server/http/http_protocol\<close>
  (\<open>http_request.hpp\<close>, \<open>http_parser.hpp\<close>), the receive loop of a connection (\<open>http_conn.cpp\<close>) and the
  handler of a session that feeds the parser (\<open>http_session.cpp\<close>).

  Buffers of text are strings.  A new request object has an uninitialised method, the argument \<open>j\<close>.
  The requests a parser delivers to its callback are the last component of its results.
\<close>

section \<open>Requests\<close>

datatype http_method = CONNECT | GET | HEAD | POST | PUT | DELETE | TRACE | OPTION

record http_request =
  req_method :: http_method
  req_path :: string
  req_params :: "(string \<times> string) list"
  req_headers :: "(string \<times> string) list"

definition HttpRequest_new :: "http_method \<Rightarrow> http_request" where
  "HttpRequest_new j = \<lparr>req_method = j, req_path = [], req_params = [], req_headers = []\<rparr>"

definition getHeader :: "string \<Rightarrow> http_request \<Rightarrow> string" where
  "getHeader k r = hm_get [] k (req_headers r)"

definition getParam :: "string \<Rightarrow> http_request \<Rightarrow> string" where
  "getParam k r = hm_get [] k (req_params r)"

definition method_of :: "string \<Rightarrow> http_method option" where
  "method_of m =
     (if m = ''GET'' then Some GET else if m = ''POST'' then Some POST else if m = ''HEAD'' then Some HEAD
      else if m = ''OPTION'' then Some OPTION else if m = ''PUT'' then Some PUT
      else if m = ''DELETE'' then Some DELETE else None)"

text \<open>A parameter without an equals sign is dropped.\<close>

definition add_param :: "string \<Rightarrow> (string \<times> string) list \<Rightarrow> (string \<times> string) list" where
  "add_param ps params =
     (let tmp = boost_split ps ''='' in
      if 1 < length tmp then AList.update (tmp ! 0) (tmp ! 1) params else params)"

definition set_path :: "string \<Rightarrow> http_request \<Rightarrow> http_request" where
  "set_path p r =
     (if CHR ''?'' \<in> set p then
        r\<lparr>req_path := takeWhile (\<lambda>c. c \<noteq> CHR ''?'') p,
          req_params := fold add_param (boost_split (tl (dropWhile (\<lambda>c. c \<noteq> CHR ''?'') p)) ''&'') (req_params r)\<rparr>
      else r\<lparr>req_path := p\<rparr>)"

definition parseRequestLine :: "string \<Rightarrow> http_request \<Rightarrow> http_request \<times> bool" where
  "parseRequestLine s r =
     (let vs = boost_split s '' '' in
      if length vs \<noteq> 3 then (r, False)
      else case method_of (vs ! 0) of
        None \<Rightarrow> (r, False)
      | Some m \<Rightarrow>
          let r = set_path (vs ! 1) (r\<lparr>req_method := m\<rparr>);
              hv = boost_split (vs ! 2) ''/'' in
          if length hv < 2 then (r, False)
          else if hv ! 0 \<noteq> ''HTTP'' then (r, False)
          else (r, True))"

definition trim :: "string \<Rightarrow> string" where
  "trim s = rev (dropWhile is_space (rev (dropWhile is_space s)))"

definition parseHeader :: "string \<Rightarrow> http_request \<Rightarrow> http_request \<times> bool" where
  "parseHeader s r =
     (let vs = boost_split s '':'' in
      if length vs \<noteq> 2 then (r, False)
      else (r\<lparr>req_headers := AList.update (vs ! 0) (trim (vs ! 1)) (req_headers r)\<rparr>, True))"

section \<open>The parser\<close>

datatype http_state = HTTP_STATE_WAIT_REQUEST_LINE | HTTP_STATE_WAIT_HEADER | HTTP_STATE_REQUEST_ERROR

record http_parser =
  http_req :: "http_request option"
  parser_state :: http_state

definition HttpParser_new :: http_parser where
  "HttpParser_new = \<lparr>http_req = None, parser_state = HTTP_STATE_WAIT_REQUEST_LINE\<rparr>"

text \<open>The position of the first carriage return that is followed by a line feed.\<close>

fun find_crlf :: "string \<Rightarrow> nat option" where
  "find_crlf (a # b # s) = (if a = CR \<and> b = LF then Some 0 else map_option Suc (find_crlf (b # s)))"
| "find_crlf s = None"

text \<open>The empty line at the end of the headers is not consumed and does not change the state.\<close>

definition HttpParser_read ::
  "http_method \<Rightarrow> string \<Rightarrow> http_parser \<Rightarrow> (http_parser \<times> int \<times> http_request list) outcome" where
  "HttpParser_read j buf p =
     (case parser_state p of
        HTTP_STATE_WAIT_REQUEST_LINE \<Rightarrow>
          (case find_crlf buf of
             None \<Rightarrow> Ok (p\<lparr>http_req := Some (HttpRequest_new j)\<rparr>, 0, [])
           | Some pos \<Rightarrow>
               (case parseRequestLine (take pos buf) (HttpRequest_new j) of
                  (r, False) \<Rightarrow> Ok (\<lparr>http_req = Some r, parser_state = HTTP_STATE_REQUEST_ERROR\<rparr>, -1, [])
                | (r, True) \<Rightarrow> Ok (\<lparr>http_req = Some r, parser_state = HTTP_STATE_WAIT_HEADER\<rparr>, int pos + 2, [])))
      | HTTP_STATE_WAIT_HEADER \<Rightarrow>
          (case find_crlf buf of
             None \<Rightarrow> Ok (p, 0, [])
           | Some pos \<Rightarrow>
               (case http_req p of
                  None \<Rightarrow> Fault
                | Some r \<Rightarrow>
                    if pos = 0 then Ok (p, 0, if req_method r = GET then [r] else [])
                    else (case parseHeader (take pos buf) r of
                            (r, False) \<Rightarrow> Ok (\<lparr>http_req = Some r, parser_state = HTTP_STATE_REQUEST_ERROR\<rparr>, -2, [])
                          | (r, True) \<Rightarrow> Ok (p\<lparr>http_req := Some r\<rparr>, int pos + 2, []))))
      | HTTP_STATE_REQUEST_ERROR \<Rightarrow> Ok (p, 0, []))"

text \<open>The handler of a session: the parser is called until it takes nothing or the buffer is used up.\<close>

function recv_handler ::
  "http_method \<Rightarrow> string \<Rightarrow> http_parser \<Rightarrow> (http_parser \<times> int \<times> http_request list) outcome" where
  "recv_handler j buf p =
     obind (HttpParser_read j buf p) (\<lambda>(p, consumed, reqs).
       if consumed < 0 then Ok (p, -1, reqs)
       else if 0 < consumed \<and> nat consumed < length buf then
         obind (recv_handler j (drop (nat consumed) buf) p) (\<lambda>(p, c, rs).
           Ok (p, if c < 0 then -1 else consumed + c, reqs @ rs))
       else Ok (p, consumed, reqs))"
  by pat_completeness auto
termination by (relation "measure (\<lambda>(j, buf, p). length buf)") auto

declare recv_handler.simps [simp del]

section \<open>The connection\<close>

abbreviation (input) HTTP_MAX_BUF :: nat where "HTTP_MAX_BUF \<equiv> 1048576"

text \<open>The value is \<open>None\<close> if the loop does not end; otherwise the requests delivered, the socket, and
  whether the loop ended because the handler failed, in which case it has closed the connection.\<close>

partial_function (option) cycleRecv ::
  "(tcp_socket \<Rightarrow> tcp_socket outcome) \<Rightarrow> http_method \<Rightarrow> string \<Rightarrow> http_parser \<Rightarrow> http_request list \<Rightarrow> tcp_socket
     \<Rightarrow> (http_request list \<times> tcp_socket) outcome option" where
  "cycleRecv onClose j buf p reqs s =
     (case TcpSocket_recvSome (HTTP_MAX_BUF - length buf) s of
        (None, s) \<Rightarrow> Some (Ok (reqs, s))
      | (Some d, s) \<Rightarrow>
          let buf = buf @ str_of_bytes d in
          (case recv_handler j buf p of
             Fault \<Rightarrow> Some Fault
           | Err e \<Rightarrow> Some (Err e)
           | Ok (p, consumed, rs) \<Rightarrow>
               if consumed < 0 then Some (obind (TcpSocket_close onClose s) (\<lambda>s. Ok (reqs @ rs, s)))
               else cycleRecv onClose j (drop (nat consumed) buf) p (reqs @ rs) s))"

definition HttpSession_service ::
  "(tcp_socket \<Rightarrow> tcp_socket outcome) \<Rightarrow> http_method \<Rightarrow> tcp_socket \<Rightarrow> (http_request list \<times> tcp_socket) outcome option" where
  "HttpSession_service onClose j s =
     map_option (\<lambda>r. obind r (\<lambda>(reqs, s). obind (TcpSocket_close onClose s) (\<lambda>s. Ok (reqs, s))))
       (cycleRecv onClose j [] HttpParser_new [] s)"

section \<open>Lemmas\<close>

text \<open>What one complete line does to the parser; a parser that still waits for a request line does not
  look at the request object it holds.\<close>

definition line_step :: "http_method \<Rightarrow> string \<Rightarrow> http_parser \<Rightarrow> http_parser option" where
  "line_step j l p =
     (case (parser_state p, http_req p) of
        (HTTP_STATE_WAIT_REQUEST_LINE, _) \<Rightarrow>
          (case parseRequestLine l (HttpRequest_new j) of
             (r, True) \<Rightarrow> Some \<lparr>http_req = Some r, parser_state = HTTP_STATE_WAIT_HEADER\<rparr> | _ \<Rightarrow> None)
      | (HTTP_STATE_WAIT_HEADER, Some r) \<Rightarrow>
          (if l = [] then None
           else case parseHeader l r of (r, True) \<Rightarrow> Some (p\<lparr>http_req := Some r\<rparr>) | _ \<Rightarrow> None)
      | _ \<Rightarrow> None)"

fun lines_step :: "http_method \<Rightarrow> string list \<Rightarrow> http_parser \<Rightarrow> http_parser option" where
  "lines_step j [] p = Some p"
| "lines_step j (l # ls) p = (case line_step j l p of None \<Rightarrow> None | Some p \<Rightarrow> lines_step j ls p)"

definition same_parser :: "http_parser \<Rightarrow> http_parser \<Rightarrow> bool" where
  "same_parser p q \<longleftrightarrow> parser_state p = parser_state q \<and> (parser_state p \<noteq> HTTP_STATE_WAIT_REQUEST_LINE \<longrightarrow> http_req p = http_req q)"

definition crlf_lines :: "string list \<Rightarrow> string" where
  "crlf_lines ls = concat (map (\<lambda>l. l @ [CR, LF]) ls)"

lemma crlf_lines_simps [simp]: "crlf_lines [] = []" "crlf_lines (l # ls) = l @ CR # LF # crlf_lines ls"
  by (simp_all add: crlf_lines_def)

lemma same_parser_refl [simp]: "same_parser p p"
  by (simp add: same_parser_def)

lemma same_parser_headers: "same_parser p q \<Longrightarrow> parser_state q = HTTP_STATE_WAIT_HEADER \<Longrightarrow> p = q"
  by (cases p; cases q) (simp add: same_parser_def)

lemma line_step_same: "same_parser p q \<Longrightarrow> line_step j l p = line_step j l q"
  by (cases p; cases q) (auto simp: same_parser_def line_step_def split: http_state.splits)

lemma lines_step_same: "same_parser p q \<Longrightarrow> lines_step j ls q = Some q' \<Longrightarrow> \<exists>p'. lines_step j ls p = Some p' \<and> same_parser p' q'"
  by (cases ls) (auto simp: line_step_same)

lemma find_crlf_line: "find_crlf l = None \<Longrightarrow> find_crlf (l @ CR # LF # r) = Some (length l)"
  by (induction l rule: find_crlf.induct) (simp_all split: if_splits)

lemma find_crlf_append: "find_crlf x = Some k \<Longrightarrow> find_crlf (x @ y) = Some k \<and> k + 2 \<le> length x"
  by (induction x arbitrary: k rule: find_crlf.induct) (auto split: if_splits)

lemma find_crlf_prefix:
  assumes "find_crlf l = None" "n < length l + 2"
  shows "find_crlf (take n (l @ CR # LF # r)) = None"
proof (rule ccontr)
  let ?x = "l @ CR # LF # r"
  assume "find_crlf (take n ?x) \<noteq> None"
  then obtain k where "find_crlf (take n ?x) = Some k" by auto
  from find_crlf_append [OF this, of "drop n ?x"] have "find_crlf ?x = Some k" "k + 2 \<le> n"
    unfolding append_take_drop_id by auto
  then show False using assms(2) find_crlf_line [OF assms(1), of r] by simp
qed

lemma read_incomplete:
  "find_crlf b = None \<Longrightarrow> \<exists>p'. HttpParser_read j b p = Ok (p', 0, []) \<and> same_parser p' p"
  by (auto simp: HttpParser_read_def same_parser_def split: http_state.splits)

lemma read_line:
  "find_crlf l = None \<Longrightarrow> line_step j l p = Some q \<Longrightarrow> HttpParser_read j (l @ CR # LF # r) p = Ok (q, int (length l) + 2, [])"
  by (auto simp: HttpParser_read_def line_step_def find_crlf_line split: http_state.splits option.splits prod.splits bool.splits if_splits)

lemma read_end:
  "parser_state p = HTTP_STATE_WAIT_HEADER \<Longrightarrow> http_req p = Some r
    \<Longrightarrow> HttpParser_read j (CR # LF # rest) p = Ok (p, 0, if req_method r = GET then [r] else [])"
  by (simp add: HttpParser_read_def)

lemma take_lines:
  assumes "n < length (crlf_lines (l # ls) @ rest)"
  shows "n < length l + 2 \<or> (\<exists>m. take n (crlf_lines (l # ls) @ rest) = l @ CR # LF # take m (crlf_lines ls @ rest)
    \<and> n = length l + 2 + m \<and> m < length (crlf_lines ls @ rest))"
  using assms by (auto intro!: exI [of _ "n - (length l + 2)"] simp: Suc_diff_le numeral_2_eq_2 not_less take_Cons')

text \<open>The handler on a part of a request: complete lines are taken, an incomplete one waits.\<close>

lemma recv_handler_part:
  assumes "\<forall>l \<in> set ls. find_crlf l = None" "lines_step j ls p = Some q" "n < length (crlf_lines ls @ [CR, LF])"
  shows "\<exists>ls1 ls2 p'. ls = ls1 @ ls2 \<and> recv_handler j (take n (crlf_lines ls @ [CR, LF])) p = Ok (p', int (length (crlf_lines ls1)), [])
    \<and> (\<exists>q'. lines_step j ls2 p' = Some q' \<and> same_parser q' q) \<and> length (crlf_lines ls1) \<le> n"
  using assms
proof (induction ls arbitrary: p n)
  case Nil
  then have "find_crlf (take n [CR, LF]) = None" using find_crlf_prefix [of "[]" n "[]"] by simp
  from read_incomplete [OF this, of j p] Nil show ?case by (auto simp: recv_handler.simps)
next
  case (Cons l ls)
  show ?case
  proof (cases "n < length l + 2")
    case True
    then have "find_crlf (take n (crlf_lines (l # ls) @ [CR, LF])) = None" using find_crlf_prefix [of l n] Cons.prems(1) by simp
    from read_incomplete [OF this, of j p] obtain p' where
      "recv_handler j (take n (crlf_lines (l # ls) @ [CR, LF])) p = Ok (p', 0, [])" "same_parser p' p"
      by (auto simp: recv_handler.simps)
    then show ?thesis using lines_step_same [OF _ Cons.prems(2)] by (intro exI [of _ "[]"] exI [of _ "l # ls"]) auto
  next
    case False
    with take_lines [OF Cons.prems(3)] obtain m where
      m: "take n (crlf_lines (l # ls) @ [CR, LF]) = l @ CR # LF # take m (crlf_lines ls @ [CR, LF])" "n = length l + 2 + m"
        "m < length (crlf_lines ls @ [CR, LF])" by blast
    obtain p1 where p1: "line_step j l p = Some p1" "lines_step j ls p1 = Some q" using Cons.prems(2) by (auto split: option.splits)
    have rd: "HttpParser_read j (l @ CR # LF # take m (crlf_lines ls @ [CR, LF])) p = Ok (p1, int (length l) + 2, [])"
      using read_line [OF _ p1(1)] Cons.prems(1) by simp
    show ?thesis
    proof (cases "m = 0")
      case True
      then have "recv_handler j (take n (crlf_lines (l # ls) @ [CR, LF])) p = Ok (p1, int (length (crlf_lines [l])), [])"
        using rd unfolding m(1) by (subst recv_handler.simps) (simp add: nat_add_distrib)
      moreover have "l # ls = [l] @ ls" "length (crlf_lines [l]) \<le> n" using m(2) by simp_all
      ultimately show ?thesis using p1(2) same_parser_refl by blast
    next
      case False
      from Cons.IH [OF _ p1(2) m(3)] Cons.prems(1) obtain ls1 ls2 p' where
        ih: "ls = ls1 @ ls2" "recv_handler j (take m (crlf_lines ls @ [CR, LF])) p1 = Ok (p', int (length (crlf_lines ls1)), [])"
          "\<exists>q'. lines_step j ls2 p' = Some q' \<and> same_parser q' q" "length (crlf_lines ls1) \<le> m" by auto
      have "recv_handler j (take n (crlf_lines (l # ls) @ [CR, LF])) p = Ok (p', int (length (crlf_lines (l # ls1))), [])"
        using rd ih(2) False m(3) unfolding m(1) by (subst recv_handler.simps) (simp add: nat_add_distrib)
      then show ?thesis using ih m(2) by (intro exI [of _ "l # ls1"] exI [of _ ls2]) auto
    qed
  qed
qed

lemma recv_handler_whole:
  assumes "\<forall>l \<in> set ls. find_crlf l = None" "lines_step j ls p = Some q"
    and "parser_state q = HTTP_STATE_WAIT_HEADER" "http_req q = Some r"
  shows "recv_handler j (crlf_lines ls @ [CR, LF]) p = Ok (q, int (length (crlf_lines ls)), if req_method r = GET then [r] else [])"
  using assms(1,2)
proof (induction ls arbitrary: p)
  case Nil
  then show ?case using read_end [OF assms(3,4), of j "[]"] by (simp add: recv_handler.simps)
next
  case (Cons l ls)
  obtain p1 where p1: "line_step j l p = Some p1" "lines_step j ls p1 = Some q" using Cons.prems(2) by (auto split: option.splits)
  have rd: "HttpParser_read j (l @ CR # LF # (crlf_lines ls @ [CR, LF])) p = Ok (p1, int (length l) + 2, [])"
    using read_line [OF _ p1(1)] Cons.prems(1) by simp
  show ?case using rd Cons.IH [OF _ p1(2)] Cons.prems(1) by (subst recv_handler.simps) (simp add: nat_add_distrib)
qed

lemma recvSome_segment:
  assumes "segments s = seg # segs" "length seg \<le> n"
  shows "TcpSocket_recvSome n s = (Some seg, s\<lparr>segments := segs, in_bytes := in_bytes s + of_nat (length seg)\<rparr>)"
  using assms by (simp add: TcpSocket_recvSome_def)

lemma str_of_bytes_append [simp]: "str_of_bytes (a @ b) = str_of_bytes a @ str_of_bytes b"
  by (simp add: str_of_bytes_def)

lemma str_of_bytes_Nil [simp]: "str_of_bytes b = [] \<longleftrightarrow> b = []"
  by (simp add: str_of_bytes_def)

lemma cycleRecv_request:
  assumes "\<forall>seg \<in> set segs. seg \<noteq> []" "segs \<noteq> []" "segments s = segs"
    and "buf @ str_of_bytes (concat segs) = crlf_lines ls @ [CR, LF]" "length (crlf_lines ls) + 2 \<le> HTTP_MAX_BUF"
    and "\<forall>l \<in> set ls. find_crlf l = None" "lines_step j ls p = Some q"
    and "parser_state q = HTTP_STATE_WAIT_HEADER" "http_req q = Some r"
  shows "\<exists>s'. cycleRecv onClose j buf p reqs s = Some (Ok (reqs @ (if req_method r = GET then [r] else []), s'))
    \<and> closed s' = closed s \<and> deleted s' = deleted s \<and> has_handler s' = has_handler s"
  using assms(1-7)
proof (induction segs arbitrary: s buf ls p)
  case (Cons seg segs)
  let ?s = "s\<lparr>segments := segs, in_bytes := in_bytes s + of_nat (length seg)\<rparr>"
  let ?text = "crlf_lines ls @ [CR, LF]"
  have len: "length buf + length (concat (seg # segs)) = length ?text"
    using arg_cong [OF Cons.prems(4), of length] by simp
  then have rs: "TcpSocket_recvSome (HTTP_MAX_BUF - length buf) s = (Some seg, ?s)"
    using recvSome_segment [OF Cons.prems(3)] Cons.prems(5) by simp
  show ?case
  proof (cases "segs = []")
    case True
    then have whole: "buf @ str_of_bytes seg = ?text" using Cons.prems(4) by simp
    have "TcpSocket_recvSome n ?s = (None, ?s)" for n using True by (simp add: TcpSocket_recvSome_def)
    then have "cycleRecv onClose j b q rs ?s = Some (Ok (rs, ?s))" for b rs by (subst cycleRecv.simps) simp
    then show ?thesis using recv_handler_whole [OF Cons.prems(6,7) assms(8,9)]
      by (subst cycleRecv.simps) (simp add: rs whole)
  next
    case False
    let ?n = "length buf + length seg"
    have "0 < length (concat segs)" using False Cons.prems(1) by (cases segs) auto
    then have n: "?n < length ?text" using len unfolding concat.simps length_append by linarith
    have part: "buf @ str_of_bytes seg = take ?n ?text" using Cons.prems(4) [symmetric] by simp
    obtain ls1 ls2 p' q' where h: "ls = ls1 @ ls2" "recv_handler j (buf @ str_of_bytes seg) p = Ok (p', int (length (crlf_lines ls1)), [])"
        "lines_step j ls2 p' = Some q'" "same_parser q' q" "length (crlf_lines ls1) \<le> ?n"
      using recv_handler_part [OF Cons.prems(6,7) n] part by auto
    then have q': "q' = q" using same_parser_headers assms(8) by blast
    let ?b = "drop (length (crlf_lines ls1)) (buf @ str_of_bytes seg)"
    have "buf @ str_of_bytes (concat (seg # segs)) = crlf_lines ls1 @ crlf_lines ls2 @ [CR, LF]"
      using Cons.prems(4) h(1) by (simp add: crlf_lines_def)
    from arg_cong [OF this, of "drop (length (crlf_lines ls1))"]
    have b: "?b @ str_of_bytes (concat segs) = crlf_lines ls2 @ [CR, LF]" using h(5) by simp
    have "length (crlf_lines ls2) + 2 \<le> HTTP_MAX_BUF" using Cons.prems(5) h(1) by (simp add: crlf_lines_def)
    from Cons.IH [OF _ False _ b this _ h(3) [unfolded q'], of ?s] obtain s' where
      "cycleRecv onClose j ?b p' reqs ?s = Some (Ok (reqs @ (if req_method r = GET then [r] else []), s'))"
      "closed s' = closed s \<and> deleted s' = deleted s \<and> has_handler s' = has_handler s"
      using Cons.prems(1,6) h(1) by auto
    then show ?thesis using h(2) by (subst cycleRecv.simps) (simp add: rs)
  qed
qed simp

section \<open>Properties\<close>

text \<open>Claim C20: A request is delivered once, however the network cuts it up: for a request line and header lines that
  parse, sent in any non-empty pieces that fill at most the buffer, the receive loop ends with exactly the parsed
  request if its method is GET, and with none otherwise.
\<close>

theorem http_request_delivered_once:
  assumes "parseRequestLine rl (HttpRequest_new j) = (r0, True)"
    and "lines_step j hs \<lparr>http_req = Some r0, parser_state = HTTP_STATE_WAIT_HEADER\<rparr>
      = Some \<lparr>http_req = Some r, parser_state = HTTP_STATE_WAIT_HEADER\<rparr>"
    and "\<forall>l \<in> set (rl # hs). find_crlf l = None"
    and "\<forall>seg \<in> set (segments s). seg \<noteq> []" "str_of_bytes (concat (segments s)) = crlf_lines (rl # hs) @ [CR, LF]"
    and "length (concat (segments s)) \<le> HTTP_MAX_BUF"
  shows "\<exists>s'. cycleRecv onClose j [] HttpParser_new [] s = Some (Ok (if req_method r = GET then [r] else [], s'))"
proof -
  have "lines_step j (rl # hs) HttpParser_new = Some \<lparr>http_req = Some r, parser_state = HTTP_STATE_WAIT_HEADER\<rparr>"
    using assms(1,2) by (simp add: line_step_def HttpParser_new_def)
  moreover have "segments s \<noteq> []" using assms(5) by (auto simp: str_of_bytes_def)
  moreover have "length (crlf_lines (rl # hs)) + 2 \<le> HTTP_MAX_BUF"
    using assms(6) arg_cong [OF assms(5), of length] by simp
  ultimately show ?thesis
    using cycleRecv_request [OF assms(4) _ refl _ _ assms(3), of "[]" j HttpParser_new _ r onClose "[]"] assms(5) by fastforce
qed

lemma recv_handler_end:
  assumes "parser_state q = HTTP_STATE_WAIT_HEADER" "http_req q = Some r" "req_method r = GET"
  shows "recv_handler j (CR # LF # rest) q = Ok (q, 0, [r])"
  using read_end [OF assms(1,2), of j rest] assms(3) by (simp add: recv_handler.simps)

text \<open>
  A request is delivered again with every further piece of data: the empty line that ends the headers stays in
  the buffer and the parser in its state, so whatever the client sends next, a second request or one
  byte at a time, makes the callback run once more for the first request.
\<close>

theorem http_request_redelivered:
  assumes "parser_state q = HTTP_STATE_WAIT_HEADER" "http_req q = Some r" "req_method r = GET"
    and "length rest + 2 + length (concat (segments s)) \<le> HTTP_MAX_BUF"
  shows "\<exists>s'. cycleRecv onClose j (CR # LF # rest) q reqs s = Some (Ok (reqs @ replicate (length (segments s)) r, s'))"
  using assms(4)
proof (induction "segments s" arbitrary: s rest reqs)
  case Nil
  then have "TcpSocket_recvSome n s = (None, s)" for n by (simp add: TcpSocket_recvSome_def)
  then show ?case using Nil by (subst cycleRecv.simps) (simp flip: Nil(1))
next
  case (Cons seg segs)
  let ?s = "s\<lparr>segments := segs, in_bytes := in_bytes s + of_nat (length seg)\<rparr>"
  have "TcpSocket_recvSome (HTTP_MAX_BUF - length (CR # LF # rest)) s = (Some seg, ?s)"
    using recvSome_segment [OF Cons(2) [symmetric]] Cons(3) by (simp flip: Cons(2))
  moreover have "length (rest @ str_of_bytes seg) + 2 + length (concat (segments ?s)) \<le> HTTP_MAX_BUF"
    using Cons(3) by (simp flip: Cons(2))
  from Cons(1) [OF _ this, of "reqs @ [r]"] obtain s' where
    "cycleRecv onClose j (CR # LF # rest @ str_of_bytes seg) q (reqs @ [r]) ?s = Some (Ok ((reqs @ [r]) @ replicate (length segs) r, s'))"
    by auto
  ultimately show ?case using recv_handler_end [OF assms(1-3)] by (subst cycleRecv.simps) (simp flip: Cons(2))
qed

definition stuck :: "string \<Rightarrow> http_parser \<Rightarrow> tcp_socket \<Rightarrow> bool" where
  "stuck buf q s \<longleftrightarrow> parser_state q = HTTP_STATE_WAIT_HEADER \<and> (\<exists>r. http_req q = Some r \<and> req_method r = GET)
     \<and> length buf = HTTP_MAX_BUF \<and> (\<exists>rest. buf = CR # LF # rest) \<and> (\<exists>seg segs. segments s = seg # segs \<and> seg \<noteq> [])"

lemma stuck_turn:
  assumes "stuck buf q s"
  shows "TcpSocket_recvSome (HTTP_MAX_BUF - length buf) s = (Some [], s)" "\<exists>r. recv_handler j buf q = Ok (q, 0, [r])"
  using assms recv_handler_end by (auto simp: stuck_def TcpSocket_recvSome_def)

text \<open>
  A full buffer makes the receive loop spin: once a megabyte stands behind the end of the headers there is no room left,
  reading into no room returns at once with nothing, and the loop calls the handler again, for ever, while the
  client's data waits.
\<close>

theorem http_full_buffer_spins:
  assumes "stuck buf q s"
  shows "cycleRecv onClose j buf q reqs s = None"
proof (rule ccontr)
  assume "cycleRecv onClose j buf q reqs s \<noteq> None"
  then obtain y where "cycleRecv onClose j buf q reqs s = Some y" by blast
  then have "\<not> stuck buf q s"
  proof (rule cycleRecv.raw_induct [of "\<lambda>onClose j buf q reqs s y. \<not> stuck buf q s", rotated])
    fix f onClose j buf p reqs s y
    assume ih: "\<And>onClose j buf p reqs s y. f onClose j buf p reqs s = Some y \<Longrightarrow> \<not> stuck buf p s"
      and eq: "(case TcpSocket_recvSome (HTTP_MAX_BUF - length buf) s of (None, s) \<Rightarrow> Some (Ok (reqs, s))
        | (Some d, s) \<Rightarrow> let buf = buf @ str_of_bytes d in (case recv_handler j buf p of Fault \<Rightarrow> Some Fault | Err e \<Rightarrow> Some (Err e)
          | Ok (p, consumed, rs) \<Rightarrow>
              if consumed < 0 then Some (obind (TcpSocket_close onClose s) (\<lambda>s. Ok (reqs @ rs, s)))
              else f onClose j (drop (nat consumed) buf) p (reqs @ rs) s)) = Some y"
    show "\<not> stuck buf p s"
    proof
      assume st: "stuck buf p s"
      obtain r where "recv_handler j buf p = Ok (p, 0, [r])" using stuck_turn(2) [OF st] by blast
      then have "f onClose j buf p (reqs @ [r]) s = Some y" using eq stuck_turn(1) [OF st] by (simp add: str_of_bytes_def)
      from ih [OF this] st show False by contradiction
    qed
  qed
  with assms show False by contradiction
qed

lemma close_deletes:
  assumes "\<not> closed c" "\<not> deleted c" "\<forall>c. \<not> deleted c \<longrightarrow> (\<exists>c'. onClose c = Ok c' \<and> \<not> deleted c')"
  shows "\<exists>c'. TcpSocket_close onClose c = Ok c' \<and> deleted c'"
  using assms(1,2) assms(3) [rule_format, of "c\<lparr>closed := True, close_events := close_events c + 1\<rparr>"]
  by (cases "has_handler c") (auto simp: TcpSocket_close_def)

lemma bytes_of_str_Nil [simp]: "bytes_of_str s = [] \<longleftrightarrow> s = []"
  by (simp add: bytes_of_str_def)

text \<open>Claim C36: A malformed line is worse than rejected: the receive loop closes the connection, which deletes it, and
  the session closes it again.  A header whose value has a colon, such as a host with a port, is
  malformed for this parser.
\<close>

theorem http_header_with_colon_use_after_free:
  assumes "parseRequestLine rl (HttpRequest_new j) = (r0, True)" "find_crlf rl = None"
    and "find_crlf h = None" "h \<noteq> []" "length (boost_split h '':'') \<noteq> 2"
    and "segments s = bytes_of_str (rl @ [CR, LF] @ h @ [CR, LF] @ rest) # segs" "length (rl @ h @ rest) + 4 \<le> HTTP_MAX_BUF"
    and "\<not> closed s" "\<not> deleted s" "\<forall>c. \<not> deleted c \<longrightarrow> (\<exists>c'. onClose c = Ok c' \<and> \<not> deleted c')"
  shows "HttpSession_service onClose j s = Some Fault"
proof -
  let ?text = "rl @ CR # LF # h @ CR # LF # rest"
  let ?p = "\<lparr>http_req = Some r0, parser_state = HTTP_STATE_WAIT_HEADER\<rparr>"
  let ?e = "\<lparr>http_req = Some r0, parser_state = HTTP_STATE_REQUEST_ERROR\<rparr>"
  let ?s = "s\<lparr>segments := segs, in_bytes := in_bytes s + of_nat (length ?text)\<rparr>"
  have "HttpParser_read j ?text HttpParser_new = Ok (?p, int (length rl) + 2, [])"
    using assms(1,2) by (intro read_line) (simp_all add: line_step_def HttpParser_new_def)
  moreover have "HttpParser_read j (h @ CR # LF # rest) ?p = Ok (?e, -2, [])"
    using assms(4,5) find_crlf_line [OF assms(3)] by (simp add: HttpParser_read_def parseHeader_def)
  then have "recv_handler j (h @ CR # LF # rest) ?p = Ok (?e, -1, [])" by (simp add: recv_handler.simps)
  ultimately have "recv_handler j ?text HttpParser_new = Ok (?e, -1, [])"
    by (subst recv_handler.simps) (simp add: nat_add_distrib)
  moreover have "TcpSocket_recvSome HTTP_MAX_BUF s = (Some (bytes_of_str ?text), ?s)"
    using recvSome_segment [OF assms(6), of HTTP_MAX_BUF] assms(7) by simp
  ultimately have "cycleRecv onClose j [] HttpParser_new [] s = Some (obind (TcpSocket_close onClose ?s) (\<lambda>s. Ok ([], s)))"
    by (subst cycleRecv.simps) simp
  moreover obtain s' where "TcpSocket_close onClose ?s = Ok s'" "deleted s'"
    using close_deletes [OF _ _ assms(10), of ?s] assms(8,9) by auto
  ultimately show ?thesis by (simp add: HttpSession_service_def TcpSocket_close_def)
qed

definition http_demo_socket :: "string list \<Rightarrow> tcp_socket" where
  "http_demo_socket segs = \<lparr>segments = map bytes_of_str segs, accepts = [], sent = [], in_bytes = 0, out_bytes = 0, has_handler = True,
     closed = False, close_events = 0, socket_open = True, deleted = False\<rparr>"

definition demo_request :: http_request where
  "demo_request = \<lparr>req_method = GET, req_path = ''/live/cam.flv'', req_params = [(''t'', ''1'')], req_headers = [(''Host'', ''example.org'')]\<rparr>"

lemma demo_request_lines:
  "parseRequestLine ''GET /live/cam.flv?t=1 HTTP/1.1'' (HttpRequest_new CONNECT) = (demo_request\<lparr>req_headers := []\<rparr>, True)"
  "lines_step CONNECT [''Host: example.org''] \<lparr>http_req = Some (demo_request\<lparr>req_headers := []\<rparr>), parser_state = HTTP_STATE_WAIT_HEADER\<rparr>
     = Some \<lparr>http_req = Some demo_request, parser_state = HTTP_STATE_WAIT_HEADER\<rparr>"
  "find_crlf ''GET /live/cam.flv?t=1 HTTP/1.1'' = None" "find_crlf ''Host: example.org'' = None"
  by code_simp+

theorem http_request_delivered_once_witness:
  "\<exists>s'. cycleRecv Ok CONNECT [] HttpParser_new [] (http_demo_socket [''GET /live/cam.flv?t='', ''1 HTTP/1.1'' @ [CR], [LF] @ ''Host: exam'',
      ''ple.org'' @ [CR, LF, CR], [LF]]) = Some (Ok ([demo_request], s'))"
  using http_request_delivered_once [OF demo_request_lines(1,2), of "http_demo_socket [''GET /live/cam.flv?t='', ''1 HTTP/1.1'' @ [CR], [LF] @ ''Host: exam'',
      ''ple.org'' @ [CR, LF, CR], [LF]]" Ok] demo_request_lines(3,4)
  by (simp add: http_demo_socket_def demo_request_def)

theorem http_request_redelivered_witness:
  "\<exists>s'. cycleRecv Ok CONNECT [CR, LF] \<lparr>http_req = Some demo_request, parser_state = HTTP_STATE_WAIT_HEADER\<rparr> [demo_request]
      (http_demo_socket [''x'', ''y'']) = Some (Ok ([demo_request, demo_request, demo_request], s'))"
  using http_request_redelivered [of "\<lparr>http_req = Some demo_request, parser_state = HTTP_STATE_WAIT_HEADER\<rparr>" demo_request "[]"
      "http_demo_socket [''x'', ''y'']" Ok CONNECT "[demo_request]"]
  by (simp add: http_demo_socket_def demo_request_def numeral_2_eq_2)

theorem http_full_buffer_spins_witness:
  "cycleRecv Ok CONNECT (CR # LF # replicate 1048574 CR) \<lparr>http_req = Some demo_request, parser_state = HTTP_STATE_WAIT_HEADER\<rparr> []
      (http_demo_socket [''x'']) = None"
  by (rule http_full_buffer_spins) (simp add: stuck_def http_demo_socket_def demo_request_def bytes_of_str_def)

theorem http_header_with_colon_use_after_free_witness:
  "HttpSession_service Ok CONNECT (http_demo_socket [''GET /live/cam.flv?t=1 HTTP/1.1'' @ [CR, LF] @ ''Host: localhost:8080'' @ [CR, LF] @ [CR, LF]]) = Some Fault"
proof (rule http_header_with_colon_use_after_free [OF demo_request_lines(1,3)])
  show "find_crlf ''Host: localhost:8080'' = None" "length (boost_split ''Host: localhost:8080'' '':'') \<noteq> 2"
    "length (''GET /live/cam.flv?t=1 HTTP/1.1'' @ ''Host: localhost:8080'' @ [CR, LF]) + 4 \<le> HTTP_MAX_BUF" by code_simp+
qed (auto simp: http_demo_socket_def)

end
