(* ===== verification/Http_Flv.thy ===== *)
theory Http_Flv
  imports Rtmp_Session Http
begin

text \<open>
  HTTP-FLV, \<open>src/server/http/http_session.cpp\<close>, \<open>http_flv.cpp\<close> and \<open>http_protocol/http_response.hpp\<close>: a request for
  a path with \<open>.flv\<close> is answered with the packets of a media source, each as an FLV tag.

  The sink runs in two coroutines: one writes the response and the file header, one writes a batch of
  queued messages.  \<open>flv_task\<close> is where the second one stands; it can be suspended after every message, and
  the media source can queue further messages meanwhile.
\<close>

section \<open>Responses\<close>

definition addHeader :: "string \<Rightarrow> string \<Rightarrow> (string \<times> string) list \<Rightarrow> (string \<times> string) list" where
  "addHeader k v hs = AList.update k v hs"

definition response_header :: "hash_order \<Rightarrow> nat \<Rightarrow> (string \<times> string) list \<Rightarrow> string" where
  "response_header h code hs = ''HTTP/1.1 '' @ dec code @ '' OK'' @ [CR, LF]
     @ concat (map (\<lambda>(k, v). k @ '': '' @ v @ [CR, LF]) (hm_iter (ord_str h) hs))
     @ ''Access-Control-Allow-Origin: *'' @ [CR, LF] @ [CR, LF]"

definition writeHeader :: "hash_order \<Rightarrow> nat \<Rightarrow> (string \<times> string) list \<Rightarrow> tcp_socket \<Rightarrow> bool \<times> tcp_socket" where
  "writeHeader h code hs conn = TcpSocket_send (bytes_of_str (response_header h code hs)) conn"

definition writeData :: "bytes \<Rightarrow> tcp_socket \<Rightarrow> bool \<times> tcp_socket" where
  "writeData d conn = TcpSocket_send d conn"

section \<open>Requests for a stream\<close>

definition rfind_str :: "string \<Rightarrow> string \<Rightarrow> nat option" where
  "rfind_str pat s =
     (let ps = filter (\<lambda>i. take (length pat) (drop i s) = pat) [0..<Suc (length s)] in
      if ps = [] then None else Some (last ps))"

section \<open>The sink\<close>

datatype flv_task = NoTask | Spawned | Batch "rtmp_message list"

record http_flv =
  flv_conn :: tcp_socket
  sending_rtmp_msgs :: "rtmp_message list"
  flv_sending :: bool
  flv_task :: flv_task
  prev_tag_size :: u32
  send_header_done :: bool
  flv_closed :: bool
  conn_failed :: bool \<comment> \<open>a write failed and the connection was closed\<close>

definition HttpFlv_new :: "tcp_socket \<Rightarrow> http_flv" where
  "HttpFlv_new conn = \<lparr>flv_conn = conn, sending_rtmp_msgs = [], flv_sending = False, flv_task = NoTask, prev_tag_size = 0,
     send_header_done = False, flv_closed = False, conn_failed = False\<rparr>"

definition HttpFlv_sendRtmpMessage :: "rtmp_message \<Rightarrow> http_flv \<Rightarrow> http_flv" where
  "HttpFlv_sendRtmpMessage m f = f\<lparr>sending_rtmp_msgs := sending_rtmp_msgs f @ [m]\<rparr>"

definition HttpFlv_send_handler :: "http_flv \<Rightarrow> http_flv" where
  "HttpFlv_send_handler f =
     (if sending_rtmp_msgs f = [] \<or> \<not> send_header_done f then f
      else if flv_sending f then f
      else f\<lparr>flv_sending := True, flv_task := Spawned\<rparr>)"

definition startSendRtmpMessage :: "http_flv \<Rightarrow> http_flv" where
  "startSendRtmpMessage f = HttpFlv_send_handler f"

abbreviation (input) send_buf :: bytes where "send_buf \<equiv> replicate 1024 0"

text \<open>Both coroutines close the connection when a write fails, and end.\<close>

definition fail_conn :: "(tcp_socket \<Rightarrow> tcp_socket outcome) \<Rightarrow> tcp_socket \<Rightarrow> http_flv \<Rightarrow> http_flv outcome" where
  "fail_conn onClose conn f = obind (TcpSocket_close onClose conn) (\<lambda>conn. Ok (f\<lparr>flv_conn := conn, conn_failed := True\<rparr>))"

text \<open>The coroutine of \<open>init\<close>.\<close>

definition HttpFlv_init :: "(tcp_socket \<Rightarrow> tcp_socket outcome) \<Rightarrow> hash_order \<Rightarrow> http_flv \<Rightarrow> http_flv outcome" where
  "HttpFlv_init onClose h f =
     (case writeHeader h 200 (addHeader ''Connection'' ''Keep-Alive'' (addHeader ''Content-Type'' ''video/x-flv'' [])) (flv_conn f) of
        (False, conn) \<Rightarrow> fail_conn onClose conn f
      | (True, conn) \<Rightarrow>
          (case FlvHeader_encode send_buf of
             Ok d \<Rightarrow>
               (case writeData d conn of
                  (False, conn) \<Rightarrow> fail_conn onClose conn f
                | (True, conn) \<Rightarrow> Ok (HttpFlv_send_handler (f\<lparr>flv_conn := conn, send_header_done := True\<rparr>)))
           | _ \<Rightarrow> Fault))"

text \<open>One message of a batch: the size of the previous tag, the tag header, the payload.\<close>

definition send_tag ::
  "(tcp_socket \<Rightarrow> tcp_socket outcome) \<Rightarrow> rtmp_message \<Rightarrow> rtmp_message list \<Rightarrow> http_flv \<Rightarrow> http_flv outcome" where
  "send_tag onClose m ms f =
     (case TcpSocket_send (be 4 (unat (prev_tag_size f))) (flv_conn f) of
        (False, conn) \<Rightarrow> fail_conn onClose conn (f\<lparr>flv_task := NoTask\<rparr>)
      | (True, conn) \<Rightarrow>
          (case FlvTagHeader_encodeFromRtmpMessage m send_buf of
             Ok tag \<Rightarrow>
               (case TcpSocket_send tag conn of
                  (False, conn) \<Rightarrow> fail_conn onClose conn (f\<lparr>flv_task := NoTask\<rparr>)
                | (True, conn) \<Rightarrow>
                    (case TcpSocket_send (msg_payload m) conn of
                       (False, conn) \<Rightarrow> fail_conn onClose conn (f\<lparr>flv_task := NoTask\<rparr>)
                     | (True, conn) \<Rightarrow>
                         Ok (f\<lparr>flv_conn := conn, prev_tag_size := of_nat (length (msg_payload m) + length tag), flv_task := Batch ms\<rparr>)))
           | _ \<Rightarrow> Fault))"

text \<open>The sending coroutine from one suspension to the next.  Messages that arrived during the batch are not
  looked for again.\<close>

definition flv_resume :: "(tcp_socket \<Rightarrow> tcp_socket outcome) \<Rightarrow> http_flv \<Rightarrow> http_flv outcome" where
  "flv_resume onClose f =
     (case flv_task f of
        NoTask \<Rightarrow> Ok f
      | Spawned \<Rightarrow>
          if sending_rtmp_msgs f = [] then Ok (f\<lparr>flv_task := NoTask, flv_sending := False\<rparr>)
          else Ok (f\<lparr>flv_task := Batch (sending_rtmp_msgs f), sending_rtmp_msgs := []\<rparr>)
      | Batch [] \<Rightarrow> Ok (f\<lparr>flv_task := NoTask, flv_sending := False\<rparr>)
      | Batch (m # ms) \<Rightarrow> send_tag onClose m ms f)"

definition HttpFlv_close ::
  "(tcp_socket \<Rightarrow> tcp_socket outcome) \<Rightarrow> nat \<Rightarrow> string \<Rightarrow> http_flv \<Rightarrow> media_server \<Rightarrow> (http_flv \<times> media_server) outcome" where
  "HttpFlv_close onClose sid name f srv =
     (if flv_closed f then Ok (f, srv)
      else
        let f = f\<lparr>flv_closed := True\<rparr>;
            srv = (case getSource name srv of
                     None \<Rightarrow> srv
                   | Some p \<Rightarrow> upd_session p (\<lambda>s. s\<lparr>media := removeMediaSink sid (media s)\<rparr>) srv) in
        obind (TcpSocket_close onClose (flv_conn f)) (\<lambda>conn. Ok (f\<lparr>flv_conn := conn\<rparr>, srv)))"

section \<open>The session\<close>

text \<open>A session after a request: without a sink, or with its name and the sink that shares its connection.  The
  sink is made before the source is looked up, so a session that answered 404 has one as well.\<close>

datatype http_answer =
    NotHandled (answer_conn: tcp_socket)
  | NotFound (answer_name: string) (answer_sink: http_flv)
  | Play (answer_name: string) (answer_sink: http_flv)

definition HttpSession_onHttpRequest ::
  "hash_order \<Rightarrow> (tcp_socket \<Rightarrow> tcp_socket outcome) \<Rightarrow> nat \<Rightarrow> http_request \<Rightarrow> tcp_socket \<Rightarrow> media_server
     \<Rightarrow> (http_answer \<times> media_server) outcome" where
  "HttpSession_onHttpRequest h onClose sid r conn srv =
     (case rfind_str ''.flv'' (req_path r) of
        None \<Rightarrow> Ok (NotHandled conn, srv)
      | Some pos \<Rightarrow>
          let name = getHeader ''Host'' r @ take pos (req_path r) in
          (case getSource name srv of
             None \<Rightarrow>
               (case writeHeader h 404 (addHeader ''Connection'' ''close'' []) conn of
                  (True, conn) \<Rightarrow> Ok (NotFound name (HttpFlv_new conn), srv)
                | (False, conn) \<Rightarrow> obind (TcpSocket_close onClose conn) (\<lambda>conn. Ok (NotFound name (HttpFlv_new conn), srv)))
           | Some p \<Rightarrow> Ok (Play name (HttpFlv_new conn), upd_session p (\<lambda>s. s\<lparr>media := addMediaSink sid (media s)\<rparr>) srv)))"

definition HttpSession_close ::
  "(tcp_socket \<Rightarrow> tcp_socket outcome) \<Rightarrow> nat \<Rightarrow> http_answer \<Rightarrow> media_server \<Rightarrow> (http_answer \<times> media_server) outcome" where
  "HttpSession_close onClose sid a srv =
     (case a of
        NotHandled conn \<Rightarrow> Ok (a, srv)
      | NotFound name f \<Rightarrow> obind (HttpFlv_close onClose sid name f srv) (\<lambda>(f, srv). Ok (NotFound name f, srv))
      | Play name f \<Rightarrow> obind (HttpFlv_close onClose sid name f srv) (\<lambda>(f, srv). Ok (Play name f, srv)))"

text \<open>The steps of a sink, with the messages its source has handed to it.\<close>

inductive flv_step ::
  "(tcp_socket \<Rightarrow> tcp_socket outcome) \<Rightarrow> hash_order \<Rightarrow> rtmp_message list \<times> http_flv \<Rightarrow> rtmp_message list \<times> http_flv \<Rightarrow> bool"
  for onClose h where
  queue: "flv_step onClose h (hist, f) (hist @ [m], HttpFlv_sendRtmpMessage m f)"
| start: "flv_step onClose h (hist, f) (hist, startSendRtmpMessage f)"
| init: "\<not> send_header_done f \<Longrightarrow> \<not> conn_failed f \<Longrightarrow> HttpFlv_init onClose h f = Ok f' \<Longrightarrow> flv_step onClose h (hist, f) (hist, f')"
| resume: "flv_resume onClose f = Ok f' \<Longrightarrow> flv_step onClose h (hist, f) (hist, f')"

inductive_cases flv_stepE: "flv_step onClose h c c'"

section \<open>Lemmas\<close>

definition tag_header :: "rtmp_message \<Rightarrow> bytes" where
  "tag_header m = [msg_type m] @ be 3 (length (msg_payload m)) @ be 3 (unat (msg_timestamp m))
     @ [of_nat (unat (msg_timestamp m) div 2 ^ 24)] @ [0, 0, 0]"

definition tag_size :: "rtmp_message \<Rightarrow> u32" where
  "tag_size m = of_nat (length (msg_payload m) + 11)"

text \<open>The body of an FLV file: every tag is preceded by the size of the one before.\<close>

fun flv_tags :: "u32 \<Rightarrow> rtmp_message list \<Rightarrow> bytes" where
  "flv_tags prev [] = []"
| "flv_tags prev (m # ms) = be 4 (unat prev) @ tag_header m @ msg_payload m @ flv_tags (tag_size m) ms"

definition last_size :: "rtmp_message list \<Rightarrow> u32" where
  "last_size ms = (if ms = [] then 0 else tag_size (last ms))"

definition file_start :: "hash_order \<Rightarrow> bytes" where
  "file_start h = bytes_of_str (response_header h 200 (addHeader ''Connection'' ''Keep-Alive'' (addHeader ''Content-Type'' ''video/x-flv'' [])))
     @ [0x46, 0x4c, 0x56, 0x01, 0x05, 0x00, 0x00, 0x00, 0x09]"

lemma tag_header_encode: "FlvTagHeader_encodeFromRtmpMessage m send_buf = Ok (tag_header m)"
  by (simp add: FlvTagHeader_encodeFromRtmpMessage_def tag_header_def)

lemma length_tag_header [simp]: "length (tag_header m) = 11"
  by (simp add: tag_header_def)

lemma flv_tags_snoc: "flv_tags prev (ms @ [m]) = flv_tags prev ms @ be 4 (unat (if ms = [] then prev else tag_size (last ms)))
    @ tag_header m @ msg_payload m"
  by (induction ms arbitrary: prev) auto

lemma TcpSocket_send_True: "TcpSocket_send d s = (True, s') \<Longrightarrow> sent s' = sent s @ d"
proof -
  assume a: "TcpSocket_send d s = (True, s')"
  obtain ok as out where l: "TcpSocket_send_loop d (accepts s) (sent s) = (ok, as, out)" by (cases "TcpSocket_send_loop d (accepts s) (sent s)") auto
  with a have "ok" "sent s' = out" by (auto simp: TcpSocket_send_def split: bool.splits)
  with TcpSocket_send_loop_spec [OF l] show ?thesis by auto
qed

definition in_flight :: "http_flv \<Rightarrow> rtmp_message list" where
  "in_flight f = (case flv_task f of Batch ms \<Rightarrow> ms | _ \<Rightarrow> [])"

text \<open>What is true of a sink whose writes all succeeded: the bytes written are the start of the file and the
  tags of the first messages, the others are in the current batch or in the queue.\<close>

definition flv_inv :: "hash_order \<Rightarrow> bytes \<Rightarrow> rtmp_message list \<times> http_flv \<Rightarrow> bool" where
  "flv_inv h base c \<longleftrightarrow> (case c of (hist, f) \<Rightarrow> conn_failed f \<or>
     (\<exists>written. hist = written @ in_flight f @ sending_rtmp_msgs f
        \<and> sent (flv_conn f) = base @ (if send_header_done f then file_start h @ flv_tags 0 written else [])
        \<and> prev_tag_size f = last_size written
        \<and> (\<not> send_header_done f \<longrightarrow> written = [] \<and> flv_task f = NoTask \<and> \<not> flv_sending f)
        \<and> (flv_sending f \<longleftrightarrow> flv_task f \<noteq> NoTask)))"

lemma flv_inv_new: "flv_inv h (sent conn) ([], HttpFlv_new conn)"
  by (simp add: flv_inv_def HttpFlv_new_def in_flight_def last_size_def)

lemma flv_inv_queue: "flv_inv h base (hist, f) \<Longrightarrow> flv_inv h base (hist @ [m], HttpFlv_sendRtmpMessage m f)"
  by (auto simp: flv_inv_def HttpFlv_sendRtmpMessage_def in_flight_def split: flv_task.splits)

lemma flv_inv_send_handler: "flv_inv h base (hist, f) \<Longrightarrow> flv_inv h base (hist, HttpFlv_send_handler f)"
  by (auto simp: flv_inv_def HttpFlv_send_handler_def in_flight_def split: flv_task.splits)

lemma fail_conn_failed: "fail_conn onClose conn f = Ok f' \<Longrightarrow> conn_failed f'"
  by (cases "TcpSocket_close onClose conn") (auto simp: fail_conn_def)

lemma flv_inv_init:
  assumes inv: "flv_inv h base (hist, f)" and nd: "\<not> send_header_done f" and init: "HttpFlv_init onClose h f = Ok f'"
  shows "flv_inv h base (hist, f')"
proof (cases "conn_failed f'")
  case True
  then show ?thesis by (simp add: flv_inv_def)
next
  case False
  have e: "FlvHeader_encode send_buf = Ok [0x46, 0x4c, 0x56, 0x01, 0x05, 0x00, 0x00, 0x00, 0x09]" by (simp add: FlvHeader_encode_def)
  obtain c c' where c: "f' = HttpFlv_send_handler (f\<lparr>flv_conn := c', send_header_done := True\<rparr>)"
    "writeHeader h 200 (addHeader ''Connection'' ''Keep-Alive'' (addHeader ''Content-Type'' ''video/x-flv'' [])) (flv_conn f) = (True, c)"
    "writeData [0x46, 0x4c, 0x56, 0x01, 0x05, 0x00, 0x00, 0x00, 0x09] c = (True, c')"
    using init False fail_conn_failed unfolding HttpFlv_init_def e by (fastforce split: prod.splits bool.splits)
  have "sent c' = sent (flv_conn f) @ file_start h"
    using TcpSocket_send_True c(2,3) by (simp add: writeHeader_def writeData_def file_start_def)
  then have "flv_inv h base (hist, f\<lparr>flv_conn := c', send_header_done := True\<rparr>)"
    using inv nd by (auto simp: flv_inv_def in_flight_def)
  then show ?thesis unfolding c(1) by (rule flv_inv_send_handler)
qed

lemma send_tag_cases:
  assumes "send_tag onClose m ms f = Ok f'"
  obtains "conn_failed f'"
  | c where "f' = f\<lparr>flv_conn := c, prev_tag_size := tag_size m, flv_task := Batch ms\<rparr>"
      "sent c = sent (flv_conn f) @ be 4 (unat (prev_tag_size f)) @ tag_header m @ msg_payload m"
proof -
  obtain ok c where c: "TcpSocket_send (be 4 (unat (prev_tag_size f))) (flv_conn f) = (ok, c)" by fastforce
  obtain ok1 c1 where c1: "TcpSocket_send (tag_header m) c = (ok1, c1)" by fastforce
  obtain ok2 c2 where c2: "TcpSocket_send (msg_payload m) c1 = (ok2, c2)" by fastforce
  show thesis
  proof (cases "ok \<and> ok1 \<and> ok2")
    case True
    then show thesis using that(2) [of c2] c c1 c2 assms
      by (simp add: send_tag_def tag_header_encode TcpSocket_send_True tag_size_def add.commute)
  next
    case False
    then show thesis using that(1) c c1 c2 assms fail_conn_failed
      by (auto simp: send_tag_def tag_header_encode split: bool.splits)
  qed
qed

lemma flv_inv_send_tag:
  assumes inv: "flv_inv h base (hist, f)" and batch: "flv_task f = Batch (m # ms)" and st: "send_tag onClose m ms f = Ok f'"
  shows "flv_inv h base (hist, f')"
proof (cases rule: send_tag_cases [OF st])
  case 1
  then show ?thesis by (simp add: flv_inv_def)
next
  case (2 c)
  show ?thesis
  proof (cases "conn_failed f")
    case True
    then show ?thesis using 2 by (simp add: flv_inv_def)
  next
    case False
    then obtain written where w: "hist = written @ (m # ms) @ sending_rtmp_msgs f" "sent (flv_conn f) = base @ file_start h @ flv_tags 0 written"
      "prev_tag_size f = last_size written" "flv_sending f" "send_header_done f"
      using inv batch by (auto simp: flv_inv_def in_flight_def)
    then show ?thesis using 2 False
      by (auto simp: flv_inv_def in_flight_def last_size_def flv_tags_snoc intro!: exI [of _ "written @ [m]"])
  qed
qed

lemma flv_inv_resume:
  assumes "flv_inv h base (hist, f)" "flv_resume onClose f = Ok f'"
  shows "flv_inv h base (hist, f')"
proof (cases "flv_task f")
  case (Batch ms)
  then show ?thesis
  proof (cases ms)
    case Nil
    then show ?thesis using assms Batch by (auto simp: flv_inv_def flv_resume_def in_flight_def)
  next
    case (Cons m ms')
    then show ?thesis using assms Batch flv_inv_send_tag by (simp add: flv_resume_def)
  qed
qed (use assms in \<open>auto simp: flv_inv_def flv_resume_def in_flight_def split: if_splits\<close>)

lemma flv_inv_step: "flv_step onClose h c c' \<Longrightarrow> flv_inv h base c \<Longrightarrow> flv_inv h base c'"
  by (erule flv_stepE) (auto simp: flv_inv_queue flv_inv_send_handler startSendRtmpMessage_def intro: flv_inv_init flv_inv_resume)

lemma flv_inv_run: "(flv_step onClose h)\<^sup>*\<^sup>* c c' \<Longrightarrow> flv_inv h base c \<Longrightarrow> flv_inv h base c'"
  by (induction rule: rtranclp_induct) (auto intro: flv_inv_step)

text \<open>A player: reads tag after tag and checks the size of the tag before.\<close>

function flv_demux :: "u32 \<Rightarrow> bytes \<Rightarrow> (byte \<times> u32 \<times> bytes) list option" where
  "flv_demux prev b =
     (if b = [] then Some []
      else if length b < 15 \<or> unbe (take 4 b) \<noteq> unat prev then None
      else case flv_tag_fields (take 11 (drop 4 b)) of (ty, n, ts) \<Rightarrow>
        if length b < 15 + n then None
        else map_option (Cons (ty, ts, take n (drop 15 b))) (flv_demux (of_nat (n + 11)) (drop (15 + n) b)))"
  by pat_completeness auto
termination by (relation "measure (\<lambda>(prev, b). length b)") auto

declare flv_demux.simps [simp del]

lemma tag_header_fields:
  assumes "length (msg_payload m) < 2 ^ 24"
  shows "flv_tag_fields (tag_header m) = (msg_type m, length (msg_payload m), msg_timestamp m)"
proof -
  let ?ts = "unat (msg_timestamp m)"
  have q: "unat (of_nat (?ts div 2 ^ 24) :: byte) = ?ts div 2 ^ 24"
    using timestamp_split [of "msg_timestamp m"] by (simp add: unat_of_nat)
  have "?ts div 2 ^ 24 * 2 ^ 24 + unbe (be 3 ?ts) = ?ts"
    using div_mult_mod_eq [of ?ts "2 ^ 24"] by (simp add: unbe_be)
  then have "(of_nat (unat (of_nat (?ts div 2 ^ 24) :: byte) * 2 ^ 24 + unbe (be 3 ?ts)) :: u32) = msg_timestamp m"
    unfolding q by simp
  then show ?thesis using assms by (simp add: flv_tag_fields_def tag_header_def nth_append)
qed

lemma flv_demux_tags:
  "\<forall>m \<in> set ms. length (msg_payload m) < 2 ^ 24 \<Longrightarrow>
     flv_demux prev (flv_tags prev ms) = Some (map (\<lambda>m. (msg_type m, msg_timestamp m, msg_payload m)) ms)"
proof (induction ms arbitrary: prev)
  case Nil
  show ?case by (simp add: flv_demux.simps)
next
  case (Cons m ms)
  let ?b = "flv_tags prev (m # ms)"
  have "take 4 ?b = be 4 (unat prev)" "take 11 (drop 4 ?b) = tag_header m"
    "take (length (msg_payload m)) (drop 15 ?b) = msg_payload m"
    "drop (15 + length (msg_payload m)) ?b = flv_tags (tag_size m) ms" "15 + length (msg_payload m) \<le> length ?b"
    by simp_all
  moreover have "unbe (be 4 (unat prev)) = unat prev" by simp
  moreover have "?b \<noteq> []" using length_be [of 4 "unat prev"] by (auto simp del: length_be)
  ultimately show ?case using Cons tag_header_fields [of m]
    by (subst flv_demux.simps) (simp add: tag_size_def)
qed

lemma rfind_str_suffix:
  assumes "pat \<noteq> []"
  shows "rfind_str pat (x @ pat) = Some (length x)"
proof -
  let ?P = "\<lambda>i. take (length pat) (drop i (x @ pat)) = pat"
  have no: "\<not> ?P i" if "length x < i" for i
  proof
    assume "?P i"
    from arg_cong [OF this, of length] that assms show False by (cases pat) auto
  qed
  have "[0..<Suc (length (x @ pat))] = [0..<length x] @ [length x..<Suc (length (x @ pat))]"
    using upt_add_eq_append [of 0 "length x" "Suc (length pat)"] by simp
  moreover have "[length x..<Suc (length (x @ pat))] = length x # [Suc (length x)..<Suc (length (x @ pat))]"
    by (rule upt_conv_Cons) simp
  moreover have "filter ?P [Suc (length x)..<Suc (length (x @ pat))] = []" using no by (auto simp: filter_empty_conv)
  ultimately have "filter ?P [0..<Suc (length (x @ pat))] = filter ?P [0..<length x] @ [length x]" by simp
  then show ?thesis unfolding rfind_str_def Let_def by simp
qed

section \<open>Properties\<close>

text \<open>A player of an HTTP-FLV stream gets a well-formed file: however queueing, the start of the response and
  the batches of the sender interleave, as long as no write failed, the bytes on the connection are the
  response header, the file header and a sequence of tags, each behind the size of the one before, which a
  player reads back as exactly the first messages the source handed over, in order and each once; the rest is in
  the current batch or queued.
\<close>

theorem http_flv_stream_exact:
  assumes "(flv_step onClose h)\<^sup>*\<^sup>* ([], HttpFlv_new conn) (hist, f)" "\<not> conn_failed f" "\<forall>m \<in> set hist. length (msg_payload m) < 2 ^ 24"
  shows "\<exists>written. hist = written @ in_flight f @ sending_rtmp_msgs f
    \<and> (if send_header_done f
       then \<exists>body. sent (flv_conn f) = sent conn @ file_start h @ body
              \<and> flv_demux 0 body = Some (map (\<lambda>m. (msg_type m, msg_timestamp m, msg_payload m)) written)
       else written = [] \<and> sent (flv_conn f) = sent conn)"
proof -
  obtain written where w: "hist = written @ in_flight f @ sending_rtmp_msgs f"
      "sent (flv_conn f) = sent conn @ (if send_header_done f then file_start h @ flv_tags 0 written else [])"
      "\<not> send_header_done f \<longrightarrow> written = []"
    using flv_inv_run [OF assms(1) flv_inv_new] assms(2) by (auto simp: flv_inv_def)
  have "flv_demux 0 (flv_tags 0 written) = Some (map (\<lambda>m. (msg_type m, msg_timestamp m, msg_payload m)) written)"
    using flv_demux_tags assms(3) w(1) by simp
  then show ?thesis using w by (intro exI [of _ written]) auto
qed

text \<open>Claim C21: Every publisher can be watched over HTTP: a GET for \<open>/app/stream.flv\<close> whose host is the domain the stream was
  published under adds a fresh sink to the source registered as \<open>domain/app/stream\<close>; if there is none, the answer is
  a header with status 404 and the registry stays as it is.
\<close>

theorem http_flv_request_finds_stream:
  assumes "req_path r = ''/'' @ an @ ''/'' @ stream @ ''.flv''" "getHeader ''Host'' r = host"
  shows "HttpSession_onHttpRequest h onClose sid r conn srv =
    (case getSource (host @ ''/'' @ an @ ''/'' @ stream) srv of
       Some p \<Rightarrow> Ok (Play (host @ ''/'' @ an @ ''/'' @ stream) (HttpFlv_new conn),
                     upd_session p (\<lambda>s. s\<lparr>media := addMediaSink sid (media s)\<rparr>) srv)
     | None \<Rightarrow>
         (case TcpSocket_send (bytes_of_str (response_header h 404 [(''Connection'', ''close'')])) conn of
            (True, conn') \<Rightarrow> Ok (NotFound (host @ ''/'' @ an @ ''/'' @ stream) (HttpFlv_new conn'), srv)
          | (False, conn') \<Rightarrow> obind (TcpSocket_close onClose conn')
               (\<lambda>c. Ok (NotFound (host @ ''/'' @ an @ ''/'' @ stream) (HttpFlv_new c), srv))))"
proof -
  have "rfind_str ''.flv'' ((''/'' @ an @ ''/'' @ stream) @ ''.flv'') = Some (length (''/'' @ an @ ''/'' @ stream))"
    by (rule rfind_str_suffix) simp
  then have "rfind_str ''.flv'' (req_path r) = Some (length (''/'' @ an @ ''/'' @ stream))" unfolding assms(1) append_assoc .
  moreover have "take (length (''/'' @ an @ ''/'' @ stream)) (req_path r) = ''/'' @ an @ ''/'' @ stream" unfolding assms(1) by simp
  moreover have "addHeader ''Connection'' ''close'' [] = [(''Connection'', ''close'')]" by (simp add: addHeader_def)
  ultimately show ?thesis
    unfolding HttpSession_onHttpRequest_def Let_def writeHeader_def assms(2) by (simp only: option.case)
qed

definition flv_msg :: "byte \<Rightarrow> rtmp_message" where
  "flv_msg b = \<lparr>msg_room = 1, msg_payload = [b], msg_csid = 4, msg_timestamp = 40, msg_type = 9, msg_stream_id = 1\<rparr>"

definition flv_player :: tcp_socket where
  "flv_player = \<lparr>segments = [], accepts = [1000, 1000, 1000, 1000, 1000, 1000, 1000, 1000, 1000, 1000, 1000, 1000], sent = [], in_bytes = 0, out_bytes = 0, has_handler = False,
     closed = False, close_events = 0, socket_open = True, deleted = False\<rparr>"

definition same_order :: hash_order where
  "same_order = \<lparr>ord_u32 = (\<lambda>ks. ks), ord_str = (\<lambda>ks. ks)\<rparr>"

text \<open>A sink that has written its header and one of two messages, the second queued during the batch.\<close>

definition flv_left :: http_flv where
  "flv_left = (case obind (HttpFlv_init Ok same_order (HttpFlv_new flv_player)) (\<lambda>f.
       obind (flv_resume Ok (startSendRtmpMessage (HttpFlv_sendRtmpMessage (flv_msg 1) f))) (\<lambda>f.
       obind (flv_resume Ok (startSendRtmpMessage (HttpFlv_sendRtmpMessage (flv_msg 2) f))) (flv_resume Ok))) of
     Ok f \<Rightarrow> f | _ \<Rightarrow> HttpFlv_new flv_player)"

lemma TcpSocket_send_one:
  assumes "accepts s = a # as" "d \<noteq> []" "length d \<le> a"
  shows "TcpSocket_send d s = (True, s\<lparr>accepts := as, sent := sent s @ d, out_bytes := out_bytes s + of_nat (length d)\<rparr>)"
  using assms by (cases as) (simp_all add: TcpSocket_send_def min_absorb2)

lemma flv_left_run:
  obtains f1 f4 f7 where "HttpFlv_init Ok same_order (HttpFlv_new flv_player) = Ok f1"
    "flv_resume Ok (startSendRtmpMessage (HttpFlv_sendRtmpMessage (flv_msg 1) f1)) = Ok f4"
    "flv_resume Ok (startSendRtmpMessage (HttpFlv_sendRtmpMessage (flv_msg 2) f4)) = Ok f7"
    "flv_resume Ok f7 = Ok flv_left"
    "\<not> conn_failed flv_left" "flv_task flv_left = NoTask" "sending_rtmp_msgs flv_left = [flv_msg 2]"
    "send_header_done flv_left" "\<not> flv_sending flv_left"
proof -
  define hdr where "hdr = response_header same_order 200 (addHeader ''Connection'' ''Keep-Alive'' (addHeader ''Content-Type'' ''video/x-flv'' []))"
  have "length hdr \<le> 1000" "hdr \<noteq> []" unfolding hdr_def by code_simp+
  then have "\<exists>c. HttpFlv_init Ok same_order (HttpFlv_new flv_player) = Ok ((HttpFlv_new flv_player)\<lparr>flv_conn := c, send_header_done := True\<rparr>)
      \<and> accepts c = [1000, 1000, 1000, 1000, 1000, 1000, 1000, 1000, 1000, 1000]"
    by (simp add: HttpFlv_init_def writeHeader_def writeData_def hdr_def [symmetric] TcpSocket_send_one flv_player_def HttpFlv_new_def
        FlvHeader_encode_def HttpFlv_send_handler_def)
  then obtain c where c: "HttpFlv_init Ok same_order (HttpFlv_new flv_player) = Ok ((HttpFlv_new flv_player)\<lparr>flv_conn := c, send_header_done := True\<rparr>)"
    "accepts c = [1000, 1000, 1000, 1000, 1000, 1000, 1000, 1000, 1000, 1000]" by blast
  have l: "length (be 4 n) = 4" "be 4 n \<noteq> []" for n using length_be [of 4 n] by (auto simp del: length_be)
  have th: "tag_header m \<noteq> []" for m by (simp add: tag_header_def)
  note step = HttpFlv_sendRtmpMessage_def startSendRtmpMessage_def HttpFlv_send_handler_def flv_resume_def
  define f1 where "f1 = (HttpFlv_new flv_player)\<lparr>flv_conn := c, send_header_done := True\<rparr>"
  have f1: "send_header_done f1" "\<not> conn_failed f1" "\<not> flv_sending f1" "sending_rtmp_msgs f1 = []" "flv_conn f1 = c"
    by (simp_all add: f1_def HttpFlv_new_def)
  define f4 where "f4 = f1\<lparr>flv_sending := True, flv_task := Batch [flv_msg 1]\<rparr>"
  have r4: "flv_resume Ok (startSendRtmpMessage (HttpFlv_sendRtmpMessage (flv_msg 1) f1)) = Ok f4"
    using f1 by (simp add: step f4_def)
  have "\<exists>c' n. send_tag Ok (flv_msg 1) [] (f4\<lparr>sending_rtmp_msgs := [flv_msg 2]\<rparr>)
      = Ok (f4\<lparr>sending_rtmp_msgs := [flv_msg 2], flv_conn := c', prev_tag_size := n, flv_task := Batch []\<rparr>)"
    using c(2) f1(5) by (simp add: f4_def send_tag_def tag_header_encode TcpSocket_send_one l th) (simp add: flv_msg_def TcpSocket_send_one, intro exI, rule refl)
  then obtain c' n where st: "send_tag Ok (flv_msg 1) [] (f4\<lparr>sending_rtmp_msgs := [flv_msg 2]\<rparr>)
      = Ok (f4\<lparr>sending_rtmp_msgs := [flv_msg 2], flv_conn := c', prev_tag_size := n, flv_task := Batch []\<rparr>)" by blast
  define f7 where "f7 = f4\<lparr>sending_rtmp_msgs := [flv_msg 2], flv_conn := c', prev_tag_size := n, flv_task := Batch []\<rparr>"
  have f4: "send_header_done f4" "\<not> conn_failed f4" "flv_sending f4" "sending_rtmp_msgs f4 = []" "flv_task f4 = Batch [flv_msg 1]"
    using f1 by (simp_all add: f4_def)
  have r7: "flv_resume Ok (startSendRtmpMessage (HttpFlv_sendRtmpMessage (flv_msg 2) f4)) = Ok f7"
    using f4 st by (simp add: step f7_def)
  have r8: "flv_resume Ok f7 = Ok (f7\<lparr>flv_task := NoTask, flv_sending := False\<rparr>)" by (simp add: f7_def flv_resume_def)
  have left: "flv_left = f7\<lparr>flv_task := NoTask, flv_sending := False\<rparr>"
    unfolding flv_left_def c(1) f1_def [symmetric] by (simp add: r4 r7 r8)
  show thesis using that [OF c(1) [folded f1_def] r4 r7 r8 [folded left]] f4 by (simp add: left f7_def)
qed

lemma flv_left_fields:
  "\<not> conn_failed flv_left" "flv_task flv_left = NoTask" "sending_rtmp_msgs flv_left = [flv_msg 2]" "send_header_done flv_left"
  "\<not> flv_sending flv_left"
  using flv_left_run by blast+

lemma flv_left_reached: "(flv_step Ok same_order)\<^sup>*\<^sup>* ([], HttpFlv_new flv_player) ([flv_msg 1, flv_msg 2], flv_left)"
proof -
  obtain f1 f4 f7 where f: "HttpFlv_init Ok same_order (HttpFlv_new flv_player) = Ok f1"
    "flv_resume Ok (startSendRtmpMessage (HttpFlv_sendRtmpMessage (flv_msg 1) f1)) = Ok f4"
    "flv_resume Ok (startSendRtmpMessage (HttpFlv_sendRtmpMessage (flv_msg 2) f4)) = Ok f7" "flv_resume Ok f7 = Ok flv_left"
    by (rule flv_left_run)
  let ?S = "flv_step Ok same_order"
  have turn: "?S\<^sup>*\<^sup>* (hist, f) (hist @ [m], f')"
    if "flv_resume Ok (startSendRtmpMessage (HttpFlv_sendRtmpMessage m f)) = Ok f'" for hist m f f'
    using flv_step.queue [of Ok same_order hist f m] flv_step.start [of Ok same_order "hist @ [m]" "HttpFlv_sendRtmpMessage m f"]
      flv_step.resume [OF that, of same_order "hist @ [m]"] by (meson converse_rtranclp_into_rtranclp r_into_rtranclp)
  have "?S ([], HttpFlv_new flv_player) ([], f1)" by (rule flv_step.init [OF _ _ f(1)]) (simp_all add: HttpFlv_new_def)
  moreover have "?S\<^sup>*\<^sup>* ([], f1) ([flv_msg 1], f4)" "?S\<^sup>*\<^sup>* ([flv_msg 1], f4) ([flv_msg 1, flv_msg 2], f7)"
    using turn [OF f(2), of "[]"] turn [OF f(3), of "[flv_msg 1]"] by simp_all
  moreover have "?S ([flv_msg 1, flv_msg 2], f7) ([flv_msg 1, flv_msg 2], flv_left)" by (rule flv_step.resume [OF f(4)])
  ultimately show ?thesis by (meson converse_rtranclp_into_rtranclp rtranclp.rtrancl_into_rtrancl rtranclp_trans)
qed

theorem http_flv_stream_exact_witness:
  "\<exists>written body. [flv_msg 1, flv_msg 2] = written @ [flv_msg 2] \<and> sent (flv_conn flv_left) = file_start same_order @ body
    \<and> flv_demux 0 body = Some (map (\<lambda>m. (msg_type m, msg_timestamp m, msg_payload m)) written)"
proof -
  have "in_flight flv_left = []" "sent flv_player = []" by (simp_all add: in_flight_def flv_left_fields flv_player_def)
  moreover have "\<forall>m \<in> set [flv_msg 1, flv_msg 2]. length (msg_payload m) < 2 ^ 24" by (simp add: flv_msg_def)
  ultimately show ?thesis using http_flv_stream_exact [OF flv_left_reached flv_left_fields(1)] flv_left_fields(3,4) by auto
qed

text \<open>Claim C40: A message can be left behind: one that is queued while a batch is written is not looked at when the batch ends, so
  the sink can come to rest with a message in its queue and a working connection; it waits for the next
  packet of the source.
\<close>

theorem http_flv_message_left_behind:
  "(flv_step Ok same_order)\<^sup>*\<^sup>* ([], HttpFlv_new flv_player) ([flv_msg 1, flv_msg 2], flv_left)
   \<and> \<not> conn_failed flv_left \<and> send_header_done flv_left \<and> flv_task flv_left = NoTask \<and> \<not> flv_sending flv_left
   \<and> flv_resume Ok flv_left = Ok flv_left \<and> sending_rtmp_msgs flv_left = [flv_msg 2]"
  using flv_left_reached by (simp add: flv_resume_def flv_left_fields)

theorem http_flv_request_finds_stream_witness:
  "HttpSession_onHttpRequest same_order Ok 7 demo_request flv_player (\<lparr>sessions = undefined, media_sources = [''example.org/live/cam'' \<mapsto> 3]\<rparr>)
     = Ok (Play ''example.org/live/cam'' (HttpFlv_new flv_player), upd_session 3 (\<lambda>s. s\<lparr>media := addMediaSink 7 (media s)\<rparr>)
         (\<lparr>sessions = undefined, media_sources = [''example.org/live/cam'' \<mapsto> 3]\<rparr>))"
proof -
  have "getHeader ''Host'' demo_request = ''example.org''" by code_simp
  then show ?thesis using http_flv_request_finds_stream [of demo_request "''live''" "''cam''" "''example.org''" same_order Ok 7 flv_player
      "\<lparr>sessions = undefined, media_sources = [''example.org/live/cam'' \<mapsto> 3]\<rparr>"]
    by (simp add: demo_request_def getSource_def)
qed

text \<open>
  A player leaves: when the connection of a session that plays a stream is gone, closing the session takes its sink out of the
  source it was added to and of no other, and a second close does nothing.
\<close>

theorem http_flv_close_leaves:
  assumes "getSource name srv = Some p" "\<not> flv_closed f" "TcpSocket_close onClose (flv_conn f) = Ok conn"
  shows "HttpSession_close onClose sid (Play name f) (upd_session p (\<lambda>s. s\<lparr>media := addMediaSink sid (media s)\<rparr>) srv)
      = Ok (Play name (f\<lparr>flv_closed := True, flv_conn := conn\<rparr>), upd_session p (\<lambda>s. s\<lparr>media := removeMediaSink sid (media s)\<rparr>) srv)
    \<and> HttpSession_close onClose sid (Play name (f\<lparr>flv_closed := True, flv_conn := conn\<rparr>)) srv
      = Ok (Play name (f\<lparr>flv_closed := True, flv_conn := conn\<rparr>), srv)"
proof -
  have "upd_session p (\<lambda>s. s\<lparr>media := removeMediaSink sid (media s)\<rparr>) (upd_session p (\<lambda>s. s\<lparr>media := addMediaSink sid (media s)\<rparr>) srv)
      = upd_session p (\<lambda>s. s\<lparr>media := removeMediaSink sid (media s)\<rparr>) srv"
    by (simp add: upd_session_def addMediaSink_def removeMediaSink_def)
  moreover have "getSource name (upd_session p g srv) = Some p" for g using assms(1) by (simp add: getSource_def upd_session_def)
  ultimately show ?thesis using assms by (simp add: HttpSession_close_def HttpFlv_close_def)
qed

theorem http_flv_close_leaves_witness:
  "HttpSession_close Ok 7 (Play ''a'' (HttpFlv_new flv_player)) (upd_session 3 (\<lambda>s. s\<lparr>media := addMediaSink 7 (media s)\<rparr>)
        (\<lparr>sessions = undefined, media_sources = [''a'' \<mapsto> 3]\<rparr>))
     = Ok (Play ''a'' ((HttpFlv_new flv_player)\<lparr>flv_closed := True, flv_conn := flv_player\<lparr>closed := True, socket_open := False, deleted := True\<rparr>\<rparr>),
         upd_session 3 (\<lambda>s. s\<lparr>media := removeMediaSink 7 (media s)\<rparr>) (\<lparr>sessions = undefined, media_sources = [''a'' \<mapsto> 3]\<rparr>))"
  by (rule http_flv_close_leaves [THEN conjunct1]) (simp_all add: getSource_def HttpFlv_new_def flv_player_def TcpSocket_close_def)

end
