(* ===== verification/Relay.thy ===== *)
theory Relay
  imports Http_Flv
begin

text \<open>
  From a publisher to a player over HTTP: the media source of \<open>Media_Source\<close> and the sink of \<open>Http_Flv\<close> together, connected by
  \<open>RtmpMediaSink::active\<close> of \<open>src/core/rtmp_media_sink.cpp\<close>.
\<close>

section \<open>The path of a packet\<close>

text \<open>A player over HTTP: the packets published so far, the source, the index of the sink in it, what the
  sink has been given, and the sink.  The task of a woken sink is \<open>RtmpMediaSink::active\<close>: fetch at most ten packets, queue them and
  start to send.\<close>

definition HttpFlv_active :: "rtmp_message list \<Rightarrow> http_flv \<Rightarrow> http_flv" where
  "HttpFlv_active ms f = (if ms = [] then f else startSendRtmpMessage (fold HttpFlv_sendRtmpMessage ms f))"

inductive watch_step ::
  "(tcp_socket \<Rightarrow> tcp_socket outcome) \<Rightarrow> hash_order
   \<Rightarrow> rtmp_message list \<times> rtmp_media_source \<times> int \<times> rtmp_message option list \<times> http_flv
   \<Rightarrow> rtmp_message list \<times> rtmp_media_source \<times> int \<times> rtmp_message option list \<times> http_flv \<Rightarrow> bool"
  for onClose ho where
  source: "play_step (h, src, l, got) (h', src', l', got) \<Longrightarrow> watch_step onClose ho (h, src, l, got, f) (h', src', l', got, f)"
| active: "RtmpMediaSink_active l src = Ok (map Some ms, l') \<Longrightarrow>
    watch_step onClose ho (h, src, l, got, f) (h, src, l', got @ map Some ms, HttpFlv_active ms f)"
| sink: "flv_step onClose ho (map the got, f) (map the got, f') \<Longrightarrow> watch_step onClose ho (h, src, l, got, f) (h, src, l, got, f')"

definition watch_inv ::
  "hash_order \<Rightarrow> bytes \<Rightarrow> nat \<Rightarrow> rtmp_message list \<times> rtmp_media_source \<times> int \<times> rtmp_message option list \<times> http_flv \<Rightarrow> bool" where
  "watch_inv ho base i = (\<lambda>(h, src, l, got, f). play_inv i (h, src, l, got) \<and> flv_inv ho base (map the got, f))"

lemma flv_inv_active: "flv_inv ho base (hist, f) \<Longrightarrow> flv_inv ho base (hist @ ms, HttpFlv_active ms f)"
proof -
  assume "flv_inv ho base (hist, f)"
  then have "flv_inv ho base (hist @ ms, fold HttpFlv_sendRtmpMessage ms f)"
  proof (induction ms arbitrary: hist f)
    case (Cons m ms)
    from Cons.IH [OF flv_inv_queue [OF Cons.prems, of m]] show ?case by simp
  qed simp
  then show ?thesis by (auto simp: HttpFlv_active_def startSendRtmpMessage_def intro: flv_inv_send_handler)
qed

lemma active_is_poll:
  assumes "RtmpMediaSink_active l src = Ok (ps, l')" "play_inv i (h, src, l, got)"
  shows "play_inv i (h, src, l', got @ ps)"
  using assms play_inv_poll [OF assms(2), of 10 ps l'] by (simp add: RtmpMediaSink_active_def split: if_splits)

lemma watch_inv_step: "watch_step onClose ho c c' \<Longrightarrow> watch_inv ho base i c \<Longrightarrow> watch_inv ho base i c'"
proof (induction rule: watch_step.induct)
  case (source h src l got h' src' l' f)
  then show ?case by (auto simp: watch_inv_def intro: play_inv_step)
next
  case (active l src ms l' h got f)
  then show ?case by (auto simp: watch_inv_def comp_def dest: active_is_poll flv_inv_active)
next
  case (sink got f f' h src l)
  then show ?case by (auto simp: watch_inv_def intro: flv_inv_step)
qed

lemma watch_inv_run: "(watch_step onClose ho)\<^sup>*\<^sup>* c c' \<Longrightarrow> watch_inv ho base i c \<Longrightarrow> watch_inv ho base i c'"
  by (induction rule: rtranclp_induct) (auto intro: watch_inv_step)

section \<open>Properties\<close>


definition ready_source :: rtmp_media_source where
  "ready_source = (RtmpMediaSource_new True True)\<lparr>stream_ready := True\<rparr>"

definition publish :: "rtmp_message \<Rightarrow> rtmp_media_source \<Rightarrow> rtmp_media_source" where
  "publish m src = fst (snd (onVideoPacket \<lparr>frame_type = 0, codec_id = 0, avc_packet_type = 0, composition_time = 0\<rparr> m src))"

lemma publish_keeps:
  assumes "source_holds h src" "Suc (length h) < 2 ^ 63" "stream_ready src"
  shows "source_holds (h @ [m]) (publish m src)" "stream_ready (publish m src)"
  using assms by (auto simp: publish_def source_holds_cong [OF on_packet_keeps(3,4)] store_packet_holds)
    (auto simp: onVideoPacket_def update_ready_def store_packet_def Let_def split: outcome.splits prod.splits)

text \<open>One packet is published, fetched by the sink, queued, and the sending coroutine runs up to its next suspension.\<close>

lemma watch_turn:
  assumes "source_holds h src" "length h < 2047" "stream_ready src"
    and "flv_resume Ok (startSendRtmpMessage (HttpFlv_sendRtmpMessage m f)) = Ok f'"
  shows "(watch_step Ok ho)\<^sup>*\<^sup>* (h, src, int (Suc (length h)), map Some h, f)
    (h @ [m], publish m src, int (Suc (length (h @ [m]))), map Some (h @ [m]), f')"
proof -
  let ?l = "int (Suc (length h))" and ?W = "watch_step Ok ho"
  have s: "source_holds (h @ [m]) (publish m src)" "stream_ready (publish m src)" using publish_keeps [OF assms(1)] assms(2,3) by simp_all
  have "play_step (h, src, ?l, map Some h) (h @ [m], publish m src, ?l, map Some h)"
    unfolding publish_def by (rule play_step.video) (use assms(2) in simp_all)
  then have 1: "?W (h, src, ?l, map Some h, f) (h @ [m], publish m src, ?l, map Some h, f)" by (rule watch_step.source)
  have "getPkts ?l 10 (publish m src) = Ok (map Some (take 10 (drop (length h) (h @ [m]))), int (Suc (length h) + min 10 (length (h @ [m]) - length h)))"
    by (rule getPkts_running [OF s(1)]) (use assms(2) in simp_all)
  then have "RtmpMediaSink_active ?l (publish m src) = Ok (map Some [m], ?l + 1)" using s(2) by (simp add: RtmpMediaSink_active_def)
  from watch_step.active [OF this, of Ok ho "h @ [m]" "map Some h" f]
  have 2: "?W (h @ [m], publish m src, ?l, map Some h, f) (h @ [m], publish m src, ?l + 1, map Some h @ map Some [m],
      startSendRtmpMessage (HttpFlv_sendRtmpMessage m f))" by (simp add: HttpFlv_active_def)
  have 3: "?W (h @ [m], publish m src, ?l + 1, map Some h @ map Some [m], startSendRtmpMessage (HttpFlv_sendRtmpMessage m f))
      (h @ [m], publish m src, ?l + 1, map Some h @ map Some [m], f')"
    by (rule watch_step.sink, rule flv_step.resume [OF assms(4)])
  show ?thesis using 1 2 3 by (auto intro: converse_rtranclp_into_rtranclp simp: add.commute)
qed

lemma watch_left: "(watch_step Ok same_order)\<^sup>*\<^sup>* ([], ready_source, int (Suc 0), [], HttpFlv_new flv_player)
    ([flv_msg 1, flv_msg 2], publish (flv_msg 2) (publish (flv_msg 1) ready_source), 3, [Some (flv_msg 1), Some (flv_msg 2)], flv_left)"
proof -
  obtain f1 f4 f7 where f: "HttpFlv_init Ok same_order (HttpFlv_new flv_player) = Ok f1"
    "flv_resume Ok (startSendRtmpMessage (HttpFlv_sendRtmpMessage (flv_msg 1) f1)) = Ok f4"
    "flv_resume Ok (startSendRtmpMessage (HttpFlv_sendRtmpMessage (flv_msg 2) f4)) = Ok f7" "flv_resume Ok f7 = Ok flv_left"
    by (rule flv_left_run)
  have r: "source_holds [] ready_source" "stream_ready ready_source"
    using source_holds_new [of True True] by (simp_all add: ready_source_def source_holds_def)
  have r1: "source_holds [flv_msg 1] (publish (flv_msg 1) ready_source)" "stream_ready (publish (flv_msg 1) ready_source)"
    using publish_keeps [OF r(1) _ r(2), of "flv_msg 1"] by simp_all
  let ?W = "watch_step Ok same_order"
  have "?W ([], ready_source, int (Suc 0), [], HttpFlv_new flv_player) ([], ready_source, int (Suc 0), [], f1)"
    by (rule watch_step.sink, rule flv_step.init [OF _ _ f(1)]) (simp_all add: HttpFlv_new_def)
  moreover have "?W\<^sup>*\<^sup>* ([], ready_source, int (Suc 0), [], f1) ([flv_msg 1], publish (flv_msg 1) ready_source, 2, [Some (flv_msg 1)], f4)"
    using watch_turn [OF r(1) _ r(2) f(2), of same_order] by simp
  moreover have "?W\<^sup>*\<^sup>* ([flv_msg 1], publish (flv_msg 1) ready_source, 2, [Some (flv_msg 1)], f4)
      ([flv_msg 1, flv_msg 2], publish (flv_msg 2) (publish (flv_msg 1) ready_source), 3, [Some (flv_msg 1), Some (flv_msg 2)], f7)"
    using watch_turn [OF r1(1) _ r1(2) f(3), of same_order] by simp
  moreover have "?W ([flv_msg 1, flv_msg 2], publish (flv_msg 2) (publish (flv_msg 1) ready_source), 3, [Some (flv_msg 1), Some (flv_msg 2)], f7)
      ([flv_msg 1, flv_msg 2], publish (flv_msg 2) (publish (flv_msg 1) ready_source), 3, [Some (flv_msg 1), Some (flv_msg 2)], flv_left)"
    by (rule watch_step.sink, rule flv_step.resume [OF f(4)])
  ultimately show ?thesis by (meson converse_rtranclp_into_rtranclp rtranclp.rtrancl_into_rtrancl rtranclp_trans)
qed


end
