(* ===== verification/Servers.thy ===== *)
theory Servers
  imports Media_Source
begin

text \<open>
  What the servers are built on: the pool of worker threads (\<open>src/base/thread\<close>), the accept loop of a TCP server
  (\<open>src/server/tcp/tcp_server.hpp\<close>), the receive loop of a UDP server (\<open>src/server/udp/udp_server.hpp\<close>,
  \<open>src/base/network/udp_socket.hpp\<close>) and the sinks of an RTP media source (\<open>src/core/rtp_media_source.hpp\<close>).

  The threads themselves and boost::asio are outside the model: a worker is the state of its object, the operating system
  is a list of events, and the handler a server is derived from is an argument of its loop.
\<close>

section \<open>Workers\<close>

record thread_worker =
  cpu_core :: int
  worker_running :: bool
  joinable :: bool
  worker_deleted :: bool

definition setCPUCore :: "int \<Rightarrow> thread_worker \<Rightarrow> thread_worker" where
  "setCPUCore c w = w\<lparr>cpu_core := c\<rparr>"

definition ThreadWorker_new :: "int \<Rightarrow> thread_worker" where
  "ThreadWorker_new junk = \<lparr>cpu_core = junk, worker_running = False, joinable = False, worker_deleted = False\<rparr>"

definition ThreadWorker_start :: "thread_worker \<Rightarrow> thread_worker" where
  "ThreadWorker_start w = (if worker_running w then w else w\<lparr>worker_running := True, joinable := True\<rparr>)"

text \<open>Stopping waits for the thread, which throws if it was waited for before; \<open>running_\<close> is not reset.\<close>

definition ThreadWorker_stop :: "thread_worker \<Rightarrow> thread_worker outcome" where
  "ThreadWorker_stop w =
     (if worker_deleted w then Fault
      else if \<not> worker_running w then Ok w
      else if \<not> joinable w then Fault
      else Ok (w\<lparr>joinable := False\<rparr>))"

section \<open>The pool\<close>

record thread_pool =
  pool_running :: bool
  using_worker_idx :: u64
  workers :: "thread_worker list"

definition ThreadPool_new :: thread_pool where
  "ThreadPool_new = \<lparr>pool_running = False, using_worker_idx = 0, workers = []\<rparr>"

definition ThreadPool_start :: "int \<Rightarrow> nat \<Rightarrow> thread_pool \<Rightarrow> thread_pool" where
  "ThreadPool_start junk cpu_count p =
     (if pool_running p then p
      else p\<lparr>pool_running := True,
        workers := workers p @ map (\<lambda>i. ThreadWorker_start (setCPUCore (int i) (ThreadWorker_new junk))) [0..<cpu_count]\<rparr>)"

fun stop_workers :: "thread_worker list \<Rightarrow> thread_worker list outcome" where
  "stop_workers [] = Ok []"
| "stop_workers (w # ws) =
     obind (ThreadWorker_stop w) (\<lambda>w. obind (stop_workers ws) (\<lambda>ws. Ok (w\<lparr>worker_deleted := True\<rparr> # ws)))"

definition ThreadPool_stop :: "thread_pool \<Rightarrow> thread_pool outcome" where
  "ThreadPool_stop p =
     (if \<not> pool_running p then Ok p
      else obind (stop_workers (workers p)) (\<lambda>ws. Ok (p\<lparr>pool_running := False, workers := ws\<rparr>)))"

text \<open>The worker is given by its place in the pool.  Without workers the remainder divides by zero.\<close>

definition getWorker :: "int \<Rightarrow> thread_pool \<Rightarrow> (nat \<times> thread_pool) outcome" where
  "getWorker cpu_num p =
     (if cpu_num = -1 then
        if workers p = [] then Fault
        else let idx = ucast (using_worker_idx p mod of_nat (length (workers p))) :: u32 in
          Ok (unat idx, p\<lparr>using_worker_idx := using_worker_idx p + 1\<rparr>)
      else if 0 \<le> cpu_num \<and> nat cpu_num < length (workers p) then Ok (nat cpu_num, p)
      else Fault)"

section \<open>The accept loop\<close>

datatype accept_event = Accepted | AcceptError

text \<open>Every turn takes a worker, waits for a connection and opens it; any error ends the loop.  The result has the workers of
  the connections and whether the loop still waits.\<close>

fun accept_loop ::
  "(nat \<Rightarrow> 's \<Rightarrow> 's outcome) \<Rightarrow> accept_event list \<Rightarrow> nat list \<Rightarrow> thread_pool \<Rightarrow> 's \<Rightarrow> (nat list \<times> bool \<times> thread_pool \<times> 's) outcome" where
  "accept_loop onTcpSocketOpen [] conns p s = obind (getWorker (-1) p) (\<lambda>(w, p). Ok (conns, True, p, s))"
| "accept_loop onTcpSocketOpen (AcceptError # evs) conns p s = obind (getWorker (-1) p) (\<lambda>(w, p). Ok (conns, False, p, s))"
| "accept_loop onTcpSocketOpen (Accepted # evs) conns p s =
     obind (getWorker (-1) p) (\<lambda>(w, p).
     obind (onTcpSocketOpen w s) (\<lambda>s. accept_loop onTcpSocketOpen evs (conns @ [w]) p s))"

definition TcpServer_startListen ::
  "bool \<Rightarrow> (nat \<Rightarrow> 's \<Rightarrow> 's outcome) \<Rightarrow> accept_event list \<Rightarrow> thread_pool \<Rightarrow> 's \<Rightarrow> (nat list \<times> bool \<times> thread_pool \<times> 's) outcome" where
  "TcpServer_startListen has_worker onTcpSocketOpen evs p s =
     (if \<not> has_worker then Err (-1) else accept_loop onTcpSocketOpen evs [] p s)"

section \<open>The datagram loop\<close>

datatype 'e udp_event = Datagram bytes 'e | RecvError | StopListen

definition MAX_UDP_RECV_BUF :: nat where
  "MAX_UDP_RECV_BUF = 2 * 1024 * 1024"

definition UdpSocket_sendTo :: "nat option \<Rightarrow> bytes \<Rightarrow> bool" where
  "UdpSocket_sendTo sz d = (case sz of None \<Rightarrow> False | Some n \<Rightarrow> n = length d)"

text \<open>What a read of a datagram returns: its size, cut to the buffer, or -1.\<close>

definition UdpSocket_recvFrom :: "bytes option \<Rightarrow> nat \<Rightarrow> int" where
  "UdpSocket_recvFrom d len = (case d of None \<Rightarrow> -1 | Some d \<Rightarrow> int (min (length d) len))"

text \<open>The returned size becomes a \<open>size_t\<close>; the error code that is tested is never set.\<close>

definition udp_recv :: "(bytes \<Rightarrow> 'e \<Rightarrow> 's \<Rightarrow> 's outcome) \<Rightarrow> bytes option \<Rightarrow> 'e \<Rightarrow> 's \<Rightarrow> 's outcome" where
  "udp_recv onUdpSocketRecv d ep s =
     (let len = of_int (UdpSocket_recvFrom d MAX_UDP_RECV_BUF) :: u64 in
      case d of
        Some d \<Rightarrow> onUdpSocketRecv (take (unat len) d) ep s
      | None \<Rightarrow> if MAX_UDP_RECV_BUF < unat len then Fault else onUdpSocketRecv [] ep s)"

fun udp_loop :: "(bytes \<Rightarrow> 'e \<Rightarrow> 's \<Rightarrow> 's outcome) \<Rightarrow> 'e \<Rightarrow> bool \<Rightarrow> 'e udp_event list \<Rightarrow> 's \<Rightarrow> (bool \<times> 's) outcome" where
  "udp_loop onUdpSocketRecv no_ep running [] s = Ok (True, s)"
| "udp_loop onUdpSocketRecv no_ep running (StopListen # evs) s = udp_loop onUdpSocketRecv no_ep False evs s"
| "udp_loop onUdpSocketRecv no_ep running (Datagram d ep # evs) s =
     obind (udp_recv onUdpSocketRecv (Some d) ep s) (\<lambda>s.
       if running then udp_loop onUdpSocketRecv no_ep running evs s else Ok (False, s))"
| "udp_loop onUdpSocketRecv no_ep running (RecvError # evs) s =
     obind (udp_recv onUdpSocketRecv None no_ep s) (\<lambda>s.
       if running then udp_loop onUdpSocketRecv no_ep running evs s else Ok (False, s))"

section \<open>The RTP media source\<close>

record rtp_media_source =
  rtp_sinks :: "nat set"

definition RtpMediaSource_addMediaSink :: "nat \<Rightarrow> rtp_media_source \<Rightarrow> rtp_media_source" where
  "RtpMediaSource_addMediaSink k src = src\<lparr>rtp_sinks := insert k (rtp_sinks src)\<rparr>"

definition RtpMediaSource_removeMediaSink :: "nat \<Rightarrow> rtp_media_source \<Rightarrow> rtp_media_source" where
  "RtpMediaSource_removeMediaSink k src = src\<lparr>rtp_sinks := rtp_sinks src - {k}\<rparr>"

text \<open>The sinks to close, and the source without sinks.\<close>

definition RtpMediaSource_close :: "rtp_media_source \<Rightarrow> nat set \<times> rtp_media_source" where
  "RtpMediaSource_close src = (rtp_sinks src, src\<lparr>rtp_sinks := {}\<rparr>)"

text \<open>Packets are accepted and dropped.\<close>

definition RtpMediaSource_onAudioPacket :: "'p \<Rightarrow> rtp_media_source \<Rightarrow> bool \<times> rtp_media_source" where
  "RtpMediaSource_onAudioPacket pkt src = (True, src)"

definition RtpMediaSource_onVideoPacket :: "'p \<Rightarrow> rtp_media_source \<Rightarrow> bool \<times> rtp_media_source" where
  "RtpMediaSource_onVideoPacket pkt src = (True, src)"

section \<open>The contract of a set of sinks\<close>

datatype sink_event = Join nat | Leave nat

fun sink_run :: "(nat \<Rightarrow> 's \<Rightarrow> 's) \<Rightarrow> (nat \<Rightarrow> 's \<Rightarrow> 's) \<Rightarrow> sink_event list \<Rightarrow> 's \<Rightarrow> 's" where
  "sink_run add remove [] s = s"
| "sink_run add remove (Join k # es) s = sink_run add remove es (add k s)"
| "sink_run add remove (Leave k # es) s = sink_run add remove es (remove k s)"

text \<open>Whether a sink is in the set after some events: the last event about it decides.\<close>

fun watching :: "nat \<Rightarrow> sink_event list \<Rightarrow> bool \<Rightarrow> bool" where
  "watching k [] b = b"
| "watching k (Join j # es) b = watching k es (k = j \<or> b)"
| "watching k (Leave j # es) b = watching k es (b \<and> k \<noteq> j)"

locale media_sinks =
  fixes add :: "nat \<Rightarrow> 's \<Rightarrow> 's" and remove :: "nat \<Rightarrow> 's \<Rightarrow> 's" and shut :: "'s \<Rightarrow> nat set \<times> 's" and members :: "'s \<Rightarrow> nat set"
  assumes members_add: "members (add k s) = insert k (members s)"
    and members_remove: "members (remove k s) = members s - {k}"
    and shut_all: "fst (shut s) = members s"
    and shut_empty: "members (snd (shut s)) = {}"
begin

lemma members_run: "k \<in> members (sink_run add remove es s) \<longleftrightarrow> watching k es (k \<in> members s)"
proof (induction es arbitrary: s)
  case (Cons e es)
  then show ?case by (cases e) (simp_all add: members_add members_remove)
qed simp

lemma shut_run:
  "fst (shut (sink_run add remove es s)) = {k. watching k es (k \<in> members s)}
   \<and> members (snd (shut (sink_run add remove es s))) = {}"
  by (auto simp: shut_all shut_empty members_run)

end

interpretation rtmp_sinks: media_sinks addMediaSink removeMediaSink RtmpMediaSource_close sinks
  by unfold_locales (simp_all add: addMediaSink_def removeMediaSink_def RtmpMediaSource_close_def)

interpretation rtp_sinks: media_sinks RtpMediaSource_addMediaSink RtpMediaSource_removeMediaSink RtpMediaSource_close rtp_sinks
  by unfold_locales (simp_all add: RtpMediaSource_addMediaSink_def RtpMediaSource_removeMediaSink_def RtpMediaSource_close_def)

section \<open>Lemmas\<close>

fun getWorkers :: "nat \<Rightarrow> thread_pool \<Rightarrow> (nat list \<times> thread_pool) outcome" where
  "getWorkers 0 p = Ok ([], p)"
| "getWorkers (Suc m) p = obind (getWorker (-1) p) (\<lambda>(w, p). obind (getWorkers m p) (\<lambda>(ws, p). Ok (w # ws, p)))"

text \<open>Round robin over \<open>n\<close> places from the counter \<open>c\<close> on.\<close>

primrec rotation :: "nat \<Rightarrow> nat \<Rightarrow> nat \<Rightarrow> nat list" where
  "rotation n c 0 = []"
| "rotation n c (Suc m) = c mod n # rotation n (Suc c) m"

definition pool_ok :: "thread_pool \<Rightarrow> bool" where
  "pool_ok p \<longleftrightarrow> workers p \<noteq> [] \<and> length (workers p) < 2 ^ 32"

lemma getWorker_next:
  assumes "pool_ok p"
  shows "getWorker (-1) p = Ok (unat (using_worker_idx p) mod length (workers p), p\<lparr>using_worker_idx := using_worker_idx p + 1\<rparr>)"
proof -
  let ?n = "length (workers p)"
  have n: "unat (of_nat ?n :: u64) = ?n" using assms by (simp add: pool_ok_def unat_of_nat)
  have "unat (using_worker_idx p mod of_nat ?n) = unat (using_worker_idx p) mod ?n" by (simp add: unat_mod_distrib n)
  moreover have "unat (using_worker_idx p) mod ?n < 2 ^ 32"
    using assms by (simp add: pool_ok_def) (meson length_greater_0_conv mod_less_divisor less_trans)
  ultimately have "unat (ucast (using_worker_idx p mod of_nat ?n) :: u32) = unat (using_worker_idx p) mod ?n"
    by (simp add: unsigned_ucast_eq take_bit_nat_eq_self)
  then show ?thesis using assms by (simp add: getWorker_def pool_ok_def)
qed

lemma rotation_map: "rotation n c m = map (\<lambda>j. (c + j) mod n) [0..<m]"
proof (induction m arbitrary: c)
  case (Suc m)
  have "map (\<lambda>j. (c + j) mod n) [0..<Suc m] = c mod n # map (\<lambda>j. (c + Suc j) mod n) [0..<m]"
    by (simp add: upt_conv_Cons map_Suc_upt [symmetric] comp_def del: upt_Suc)
  then show ?case using Suc by simp
qed simp

lemma rotation_add: "rotation n c (a + b) = rotation n c a @ rotation n (c + a) b"
  by (induction a arbitrary: c) simp_all

lemma length_rotation [simp]: "length (rotation n c m) = m"
  by (induction m arbitrary: c) simp_all

lemma unat_next:
  assumes "unat (x :: u64) + Suc m \<le> 2 ^ 64" "0 < m"
  shows "unat (x + 1) = Suc (unat x)"
  using assms by (subst unat_word_ariths) simp

lemma getWorkers_rotation:
  "pool_ok p \<Longrightarrow> unat (using_worker_idx p) + m \<le> 2 ^ 64 \<Longrightarrow>
     getWorkers m p = Ok (rotation (length (workers p)) (unat (using_worker_idx p)) m, p\<lparr>using_worker_idx := using_worker_idx p + of_nat m\<rparr>)"
proof (induction m arbitrary: p)
  case (Suc m)
  let ?p = "p\<lparr>using_worker_idx := using_worker_idx p + 1\<rparr>"
  have ok: "pool_ok ?p" using Suc.prems(1) by (simp add: pool_ok_def)
  show ?case
  proof (cases "m = 0")
    case True
    then show ?thesis using getWorker_next [OF Suc.prems(1)] by simp
  next
    case False
    then have "unat (using_worker_idx ?p) = Suc (unat (using_worker_idx p))" using unat_next Suc.prems(2) by simp
    then show ?thesis using Suc.IH [OF ok] Suc.prems(2) getWorker_next [OF Suc.prems(1)]
      by (simp add: add_ac)
  qed
qed simp

lemma rotation_inj: "(c + x) mod n = (c + y) mod n \<Longrightarrow> x < n \<Longrightarrow> y < n \<Longrightarrow> x = (y :: nat)"
proof (induction x y rule: linorder_wlog)
  case (le x y)
  then have "n dvd y - x" using mod_eq_dvd_iff_nat [of "c + x" "c + y" n] by simp
  then show ?case using le by (auto dest: dvd_imp_le)
qed simp

lemma count_list_distinct: "distinct xs \<Longrightarrow> x \<in> set xs \<Longrightarrow> count_list xs x = 1"
  by (induction xs) auto

lemma count_rotation_once:
  assumes "i < n"
  shows "count_list (rotation n c n) i = 1"
proof -
  have d: "distinct (rotation n c n)" by (auto simp: rotation_map distinct_map inj_on_def dest: rotation_inj)
  have "set (rotation n c n) \<subseteq> {0..<n}" using assms by (auto simp: rotation_map)
  moreover have "card (set (rotation n c n)) = n" using distinct_card [OF d] by simp
  ultimately have "set (rotation n c n) = {0..<n}" by (intro card_subset_eq) simp_all
  then show ?thesis using count_list_distinct [OF d] assms by simp
qed

lemma count_rotation: "i < n \<Longrightarrow> count_list (rotation n c (k * n)) i = k"
  by (induction k arbitrary: c) (simp_all add: rotation_add count_rotation_once)

lemma accept_loop_rotation:
  assumes "\<And>w s. onOpen w s = Ok (f w s)"
  shows "pool_ok p \<Longrightarrow> unat (using_worker_idx p) + length evs < 2 ^ 64 \<Longrightarrow> set evs \<subseteq> {Accepted} \<Longrightarrow>
    accept_loop onOpen (evs @ AcceptError # rest) conns p s =
      Ok (conns @ rotation (length (workers p)) (unat (using_worker_idx p)) (length evs), False,
        p\<lparr>using_worker_idx := using_worker_idx p + of_nat (Suc (length evs))\<rparr>,
        fold f (rotation (length (workers p)) (unat (using_worker_idx p)) (length evs)) s)"
proof (induction evs arbitrary: conns p s)
  case Nil
  then show ?case by (simp add: getWorker_next)
next
  case (Cons e evs)
  let ?p = "p\<lparr>using_worker_idx := using_worker_idx p + 1\<rparr>"
  have e: "e = Accepted" using Cons.prems(3) by simp
  have ok: "pool_ok ?p" using Cons.prems(1) by (simp add: pool_ok_def)
  have "unat (using_worker_idx ?p) = Suc (unat (using_worker_idx p))"
    using unat_next [of "using_worker_idx p" "Suc (length evs)"] Cons.prems(2) by simp
  then show ?case using Cons.IH [OF ok] Cons.prems by (simp add: e assms getWorker_next add_ac)
qed

lemma udp_recv_datagram: "udp_recv h (Some d) ep s = h (take MAX_UDP_RECV_BUF d) ep s"
proof -
  have "unat (of_int (UdpSocket_recvFrom (Some d) MAX_UDP_RECV_BUF) :: u64) = min (length d) MAX_UDP_RECV_BUF"
    by (simp add: UdpSocket_recvFrom_def MAX_UDP_RECV_BUF_def unat_of_nat min_def)
  then show ?thesis by (simp add: udp_recv_def Let_def min_def)
qed

lemma udp_recv_error: "udp_recv h None ep s = Fault"
proof -
  have "unat (- 1 :: u64) = 2 ^ 64 - 1" by (simp add: unsigned_minus_1_eq_mask mask_eq_exp_minus_1)
  then show ?thesis by (simp add: udp_recv_def UdpSocket_recvFrom_def MAX_UDP_RECV_BUF_def)
qed

lemma udp_loop_datagrams:
  assumes "\<And>d ep s. h d ep s = Ok (g d ep s)"
  shows "udp_loop h no_ep True (map (\<lambda>(d, ep). Datagram d ep) ds @ evs) s
    = udp_loop h no_ep True evs (fold (\<lambda>(d, ep). g (take MAX_UDP_RECV_BUF d) ep) ds s)"
  by (induction ds arbitrary: s) (auto simp: udp_recv_datagram assms)

section \<open>Properties\<close>

text \<open>Claim C27: The pool is fair: as long as its counter does not wrap around, any run of requests that goes \<open>k\<close> times round a pool hands
  out every worker exactly \<open>k\<close> times, wherever the counter stood.
\<close>

theorem worker_selection_fair:
  assumes "pool_ok p" "unat (using_worker_idx p) + k * length (workers p) \<le> 2 ^ 64"
  shows "\<exists>ws p'. getWorkers (k * length (workers p)) p = Ok (ws, p') \<and> workers p' = workers p
    \<and> (\<forall>i. count_list ws i = (if i < length (workers p) then k else 0))"
proof -
  let ?n = "length (workers p)" and ?c = "unat (using_worker_idx p)"
  have "count_list (rotation ?n ?c (k * ?n)) i = (if i < ?n then k else 0)" for i
  proof (cases "i < ?n")
    case False
    then have "i \<notin> set (rotation ?n ?c (k * ?n))" using assms(1) by (auto simp: rotation_map pool_ok_def)
    then show ?thesis using False by simp
  qed (simp add: count_rotation)
  then show ?thesis using getWorkers_rotation [OF assms] by simp
qed

text \<open>
  A single failed accept stops a server for good: every connection accepted before is opened, on the workers in turn, but what
  arrives after an error, for instance one for lack of file descriptors, is never accepted.
\<close>

theorem tcp_server_stops_at_first_error:
  assumes "pool_ok p" "unat (using_worker_idx p) + m < 2 ^ 64" "\<forall>w s. onOpen w s = Ok (f w s)"
  shows "\<exists>conns p' s'. TcpServer_startListen True onOpen (replicate m Accepted @ AcceptError # rest) p s = Ok (conns, False, p', s')
    \<and> length conns = m \<and> s' = fold f conns s
    \<and> (\<forall>j < m. conns ! j = (unat (using_worker_idx p) + j) mod length (workers p))"
proof -
  have "accept_loop onOpen (replicate m Accepted @ AcceptError # rest) [] p s =
      Ok ([] @ rotation (length (workers p)) (unat (using_worker_idx p)) (length (replicate m Accepted)), False,
        p\<lparr>using_worker_idx := using_worker_idx p + of_nat (Suc (length (replicate m Accepted)))\<rparr>,
        fold f (rotation (length (workers p)) (unat (using_worker_idx p)) (length (replicate m Accepted))) s)"
    by (rule accept_loop_rotation) (use assms in \<open>auto simp: set_replicate_conv_if\<close>)
  then show ?thesis by (simp add: TcpServer_startListen_def) (simp add: rotation_map)
qed

text \<open>
  The pool cannot be started twice: \<open>stop\<close> deletes the workers and leaves them in the pool, so that after a restart the first
  worker handed out is a deleted one and a further \<open>stop\<close> uses it.  A pool started without processors, the value
  the library reports when it cannot tell, divides by zero on the first request.
\<close>

theorem thread_pool_restart_faults:
  assumes "0 < n"
  shows "(\<exists>p. ThreadPool_stop (ThreadPool_start junk n ThreadPool_new) = Ok p \<and> length (workers p) = n
      \<and> worker_deleted (workers (ThreadPool_start junk n p) ! 0)
      \<and> getWorker 0 (ThreadPool_start junk n p) = Ok (0, ThreadPool_start junk n p)
      \<and> ThreadPool_stop (ThreadPool_start junk n p) = Fault)
    \<and> getWorker (-1) (ThreadPool_start junk 0 ThreadPool_new) = Fault"
proof -
  let ?ws = "map (\<lambda>i. ThreadWorker_start (setCPUCore (int i) (ThreadWorker_new junk))) [0..<n]"
  let ?us = "map (\<lambda>i. (setCPUCore (int i) (ThreadWorker_new junk))\<lparr>worker_running := True, worker_deleted := True\<rparr>) [0..<n]"
  let ?p = "ThreadPool_new\<lparr>workers := ?us\<rparr>"
  have "stop_workers (map (\<lambda>i. ThreadWorker_start (setCPUCore (int i) (ThreadWorker_new junk))) is)
      = Ok (map (\<lambda>i. (setCPUCore (int i) (ThreadWorker_new junk))\<lparr>worker_running := True, worker_deleted := True\<rparr>) is)" for "is"
    by (induction "is") (simp_all add: ThreadWorker_stop_def ThreadWorker_start_def setCPUCore_def ThreadWorker_new_def)
  then have stop: "ThreadPool_stop (ThreadPool_start junk n ThreadPool_new) = Ok ?p"
    by (simp add: ThreadPool_stop_def ThreadPool_start_def ThreadPool_new_def)
  obtain u us where u: "?us = u # us" "worker_deleted u" using assms by (cases n) (auto simp: upt_conv_Cons simp del: upt_Suc)
  have again: "ThreadPool_start junk n ?p = ?p\<lparr>pool_running := True, workers := u # us @ ?ws\<rparr>"
    unfolding u(1) by (simp add: ThreadPool_start_def ThreadPool_new_def)
  have "length (workers ?p) = n" by simp
  then show ?thesis using stop u(2)
    by (intro conjI exI [of _ ?p]) (simp_all only: again, simp_all add: getWorker_def ThreadPool_stop_def ThreadWorker_stop_def
        ThreadPool_start_def ThreadPool_new_def)
qed

text \<open>
  A failed read ends a UDP server: datagrams are handed to the handler in order and whole, but the code -1 of the first read
  that fails becomes the largest size there is, for which no memory can be allocated or copied.
\<close>

theorem udp_server_faults_on_receive_error:
  assumes "\<forall>d ep s. h d ep s = Ok (g d ep s)"
  shows "udp_loop h no_ep True (map (\<lambda>(d, ep). Datagram d ep) ds) s = Ok (True, fold (\<lambda>(d, ep). g (take MAX_UDP_RECV_BUF d) ep) ds s)
    \<and> udp_loop h no_ep True (map (\<lambda>(d, ep). Datagram d ep) ds @ RecvError # evs) s = Fault"
  using udp_loop_datagrams [of h g no_ep ds _ s] udp_loop_datagrams [of h g no_ep ds "[]" s] assms by (simp add: udp_recv_error)

text \<open>Claim C28: Closing a media source closes exactly the sinks that are attached to it: for an RTMP and for an RTP source alike, after any sequence of
  players that join and leave, the sinks handed over to be closed are those whose last event was to join, and none is left.
\<close>

theorem closing_source_closes_its_sinks:
  "fst (RtmpMediaSource_close (sink_run addMediaSink removeMediaSink es src)) = {k. watching k es (k \<in> sinks src)}
   \<and> sinks (snd (RtmpMediaSource_close (sink_run addMediaSink removeMediaSink es src))) = {}
   \<and> fst (RtpMediaSource_close (sink_run RtpMediaSource_addMediaSink RtpMediaSource_removeMediaSink es rsrc))
       = {k. watching k es (k \<in> rtp_sinks rsrc)}
   \<and> rtp_sinks (snd (RtpMediaSource_close (sink_run RtpMediaSource_addMediaSink RtpMediaSource_removeMediaSink es rsrc))) = {}"
  using rtmp_sinks.shut_run [of es src] rtp_sinks.shut_run [of es rsrc] by simp

section \<open>Witnesses\<close>

theorem worker_selection_fair_witness:
  "\<exists>ws p'. getWorkers 6 (ThreadPool_start 0 3 ThreadPool_new) = Ok (ws, p') \<and> count_list ws 2 = 2"
proof -
  have l: "length (workers (ThreadPool_start 0 3 ThreadPool_new)) = 3" "using_worker_idx (ThreadPool_start 0 3 ThreadPool_new) = 0"
    by (simp_all add: ThreadPool_start_def ThreadPool_new_def)
  then have "pool_ok (ThreadPool_start 0 3 ThreadPool_new)" unfolding pool_ok_def by auto
  then show ?thesis using worker_selection_fair [of "ThreadPool_start 0 3 ThreadPool_new" 2] l by fastforce
qed

theorem tcp_server_stops_at_first_error_witness:
  "\<exists>conns p'. TcpServer_startListen True (\<lambda>w n. Ok (n + w)) (replicate 2 Accepted @ [AcceptError, Accepted])
      (ThreadPool_start 0 3 ThreadPool_new) 0 = Ok (conns, False, p', fold (\<lambda>w n. n + w) conns 0) \<and> length conns = 2"
proof -
  have l: "length (workers (ThreadPool_start 0 3 ThreadPool_new)) = 3" "using_worker_idx (ThreadPool_start 0 3 ThreadPool_new) = 0"
    by (simp_all add: ThreadPool_start_def ThreadPool_new_def)
  then have "pool_ok (ThreadPool_start 0 3 ThreadPool_new)" unfolding pool_ok_def by auto
  then show ?thesis
    using tcp_server_stops_at_first_error [of "ThreadPool_start 0 3 ThreadPool_new" 2 "\<lambda>w n. Ok (n + w)" "\<lambda>w n. n + w" "[Accepted]" 0] l
    by fastforce
qed

theorem thread_pool_restart_faults_witness:
  "\<exists>p. ThreadPool_stop (ThreadPool_start 0 4 ThreadPool_new) = Ok p \<and> ThreadPool_stop (ThreadPool_start 0 4 p) = Fault"
  using thread_pool_restart_faults [of 4 0] by auto

theorem udp_server_faults_on_receive_error_witness:
  "udp_loop (\<lambda>d ep n. Ok (n + length d)) () True [Datagram [1, 2] (), RecvError] 0 = Fault"
  using udp_server_faults_on_receive_error [of "\<lambda>d ep n. Ok (n + length d)" "\<lambda>d ep n. n + length d" "()" "[([1, 2], ())]" 0 "[]"] by simp

end
