(* ===== verification/Spec2Isabelle.thy ===== *)
theory Spec2Isabelle
  imports Amf0 Rtmp_Chunk_Send Rtmp_Session Flv Utils Stun Rtp Webrtc_Signal Relay Servers
begin

text \<open>
  Verification library for jbl_mms, a media server in C++ (sources under \<open>src/src\<close>; paths below are relative to it).  A
  publisher sends audio and video over RTMP; players receive it over RTMP or as an FLV file over HTTP; browsers publish and
  play over WebRTC, with signalling on a websocket and ICE, DTLS and SRTP on one UDP port.  A separate UDP server answers STUN requests.

  \<^bold>\<open>Conventions.\<close>  A routine over a raw buffer is a function on the readable bytes; it returns \<open>Ok\<close> with what it
  produced, \<open>Err\<close> with its negative code, or \<open>Fault\<close> when it leaves the buffer, dereferences a null or
  deleted object, casts to a wrong class or lets an exception escape.  Guards of the source are guards of the model and nothing
  else is: absence of \<open>Fault\<close> is always a theorem.  Machine integers keep their width.  A member that the code
  reads uninitialised is an argument (\<open>junk\<close>, \<open>heap\<close>, \<open>sdp_junk\<close>).  A coroutine that can be suspended is a
  state with a step function, and the interleavings are an inductive step relation (\<open>send_step\<close>, \<open>play_step\<close>,
  \<open>flv_step\<close>, \<open>server_step\<close>, \<open>watch_step\<close>).

  \<^bold>\<open>Shared.\<close>
  \<^item> \<open>Mms_Prelude\<close>: outcomes, checked reads, big-endian integers, strings; the locales \<open>wire_codec\<close> (an encoder that writes
    a format its decoder reads back) and \<open>checked_codec\<close> (whose decoder stays inside every buffer).
  \<^item> \<open>Cpp_Text\<close>: the string, number and hash-map functions of the C++ library and boost that the text protocols use.
  \<^item> \<open>Utils\<close> (\<open>base/utils/utils.cpp\<close>): \<open>split\<close> against a reference on fields, the CRC table against the polynomial
    it is derived from, random strings.
  \<^item> \<open>Tcp_Socket\<close> (\<open>base/network/tcp_socket.cpp\<close>): \<open>send\<close>, \<open>recv\<close>, \<open>recvSome\<close>, \<open>close\<close> over an environment of
    segments; the segmentation is invisible to what is built on it, and \<open>close\<close> reports once.
  \<^item> \<open>Servers\<close> (\<open>base/thread\<close>, \<open>server/tcp\<close>, \<open>server/udp\<close>, \<open>core/rtp_media_source.hpp\<close>): worker pool, accept and datagram
    loops, and the locale \<open>media_sinks\<close> with its two interpretations, the RTMP and the RTP source.

  \<^bold>\<open>RTMP.\<close>
  \<^item> \<open>Amf0\<close> (\<open>server/rtmp/amf0\<close>): one decoder and encoder per class.  Round trip of every value, bounds of the
    decoders, and the over-reads and overflows that remain; interpretations of the codec locales for each class.
  \<^item> \<open>Rtmp_Define\<close> (\<open>rtmp_define.hpp\<close>, control messages): locale \<open>control_message\<close>, interpreted for four messages.
  \<^item> \<open>Rtmp_Chunk_Recv\<close>, \<open>Rtmp_Chunk_Send\<close> (\<open>rtmp_chunk_protocol.cpp\<close>): the two halves of the chunk protocol.  Memory
    safety and isolation of the receive loop, the send queue under every interleaving of its coroutine with the blocking
    sender, and that receiving inverts sending on a whole connection.
  \<^item> \<open>Rtmp_Message\<close> (\<open>rtmp_message\<close>): commands, responses, metadata.  \<open>Flv\<close> (\<open>protocol/flv/flv_define.hpp\<close>): tag headers.
  \<^item> \<open>Media_Source\<close> (\<open>base/sequence_pkt_buf.hpp\<close>, \<open>core/rtmp_media_source.hpp\<close>, \<open>core/rtmp_media_sink.cpp\<close>): the ring buffer
    as a \<open>packet_store\<close>, the source, and that a player gets every packet once.
  \<^item> \<open>Rtmp_Session\<close> (\<open>rtmp_handshake.hpp\<close>, \<open>rtmp_session.cpp\<close>, \<open>core/media_manager.hpp\<close>): handshake, command handlers,
    media path, close; the registry as a \<open>source_registry\<close>.

  \<^bold>\<open>HTTP.\<close>
  \<^item> \<open>Http\<close> (\<open>server/http/http_protocol\<close>, \<open>http_conn.cpp\<close>, \<open>http_session.cpp\<close>): request, parser, receive loop.  A request is
    delivered once however it is cut into segments; what follows it, and which requests end in a fault or a loop.
  \<^item> \<open>Http_Flv\<close> (\<open>http_flv.cpp\<close>, \<open>http_response.hpp\<close>, \<open>http_session.cpp\<close>): the session and its sink.  The byte
    stream refines a sequence of tags that a player reads back.

  \<^bold>\<open>WebRTC.\<close>
  \<^item> \<open>Stun\<close> (\<open>server/stun\<close>): attributes, messages, integrity and fingerprint, the STUN server.
  \<^item> \<open>Rtp\<close> (\<open>protocol/rtp\<close>): header, packets, H.264 depacketizer.
  \<^item> \<open>Dtls_Define\<close>, \<open>Dtls_Record\<close>, \<open>Dtls_Session\<close> (\<open>server/dtls\<close>, \<open>server/webrtc/dtls/dtls_session.cpp\<close>): messages, key
    derivation (a refinement of the function of RFC 5246) and protected records, the handshake.  An honest client completes
    it with matching keys; the completion callback is only reached by a record whose verify data fit the transcript.
  \<^item> \<open>Webrtc\<close> (\<open>webrtc_server.cpp\<close>, datagrams of \<open>webrtc_session.cpp\<close>): demultiplexer, session maps, ICE answers, SRTP set-up.
  \<^item> \<open>Sdp_Line\<close>, \<open>Sdp_Media\<close>, \<open>Sdp\<close> (\<open>protocol/sdp\<close>): lines (locale \<open>sdp_line\<close>, interpreted for every class with a parser and
    a printer that fit), media sections, whole descriptions.
  \<^item> \<open>Webrtc_Signal\<close> (\<open>webrtc_session.cpp\<close>, signalling): the offer, the answer, registration as source or sink.

  \<^bold>\<open>Compositions.\<close>  \<open>Relay\<close>: the path of a packet from a publisher through the media source and the HTTP-FLV sink to a
  player.  This theory: a connecting client and the chunk size it is told.

  \<^bold>\<open>Parameters.\<close>  OpenSSL is the record \<open>dtls_crypto\<close> (with \<open>crypto_ok\<close>: digest lengths, CBC decryption inverts
  encryption) and an argument \<open>hmac\<close>; libsrtp, jsoncpp and the websocket library are arguments of the functions that call them;
  clock and random numbers are \<open>dtls_entropy\<close> and \<open>signal_env\<close>; the order of unordered maps is \<open>hash_order\<close>; the handler of a closed
  connection is \<open>onClose\<close>.  Every property with such a hypothesis has a witness with concrete functions.

  \<^bold>\<open>Termination.\<close>  Loops that can run forever (\<open>send_loop\<close>, \<open>stun_loop\<close>, \<open>dtls_loop\<close>, \<open>cycleRecv\<close>) are partial functions with
  value \<open>None\<close> then, and it is proved when they return.  Two loops have a counter: \<open>prf_loop\<close> has one turn per byte of key
  material, and each turn yields 32; \<open>drain_queue\<close> has one turn per queued record, and each turn removes one.  All other functions
  are total by a measure or by structure.

  \<^bold>\<open>Not modelled.\<close>  \<open>dtls_cert.cpp\<close>, the TLS server and the SHA and HMAC wrappers only call OpenSSL.  The websocket
  server, the connection classes and \<open>main.cpp\<close> only construct, hold and start objects.  Threads, timers and task queues are boost::asio;
  locks are not modelled, since the model has the interleavings of coroutines and not of memory accesses.  The pipeline and its handlers
  are never run; the ICE and demultiplexer stubs and the RTP sink have no behaviour.  Attribute classes that
  nothing constructs, plain accessors and log output are left out.
\<close>

section \<open>Connecting a client\<close>

definition connect_result_values :: "connect_command \<Rightarrow> u64 \<Rightarrow> amf0_data list" where
  "connect_result_values cmd enc =
     [Amf0String ''_result'', Amf0Number (cc_transaction_id cmd),
      Amf0Object [(''fmsVer'', Amf0String ''FMS/3,0,1,123''), (''capabilities'', Amf0Number (double_of_int 31))],
      Amf0Object [(''level'', Amf0String ''status''), (''code'', Amf0String ''NetConnection.Connect.Success''),
        (''description'', Amf0String ''Connection succeed.''), (''objEncoding'', Amf0Number enc)]]"

definition connect_result :: "connect_command \<Rightarrow> u64 \<Rightarrow> rtmp_message" where
  "connect_result cmd enc = server_message RTMP_MESSAGE_TYPE_AMF0_COMMAND (members_bytes (connect_result_values cmd enc))"

lemma connect_result_values_wf: "list_all amf0_wf (connect_result_values cmd enc)"
  by (simp add: connect_result_values_def)

lemma connect_result_encoded:
  "RtmpConnectRespMessage_encode ''_result'' (cc_transaction_id cmd)
        (setItemValue ''capabilities'' (Amf0Number (double_of_int 31))
          (setItemValue ''fmsVer'' (Amf0String ''FMS/3,0,1,123'') []))
        (setItemValue ''objEncoding'' (Amf0Number enc)
          (setItemValue ''description'' (Amf0String ''Connection succeed.'')
            (setItemValue ''code'' (Amf0String ''NetConnection.Connect.Success'')
              (setItemValue ''level'' (Amf0String ''status'') []))))
   = Ok (Some (connect_result cmd enc))"
  unfolding RtmpConnectRespMessage_encode_def connect_result_def
    encode_command_wf [OF connect_result_values_wf, symmetric]
  by (simp add: connect_result_values_def setItemValue_def)

lemma connect_result_ok: "message_ok (connect_result cmd enc)"
proof -
  have "0 < length (members_bytes (connect_result_values cmd enc)) \<and>
      length (members_bytes (connect_result_values cmd enc)) < 4096"
    unfolding length_members_bytes [OF connect_result_values_wf]
    by (simp add: connect_result_values_def)
  then show ?thesis by (auto simp: message_ok_def frame_ok_def connect_result_def server_message_def)
qed

lemma connect_handled:
  fixes j :: junk
  assumes "RtmpConnectCommandMessage_decode m = Ok (cmd, n)" "parse_domain (cc_tc_url cmd) = Some host"
    and "send_results (sessions srv sid) = [True, True, True, True] @ rs" 
  defines "enc \<equiv> (case cc_object_encoding cmd of Some d \<Rightarrow> d | None \<Rightarrow> junk_double j)"
  shows "\<exists>srv'. handleAmf0ConnectCommand j sid m srv = Ok (True, srv') \<and>
    domain (sessions srv' sid) = host \<and>
    sent_msgs (sessions srv' sid) = sent_msgs (sessions srv sid) @ [RtmpWindowAckSizeMessage_encode 80000000,
      RtmpSetPeerBandwidthMessage_encode (800000000, 2), RtmpSetChunkSizeMessage_encode 4096,
      connect_result cmd enc]"
  using assms(1-3)
  by (auto simp: enc_def handleAmf0ConnectCommand_def parseConnectCmd_def Let_def connect_replies_def
      connect_result_encoded send_message_def not_less_eq)


lemma control_messages_ok:
  "message_ok (RtmpWindowAckSizeMessage_encode v)" "message_ok (RtmpSetPeerBandwidthMessage_encode w)"
  "frame_ok (RtmpSetChunkSizeMessage_encode v)"
  by (auto simp: message_ok_def frame_ok_def RtmpWindowAckSizeMessage_encode_def server_message_def
      RtmpSetPeerBandwidthMessage_encode_def RtmpSetChunkSizeMessage_encode_def
      simp flip: length_greater_0_conv split: prod.splits)

lemma u32_sints [simp]: "sint (4096 :: u32) = 4096" "sint (128 :: u32) = 128"
  by simp_all

text \<open>What a client that starts with the default chunk size of 128 sees of a stream that raises it.\<close>

lemma chunk_size_raised:
  assumes "\<forall>m \<in> set ms. message_ok m \<and> length (msg_payload m) \<le> 128" "\<forall>m \<in> set ms'. message_ok m"
  shows "cycleRecvRtmpMessage collect [] chunk_recv_init
      (concat (map (sent_wire 4096) (ms @ RtmpSetChunkSizeMessage_encode 4096 # ms'))) = (Returned (-1), ms @ ms')"
proof -
  let ?cs = "RtmpSetChunkSizeMessage_encode 4096"
  have in0: "in_chunk_size chunk_recv_init = 128" by (simp add: chunk_recv_init_def)
  have 1: "map (sent_wire 4096) ms = map (message_wire 128) ms"
    using assms(1) by (auto simp: sent_wire_ok message_ok_def intro!: message_wire_one_chunk)
  have 2: "map (sent_wire 4096) ms' = map (message_wire 4096) ms'"
    using assms(2) by (auto simp: sent_wire_ok message_ok_def)
  have w: "concat (map (sent_wire 4096) (ms @ ?cs # ms'))
      = concat (map (message_wire 128) ms) @ message_wire 4096 ?cs @ concat (map (message_wire 4096) ms') @ []"
    by (simp only: map_append list.map 1 2 concat_append concat.simps sent_wire_ok control_messages_ok
        append_Nil2 append_assoc)
  obtain st where st: "recv_wf st" "in_chunk_size st = in_chunk_size chunk_recv_init"
    "cycleRecvRtmpMessage collect [] chunk_recv_init (concat (map (message_wire 128) ms) @
        message_wire 4096 ?cs @ concat (map (message_wire 4096) ms') @ [])
      = cycleRecvRtmpMessage collect ([] @ ms) st (message_wire 4096 ?cs @ concat (map (message_wire 4096) ms') @ [])"
    using cycle_messages [of chunk_recv_init ms 128 "[]"] assms(1) recv_wf_init in0 by auto
  obtain st1 where st1: "recv_wf st1" "in_chunk_size st1 = 4096"
    "cycleRecvRtmpMessage collect ([] @ ms) st (message_wire 4096 ?cs @ concat (map (message_wire 4096) ms') @ [])
      = cycleRecvRtmpMessage collect ([] @ ms) st1 (concat (map (message_wire 4096) ms') @ [])"
    using cycle_set_chunk_size [OF st(1), of 4096 4096 collect "[] @ ms"] st(2) in0 by auto
  obtain st2 where "cycleRecvRtmpMessage collect ([] @ ms) st1 (concat (map (message_wire 4096) ms') @ [])
      = cycleRecvRtmpMessage collect (([] @ ms) @ ms') st2 []"
    using cycle_messages [OF st1(1) assms(2), of 4096 "[] @ ms" "[]"] st1(2) by auto
  then show ?thesis unfolding w st(3) st1(3) by (simp add: cycle_end)
qed

text \<open>Claim C13: A connect command is answered on the wire in a way a client understands: whatever the
  server sends afterwards with its chunk size of 4096, a receiver that starts with the protocol's 128
  bytes gets the window size, the bandwidth, the _result for its transaction and then exactly the
  later messages, because the chunk size message arrives before the first message that needs it.\<close>

theorem connect_negotiates_chunk_size:
  assumes "RtmpConnectCommandMessage_decode m = Ok (cmd, n)" "parse_domain (cc_tc_url cmd) = Some host"
    and "send_results (sessions srv sid) = [True, True, True, True] @ rs" "sent_msgs (sessions srv sid) = []"
    and "\<forall>m \<in> set ms. message_ok m"
  shows "\<exists>srv' r. handleAmf0ConnectCommand j sid m srv = Ok (True, srv')
    \<and> domain (sessions srv' sid) = host
    \<and> cycleRecvRtmpMessage collect [] chunk_recv_init
        (concat (map (sent_wire 4096) (sent_msgs (sessions srv' sid) @ ms)))
      = (Returned (-1), [RtmpWindowAckSizeMessage_encode 80000000,
           RtmpSetPeerBandwidthMessage_encode (800000000, 2), r] @ ms)
    \<and> read_values (msg_payload r) = Ok (connect_result_values cmd
        (case cc_object_encoding cmd of Some d \<Rightarrow> d | None \<Rightarrow> junk_double j))"
proof -
  let ?enc = "case cc_object_encoding cmd of Some d \<Rightarrow> d | None \<Rightarrow> junk_double j"
  obtain srv' where h: "handleAmf0ConnectCommand j sid m srv = Ok (True, srv')"
    "domain (sessions srv' sid) = host"
    "sent_msgs (sessions srv' sid) = [RtmpWindowAckSizeMessage_encode 80000000,
      RtmpSetPeerBandwidthMessage_encode (800000000, 2), RtmpSetChunkSizeMessage_encode 4096,
      connect_result cmd ?enc]"
    using connect_handled [OF assms(1-3), of j] assms(4) by auto
  let ?r = "connect_result cmd ?enc"
  have "cycleRecvRtmpMessage collect [] chunk_recv_init
      (concat (map (sent_wire 4096) ([RtmpWindowAckSizeMessage_encode 80000000,
        RtmpSetPeerBandwidthMessage_encode (800000000, 2)] @ RtmpSetChunkSizeMessage_encode 4096 # ?r # ms)))
    = (Returned (-1), [RtmpWindowAckSizeMessage_encode 80000000,
        RtmpSetPeerBandwidthMessage_encode (800000000, 2)] @ ?r # ms)"
    using assms(5)
    by (intro chunk_size_raised) (auto simp: control_messages_ok connect_result_ok
        window_ack_size.length_enc set_peer_bandwidth.length_enc)
  moreover have "read_values (msg_payload ?r) = Ok (connect_result_values cmd ?enc)"
    by (simp add: connect_result_def server_message_def read_values_members connect_result_values_wf)
  ultimately show ?thesis using h by (intro exI [of _ srv'] exI [of _ ?r]) simp
qed

definition demo_connect :: rtmp_message where
  "demo_connect = server_message RTMP_MESSAGE_TYPE_AMF0_COMMAND (members_bytes [Amf0String ''connect'', Amf0Number 7,
     Amf0Object [(''app'', Amf0String ''live''), (''tcUrl'', Amf0String ''rtmp://host:1935/live'')]])"

lemma demo_connect_decoded:
  "RtmpConnectCommandMessage_decode demo_connect = Ok (\<lparr>cc_command_name = ''connect'', cc_transaction_id = 7,
     cc_command_object = [(''app'', Amf0String ''live''), (''tcUrl'', Amf0String ''rtmp://host:1935/live'')],
     cc_optional_user_args = [], cc_tc_url = ''rtmp://host:1935/live'', cc_page_url = [], cc_swf_url = [],
     cc_app = ''live'', cc_object_encoding = None\<rparr>, length (msg_payload demo_connect))"
  by code_simp

theorem connect_negotiates_chunk_size_witness:
  "\<forall>j. \<exists>srv' r. handleAmf0ConnectCommand j 3 demo_connect (demo_server []) = Ok (True, srv')
    \<and> domain (sessions srv' 3) = ''host''
    \<and> snd (cycleRecvRtmpMessage collect [] chunk_recv_init
        (concat (map (sent_wire 4096) (sent_msgs (sessions srv' 3) @ [demo_message]))))
      = [RtmpWindowAckSizeMessage_encode 80000000, RtmpSetPeerBandwidthMessage_encode (800000000, 2), r, demo_message]"
proof
  fix j
  have "parse_domain ''rtmp://host:1935/live'' = Some ''host''" by code_simp
  moreover have "message_ok demo_message" by code_simp
  moreover have "sent_msgs (sessions (demo_server []) 3) = []" by (simp add: demo_server_def demo_session_def)
  ultimately show "\<exists>srv' r. handleAmf0ConnectCommand j 3 demo_connect (demo_server []) = Ok (True, srv')
    \<and> domain (sessions srv' 3) = ''host''
    \<and> snd (cycleRecvRtmpMessage collect [] chunk_recv_init
        (concat (map (sent_wire 4096) (sent_msgs (sessions srv' 3) @ [demo_message]))))
      = [RtmpWindowAckSizeMessage_encode 80000000, RtmpSetPeerBandwidthMessage_encode (800000000, 2), r, demo_message]"
    using connect_negotiates_chunk_size [OF demo_connect_decoded, of "''host''" "demo_server []" 3 "[]" "[demo_message]" j]
      demo_names(2) by fastforce
qed

end
